(* ===== verification/Prelude.thy ===== *)
theory Prelude
  imports Main "HOL-Library.Word" "HOL-Library.Multiset" "HOL-Library.Sublist"
begin

text \<open>
  Shared vocabulary of the development: Go's machine integers, strings, error values and
  panics, decimal printing (\<^verbatim>\<open>fmt.Sprintf("%d")\<close>), ASCII case folding
  (\<^verbatim>\<open>strings.ToLower\<close>, \<^verbatim>\<open>strings.EqualFold\<close>), completion orders of
  goroutines, and the generic lemmas the components use.

  Conventions. A Go \<^verbatim>\<open>uint64\<close>, \<^verbatim>\<open>uint\<close> or \<^verbatim>\<open>int\<close> is a \<open>64 word\<close>
  (the platforms the library runs on are 64 bit); \<^verbatim>\<open>int\<close> values are read with
  \<open>sint\<close>. A Go string is a byte sequence, a \<open>string\<close> here. A pointer that may be nil is
  an \<open>option\<close>. A pair \<^verbatim>\<open>(T, error)\<close> of which callers read only one half is a sum with
  the error on the left.
\<close>

section \<open>Collections of the development\<close>

named_theorems go_defs \<open>how an operation on a part of the state acts on the whole\<close>

section \<open>Machine integers\<close>

type_synonym uint64 = "64 word"
type_synonym go_uint = "64 word"
type_synonym go_int = "64 word"
type_synonym byte = "8 word"

text \<open>\<^verbatim>\<open>config.ChainId\<close>: a named \<^verbatim>\<open>uint\<close>.\<close>

type_synonym ChainId = go_uint

lemma unat_uint64_bound: "unat (n :: uint64) < 18446744073709551616"
  using unsigned_less [of n, where 'a = nat] by simp

lemma unat_minus_one_less: "(0 :: uint64) < n \<Longrightarrow> unat (n - 1) < unat n"
  by (metis unat_minus_one word_gt_0 diff_less unat_gt_0 zero_less_one)

lemma unat_max_uint64: "unat (- 1 :: uint64) = 18446744073709551615"
  by (simp add: unsigned_minus_1_eq_mask mask_eq_exp_minus_1)

lemma unat_Suc_word: "unat (n :: uint64) < 18446744073709551615 \<Longrightarrow> unat (n + 1) = Suc (unat n)"
  using unat_add_lem [of n 1] by simp

lemma sint_add_in_range:
  assumes "- (2 ^ 63) \<le> sint (a :: go_int) + sint b" "sint a + sint b < 2 ^ 63"
  shows "sint (a + b) = sint a + sint b"
  using assms by (simp add: sint_word_ariths(1) signed_take_bit_int_eq_self)

lemma sint_word_of_nat: "n < 2 ^ 63 \<Longrightarrow> sint (word_of_nat n :: go_int) = int n"
  by (simp add: signed_of_nat signed_take_bit_int_eq_self)

lemma unat_word_of_nat_small: "n < 2 ^ 63 \<Longrightarrow> unat (word_of_nat n :: 64 word) = n"
  by (simp add: unat_of_nat)

lemma sint_nonneg_unat: "0 \<le> sint (w :: go_int) \<Longrightarrow> sint w = int (unat w)"
proof -
  assume nonneg: "0 \<le> sint w"
  have "uint w = uint (word_of_int (sint w) :: go_int)" by simp
  also have "\<dots> = take_bit 64 (sint w)" by (simp only: unsigned_of_int) simp
  also have "\<dots> = sint w" using nonneg sint_lt [of w] by (simp add: take_bit_int_eq_self)
  finally show ?thesis by (metis uint_nat)
qed

lemma sint_pos_unat: "0 < sint (w :: go_int) \<Longrightarrow> 0 < unat w"
  by (cases "w = 0") (auto simp: unat_gt_0 word_gt_0)

lemma unat_Suc_less_max: "n < (- 1 :: uint64) \<Longrightarrow> unat (n + 1) = Suc (unat n)"
  by (simp add: word_less_nat_alt unat_max_uint64 unat_Suc_word)

lemma unat_Suc_no_wrap: "n < n + (1 :: uint64) \<Longrightarrow> unat (n + 1) = Suc (unat n)"
proof -
  assume n: "n < n + 1"
  then have "n \<noteq> - 1" by auto
  then have "n < - 1" by (simp add: less_le)
  then show ?thesis by (rule unat_Suc_less_max)
qed

section \<open>Errors and panics\<close>

text \<open>
  The sentinel errors are those of \<^verbatim>\<open>pkg/chainPollers/persistence/types.go\<close>. Every other
  error is built by \<^verbatim>\<open>fmt.Errorf\<close> or \<^verbatim>\<open>errors.New\<close>: \<open>Errorf f w\<close> keeps the format
  string \<open>f\<close> and the error wrapped by a \<^verbatim>\<open>%w\<close> verb, if there is one; the formatted
  arguments are left out.
\<close>

datatype error =
    ErrNotFound
  | ErrAlreadyExists
  | ErrStoreClosed
  | ErrInvalidTaskStatus
  | ErrInvalidChainId
  | Errorf string "error option"

text \<open>\<^verbatim>\<open>errors.Is\<close>: the error or one it wraps is the target.\<close>

fun errors_Is :: "error \<Rightarrow> error \<Rightarrow> bool" where
  "errors_Is (Errorf f (Some e)) target = (Errorf f (Some e) = target \<or> errors_Is e target)"
| "errors_Is e target = (e = target)"

text \<open>A call returns or panics; a panic carries a description.\<close>

datatype 'a go = Ret 'a | Panic string

definition nil_dereference :: string where
  "nil_dereference = ''invalid memory address or nil pointer dereference''"

definition out_of_range :: string where
  "out_of_range = ''slice bounds or index out of range''"

fun is_ret :: "'a go \<Rightarrow> bool" where
  "is_ret (Ret _) = True"
| "is_ret (Panic _) = False"

lemma is_ret_iff: "is_ret r \<longleftrightarrow> (\<exists>x. r = Ret x)"
  by (cases r) auto

section \<open>Decimal printing\<close>

definition digit_char :: "nat \<Rightarrow> char" where
  "digit_char d = char_of (48 + d)"

fun show_nat :: "nat \<Rightarrow> string" where
  "show_nat n =
     (if n < 10 then [digit_char n] else show_nat (n div 10) @ [digit_char (n mod 10)])"

declare show_nat.simps [simp del]

definition read_digits :: "string \<Rightarrow> nat" where
  "read_digits s = foldl (\<lambda>a c. 10 * a + (of_char c - 48)) 0 s"

lemma of_char_digit_char: "d < 10 \<Longrightarrow> of_char (digit_char d) = 48 + d"
  by (simp add: digit_char_def)

lemma read_show_nat: "read_digits (show_nat n) = n"
proof (induction n rule: show_nat.induct)
  case (1 n)
  show ?case
  proof (cases "n < 10")
    case True
    then show ?thesis
      by (subst show_nat.simps) (simp add: read_digits_def of_char_digit_char)
  next
    case False
    with "1.IH" have "read_digits (show_nat (n div 10)) = n div 10" by simp
    with False show ?thesis
      by (subst show_nat.simps) (simp add: read_digits_def of_char_digit_char)
  qed
qed

lemma show_nat_inject [simp]: "show_nat m = show_nat n \<longleftrightarrow> m = n"
  by (metis read_show_nat)

lemma digit_char_not_colon: "d < 10 \<Longrightarrow> digit_char d \<noteq> CHR '':''"
  using of_char_digit_char [of d] by auto

lemma colon_notin_show_nat [simp]: "CHR '':'' \<notin> set (show_nat n)"
proof (induction n rule: show_nat.induct)
  case (1 n)
  then show ?case
    using digit_char_not_colon [of n] digit_char_not_colon [of "n mod 10"]
    by (subst show_nat.simps) auto
qed

section \<open>ASCII case folding\<close>

text \<open>
  \<^verbatim>\<open>strings.ToLower\<close> and \<^verbatim>\<open>strings.EqualFold\<close> on ASCII strings, which addresses, hashes
  and contract names are. Bytes from 128 on are left as they are; Go maps the Unicode
  code points they encode.
\<close>

definition lower_char :: "char \<Rightarrow> char" where
  "lower_char c =
     (let n = (of_char c :: nat) in if 65 \<le> n \<and> n \<le> 90 then char_of (n + 32) else c)"

definition ToLower :: "string \<Rightarrow> string" where
  "ToLower s = map lower_char s"

definition EqualFold :: "string \<Rightarrow> string \<Rightarrow> bool" where
  "EqualFold a b \<longleftrightarrow> ToLower a = ToLower b"

lemma lower_char_idem [simp]: "lower_char (lower_char c) = lower_char c"
  by (auto simp: lower_char_def Let_def)

lemma ToLower_idem [simp]: "ToLower (ToLower s) = ToLower s"
  by (simp add: ToLower_def)

lemma length_ToLower [simp]: "length (ToLower s) = length s"
  by (simp add: ToLower_def)

lemma ToLower_Nil_iff [simp]: "ToLower s = [] \<longleftrightarrow> s = []"
  by (simp add: ToLower_def)

lemma ToLower_empty [simp]: "ToLower [] = []"
  by (simp add: ToLower_def)

lemma EqualFold_ToLower [simp]:
  "EqualFold (ToLower a) b = EqualFold a b" "EqualFold a (ToLower b) = EqualFold a b"
  by (simp_all add: EqualFold_def)

lemma EqualFold_refl [simp]: "EqualFold a a"
  by (simp add: EqualFold_def)

section \<open>Completion orders of goroutines\<close>

text \<open>
  \<open>n\<close> goroutines that each send one value on a channel deliver their values in the order
  in which they complete. A scheduler is any list of indices; \<open>completion_order\<close> reads a
  permutation of \<open>0, \<dots>, n - 1\<close> off it, so that every list stands for some order and every
  order is the reading of some list.
\<close>

definition completion_order :: "nat \<Rightarrow> nat list \<Rightarrow> nat list" where
  "completion_order n s =
     (let seen = remdups (filter (\<lambda>i. i < n) s)
      in seen @ filter (\<lambda>i. i \<notin> set seen) [0..<n])"

lemma set_completion_order [simp]: "set (completion_order n s) = {0..<n}"
  by (auto simp: completion_order_def Let_def)

lemma distinct_completion_order [simp]: "distinct (completion_order n s)"
  by (auto simp: completion_order_def Let_def)

lemma mset_completion_order [simp]: "mset (completion_order n s) = mset [0..<n]"
  by (rule set_eq_iff_mset_eq_distinct [THEN iffD1]) auto

lemma completion_order_surj: "mset p = mset [0..<n] \<Longrightarrow> completion_order n p = p"
proof -
  assume p: "mset p = mset [0..<n]"
  then have "set p = {0..<n}" "distinct p"
    using mset_eq_setD [OF p] mset_eq_imp_distinct_iff [OF p] by auto
  then show ?thesis
    by (auto simp: completion_order_def Let_def filter_id_conv distinct_remdups_id
        filter_empty_conv)
qed

text \<open>
  Ranging over a Go map visits the keys in an unspecified order: \<open>range_order o ks\<close> is the
  order that the choice \<open>o\<close> picks.
\<close>

definition range_order :: "nat list \<Rightarrow> 'a list \<Rightarrow> 'a list" where
  "range_order ord ks = map ((!) ks) (completion_order (length ks) ord)"

section \<open>Lists and maps\<close>

lemma nth_map_upt_id [simp]: "map ((!) xs) [0..<length xs] = xs"
  by (simp add: map_nth)

lemma mset_map_completion_order:
  "mset (map f (completion_order n s)) = mset (map f [0..<n])"
  by (simp only: mset_map mset_completion_order)

lemma mset_concat_cong:
  "mset xs = mset ys \<Longrightarrow> mset (concat xs) = mset (concat ys)"
proof -
  assume "mset xs = mset ys"
  then have "\<Sum>\<^sub># (image_mset mset (mset xs)) = \<Sum>\<^sub># (image_mset mset (mset ys))" by simp
  then show ?thesis by (simp add: mset_concat sum_mset_sum_list [symmetric])
qed

lemma mset_range_order [simp]: "mset (range_order ord ks) = mset ks"
  by (simp only: range_order_def mset_map_completion_order nth_map_upt_id)

lemma set_range_order [simp]: "set (range_order ord ks) = set ks"
  by (metis mset_range_order set_mset_mset)

lemma distinct_range_order [simp]: "distinct (range_order ord ks) = distinct ks"
  by (rule mset_eq_imp_distinct_iff) simp

lemma length_range_order [simp]: "length (range_order ord ks) = length ks"
  by (metis mset_range_order size_mset)

end
