(* ===== verification/Persistence.thy ===== *)
theory Persistence
  imports Prelude
begin

text \<open>
  Block records and the persistence interface of the chain poller
  (\<^verbatim>\<open>pkg/chainPollers/chainPoller.go\<close>), the contract a store keeps, as a locale, and the
  in-memory store of \<^verbatim>\<open>pkg/chainPollers/persistence/memory/memory.go\<close> with its
  interpretation.
\<close>

section \<open>Block records and the interface\<close>

record BlockRecord =
  br_Number :: uint64
  br_Hash :: string
  br_ParentHash :: string
  br_Timestamp :: uint64
  br_ChainId :: ChainId

text \<open>
  The methods of \<^verbatim>\<open>IChainPollerPersistence\<close> over a store state \<open>'s\<close>. Each method is given
  the state and returns its result with the new state; the context argument is dropped. A
  \<^verbatim>\<open>*BlockRecord\<close> result may be nil next to a nil error, hence \<open>BlockRecord option\<close>.
\<close>

record 's IChainPollerPersistence =
  GetLastProcessedBlock :: "ChainId \<Rightarrow> 's \<Rightarrow> (error + BlockRecord option) \<times> 's"
  SaveBlock :: "BlockRecord option \<Rightarrow> 's \<Rightarrow> error option \<times> 's"
  GetBlock :: "ChainId \<Rightarrow> uint64 \<Rightarrow> 's \<Rightarrow> (error + BlockRecord option) \<times> 's"
  DeleteBlock :: "ChainId \<Rightarrow> uint64 \<Rightarrow> 's \<Rightarrow> error option \<times> 's"
  Close :: "'s \<Rightarrow> error option \<times> 's"

section \<open>The in-memory store\<close>

text \<open>
  The two Go maps are partial functions on their string keys; the nil maps \<^verbatim>\<open>Close\<close> leaves
  behind are empty ones. The mutex makes every method one atomic step on this state.
\<close>

record InMemoryChainPollerPersistence =
  mem_closed :: bool
  mem_lastProcessedBlocks :: "string \<rightharpoonup> uint64"
  mem_blocks :: "string \<rightharpoonup> BlockRecord"

definition NewInMemoryChainPollerPersistence :: InMemoryChainPollerPersistence where
  "NewInMemoryChainPollerPersistence =
     \<lparr>mem_closed = False, mem_lastProcessedBlocks = Map.empty, mem_blocks = Map.empty\<rparr>"

text \<open>\<^verbatim>\<open>fmt.Sprintf("%d", chainId)\<close>\<close>

definition makeBlockKey :: "ChainId \<Rightarrow> string" where
  "makeBlockKey chainId = show_nat (unat chainId)"

text \<open>\<^verbatim>\<open>fmt.Sprintf("block:%d:%d", chainId, blockNumber)\<close>\<close>

definition makeBlockRecordKey :: "ChainId \<Rightarrow> uint64 \<Rightarrow> string" where
  "makeBlockRecordKey chainId blockNumber =
     ''block:'' @ show_nat (unat chainId) @ '':'' @ show_nat (unat blockNumber)"

definition Memory_GetLastProcessedBlock ::
  "ChainId \<Rightarrow> InMemoryChainPollerPersistence
     \<Rightarrow> (error + BlockRecord option) \<times> InMemoryChainPollerPersistence" where
  "Memory_GetLastProcessedBlock chainId s =
     (if mem_closed s then (Inl ErrStoreClosed, s)
      else case mem_lastProcessedBlocks s (makeBlockKey chainId) of
        None \<Rightarrow> (Inl ErrNotFound, s)
      | Some blockNum \<Rightarrow>
          (case mem_blocks s (makeBlockRecordKey chainId blockNum) of
             None \<Rightarrow> (Inl ErrNotFound, s)
           | Some block \<Rightarrow> (Inr (Some block), s)))"

definition Memory_SaveBlock ::
  "BlockRecord option \<Rightarrow> InMemoryChainPollerPersistence
     \<Rightarrow> error option \<times> InMemoryChainPollerPersistence" where
  "Memory_SaveBlock b s =
     (if mem_closed s then (Some ErrStoreClosed, s)
      else case b of
        None \<Rightarrow> (Some (Errorf ''block cannot be nil'' None), s)
      | Some block \<Rightarrow>
          (None,
           s\<lparr>mem_blocks := (mem_blocks s)
                (makeBlockRecordKey (br_ChainId block) (br_Number block) \<mapsto> block),
             mem_lastProcessedBlocks := (mem_lastProcessedBlocks s)
                (makeBlockKey (br_ChainId block) \<mapsto> br_Number block)\<rparr>))"

definition Memory_GetBlock ::
  "ChainId \<Rightarrow> uint64 \<Rightarrow> InMemoryChainPollerPersistence
     \<Rightarrow> (error + BlockRecord option) \<times> InMemoryChainPollerPersistence" where
  "Memory_GetBlock chainId blockNumber s =
     (if mem_closed s then (Inl ErrStoreClosed, s)
      else case mem_blocks s (makeBlockRecordKey chainId blockNumber) of
        None \<Rightarrow> (Inl ErrNotFound, s)
      | Some block \<Rightarrow> (Inr (Some block), s))"

definition Memory_DeleteBlock ::
  "ChainId \<Rightarrow> uint64 \<Rightarrow> InMemoryChainPollerPersistence
     \<Rightarrow> error option \<times> InMemoryChainPollerPersistence" where
  "Memory_DeleteBlock chainId blockNumber s =
     (if mem_closed s then (Some ErrStoreClosed, s)
      else case mem_blocks s (makeBlockRecordKey chainId blockNumber) of
        None \<Rightarrow> (Some ErrNotFound, s)
      | Some _ \<Rightarrow>
          (None, s\<lparr>mem_blocks := (mem_blocks s)
                     (makeBlockRecordKey chainId blockNumber := None)\<rparr>))"

definition Memory_Close ::
  "InMemoryChainPollerPersistence \<Rightarrow> error option \<times> InMemoryChainPollerPersistence" where
  "Memory_Close s =
     (if mem_closed s then (Some ErrStoreClosed, s)
      else (None, s\<lparr>mem_closed := True, mem_lastProcessedBlocks := Map.empty,
                    mem_blocks := Map.empty\<rparr>))"

text \<open>The store as a value of the interface.\<close>

definition memory_persistence ::
  "InMemoryChainPollerPersistence IChainPollerPersistence" where
  "memory_persistence =
     \<lparr>GetLastProcessedBlock = Memory_GetLastProcessedBlock,
      SaveBlock = Memory_SaveBlock,
      GetBlock = Memory_GetBlock,
      DeleteBlock = Memory_DeleteBlock,
      Close = Memory_Close\<rparr>"

section \<open>The composite keys are injective\<close>

lemma makeBlockKey_inject [simp]: "makeBlockKey c = makeBlockKey c' \<longleftrightarrow> c = c'"
  by (simp add: makeBlockKey_def word_unat_eq_iff)

lemma colon_split_inject:
  assumes "CHR '':'' \<notin> set a" "CHR '':'' \<notin> set a'"
  shows "a @ CHR '':'' # b = a' @ CHR '':'' # b' \<longleftrightarrow> a = a' \<and> b = b'"
  using assms
  by (auto simp: append_eq_append_conv2 append_eq_Cons_conv Cons_eq_append_conv)

lemma makeBlockRecordKey_inject [simp]:
  "makeBlockRecordKey c n = makeBlockRecordKey c' n' \<longleftrightarrow> c = c' \<and> n = n'"
  by (simp add: makeBlockRecordKey_def colon_split_inject word_unat_eq_iff)

section \<open>The contract of a store\<close>

text \<open>
  What the poller relies on. \<open>opened\<close> says that the store is usable, \<open>stored s c n\<close> is the
  record kept for block \<open>n\<close> of chain \<open>c\<close>, and \<open>cursor s c\<close> the number of the block saved
  last on chain \<open>c\<close>, whether or not its record is still there.
\<close>

locale persistence =
  fixes P :: "'s IChainPollerPersistence"
    and opened :: "'s \<Rightarrow> bool"
    and stored :: "'s \<Rightarrow> ChainId \<Rightarrow> uint64 \<Rightarrow> BlockRecord option"
    and cursor :: "'s \<Rightarrow> ChainId \<Rightarrow> uint64 option"
  assumes last_law: "opened s \<Longrightarrow> GetLastProcessedBlock P c s =
      (case Option.bind (cursor s c) (stored s c) of
         None \<Rightarrow> Inl ErrNotFound | Some b \<Rightarrow> Inr (Some b), s)"
    and get_law: "opened s \<Longrightarrow> GetBlock P c n s =
      (case stored s c n of None \<Rightarrow> Inl ErrNotFound | Some b \<Rightarrow> Inr (Some b), s)"
    and save_law: "opened s \<Longrightarrow> \<exists>s'. SaveBlock P (Some b) s = (None, s') \<and> opened s' \<and>
      stored s' = (stored s)(br_ChainId b := (stored s (br_ChainId b))(br_Number b \<mapsto> b)) \<and>
      cursor s' = (cursor s)(br_ChainId b \<mapsto> br_Number b)"
    and save_nil_law: "opened s \<Longrightarrow> \<exists>e. SaveBlock P None s = (Some e, s)"
    and delete_law: "opened s \<Longrightarrow> \<exists>s'. DeleteBlock P c n s =
      ((case stored s c n of None \<Rightarrow> Some ErrNotFound | Some _ \<Rightarrow> None), s') \<and> opened s' \<and>
      stored s' = (stored s)(c := (stored s c)(n := None)) \<and> cursor s' = cursor s"
    and close_law: "opened s \<Longrightarrow> \<exists>s'. Close P s = (None, s') \<and> \<not> opened s'"
    and closed_law: "\<not> opened s \<Longrightarrow>
      GetLastProcessedBlock P c s = (Inl ErrStoreClosed, s) \<and>
      GetBlock P c n s = (Inl ErrStoreClosed, s) \<and>
      SaveBlock P ob s = (Some ErrStoreClosed, s) \<and>
      DeleteBlock P c n s = (Some ErrStoreClosed, s) \<and>
      Close P s = (Some ErrStoreClosed, s)"
begin

lemma saveE:
  assumes "opened s"
  obtains s' where "SaveBlock P (Some b) s = (None, s')" "opened s'"
    "stored s' = (stored s)(br_ChainId b := (stored s (br_ChainId b))(br_Number b \<mapsto> b))"
    "cursor s' = (cursor s)(br_ChainId b \<mapsto> br_Number b)"
  using save_law [OF assms, of b] by blast

lemma saveD:
  assumes "opened s" "SaveBlock P (Some b) s = (e, s')"
  shows "e = None" "opened s'"
    "stored s' = (stored s)(br_ChainId b := (stored s (br_ChainId b))(br_Number b \<mapsto> b))"
    "cursor s' = (cursor s)(br_ChainId b \<mapsto> br_Number b)"
  using saveE [OF assms(1), of b] assms(2) by auto

lemma deleteE:
  assumes "opened s"
  obtains s' where "DeleteBlock P c n s =
      ((case stored s c n of None \<Rightarrow> Some ErrNotFound | Some _ \<Rightarrow> None), s')" "opened s'"
    "stored s' = (stored s)(c := (stored s c)(n := None))" "cursor s' = cursor s"
  using delete_law [OF assms, of c n] by blast

text \<open>What is saved last is what is read back, on its own chain only.\<close>

lemma save_then_last:
  "opened s \<Longrightarrow> fst (GetLastProcessedBlock P (br_ChainId b) (snd (SaveBlock P (Some b) s)))
     = Inr (Some b)"
  by (erule saveE [of s b]) (simp add: last_law)

lemma save_then_last_other:
  "opened s \<Longrightarrow> c \<noteq> br_ChainId b \<Longrightarrow>
     fst (GetLastProcessedBlock P c (snd (SaveBlock P (Some b) s)))
       = fst (GetLastProcessedBlock P c s)"
  by (rule saveE [of s b]) (simp_all add: last_law)

end

section \<open>The in-memory store keeps the contract\<close>

definition mem_stored ::
  "InMemoryChainPollerPersistence \<Rightarrow> ChainId \<Rightarrow> uint64 \<Rightarrow> BlockRecord option" where
  "mem_stored s c n = mem_blocks s (makeBlockRecordKey c n)"

definition mem_cursor :: "InMemoryChainPollerPersistence \<Rightarrow> ChainId \<Rightarrow> uint64 option" where
  "mem_cursor s c = mem_lastProcessedBlocks s (makeBlockKey c)"

definition mem_opened :: "InMemoryChainPollerPersistence \<Rightarrow> bool" where
  "mem_opened s \<longleftrightarrow> \<not> mem_closed s"

lemmas memory_defs = memory_persistence_def Memory_GetLastProcessedBlock_def
  Memory_SaveBlock_def Memory_GetBlock_def Memory_DeleteBlock_def Memory_Close_def
  mem_stored_def mem_cursor_def mem_opened_def

interpretation mem: persistence memory_persistence mem_opened mem_stored mem_cursor
  by unfold_locales
    (auto simp: memory_defs fun_eq_iff split: option.splits)

end
