(* ===== verification/Ethereum_Types.thy ===== *)
theory Ethereum_Types
  imports Prelude
begin

text \<open>
  The wire types of \<^verbatim>\<open>pkg/clients/ethereum/types.go\<close>: hex strings, quantities, blocks,
  transactions, receipts and event logs, with their JSON methods. JSON is modelled by its
  value tree; \<^verbatim>\<open>json.Unmarshal\<close> into a Go type is a decoder on trees. The go-ethereum
  package \<^verbatim>\<open>hexutil\<close> is a parameter, the record \<open>hexutil\<close>.
\<close>

section \<open>JSON values and decoding into basic types\<close>

datatype json =
    JNull
  | JBool bool
  | JNum string
  | JStr string
  | JArr "json list"
  | JObj "(string \<times> json) list"

definition unmarshal_type_error :: error where
  "unmarshal_type_error = Errorf ''json: cannot unmarshal value into Go value of type'' None"

text \<open>\<^verbatim>\<open>json.Unmarshal\<close> into a fresh \<^verbatim>\<open>string\<close>: null leaves it empty.\<close>

definition unmarshal_string :: "json \<Rightarrow> error + string" where
  "unmarshal_string j =
     (case j of JNull \<Rightarrow> Inr [] | JStr s \<Rightarrow> Inr s | _ \<Rightarrow> Inl unmarshal_type_error)"

definition is_digit :: "char \<Rightarrow> bool" where
  "is_digit c \<longleftrightarrow> (let n = (of_char c :: nat) in 48 \<le> n \<and> n \<le> 57)"

text \<open>
  \<^verbatim>\<open>json.Unmarshal\<close> into a fresh \<^verbatim>\<open>uint64\<close>: null leaves it 0; a number literal must be a
  plain decimal within range (\<^verbatim>\<open>strconv.ParseUint\<close>), so a sign, a fraction or an exponent
  is an error.
\<close>

definition unmarshal_uint64 :: "json \<Rightarrow> error + uint64" where
  "unmarshal_uint64 j =
     (case j of
        JNull \<Rightarrow> Inr 0
      | JNum t \<Rightarrow>
          (if t \<noteq> [] \<and> (\<forall>c \<in> set t. is_digit c) \<and> read_digits t < 2 ^ 64
           then Inr (word_of_nat (read_digits t)) else Inl unmarshal_type_error)
      | _ \<Rightarrow> Inl unmarshal_type_error)"

section \<open>Hex strings and quantities\<close>

type_synonym EthereumHexString = string
type_synonym EthereumQuantity = uint64
type_synonym EthereumBigQuantity = int

text \<open>The functions of go-ethereum's \<^verbatim>\<open>common/hexutil\<close> that the sources call.\<close>

record hexutil =
  EncodeUint64 :: "uint64 \<Rightarrow> string"
  DecodeUint64 :: "string \<Rightarrow> error + uint64"
  EncodeBig :: "int \<Rightarrow> string"
  DecodeBig :: "string \<Rightarrow> error + int"

text \<open>The bytes the \<^verbatim>\<open>MarshalJSON\<close> methods emit: the value between two quotes.\<close>

definition quoted :: "string \<Rightarrow> string" where
  "quoted s = CHR 0x22 # s @ [CHR 0x22]"

definition HexString_MarshalJSON :: "EthereumHexString \<Rightarrow> string" where
  "HexString_MarshalJSON v = quoted v"

definition HexString_UnmarshalJSON :: "json \<Rightarrow> error + EthereumHexString" where
  "HexString_UnmarshalJSON input =
     (case unmarshal_string input of
        Inl e \<Rightarrow> Inl (Errorf ''failed to unmarshal EthereumHexString: %w'' (Some e))
      | Inr s \<Rightarrow> Inr (ToLower s))"

definition HexString_Value :: "EthereumHexString \<Rightarrow> string" where
  "HexString_Value v = v"

definition Quantity_MarshalJSON :: "hexutil \<Rightarrow> EthereumQuantity \<Rightarrow> string" where
  "Quantity_MarshalJSON hx v = quoted (EncodeUint64 hx v)"

text \<open>
  The test on the first input byte separates string literals from every other JSON value.
\<close>

definition Quantity_UnmarshalJSON :: "hexutil \<Rightarrow> json \<Rightarrow> error + EthereumQuantity" where
  "Quantity_UnmarshalJSON hx input =
     (case input of
        JStr s \<Rightarrow>
          (if s = [] then Inr 0
           else case DecodeUint64 hx s of
             Inl e \<Rightarrow> Inl (Errorf ''failed to decode EthereumQuantity %v: %w'' (Some e))
           | Inr i \<Rightarrow> Inr i)
      | _ \<Rightarrow>
          (case unmarshal_uint64 input of
             Inl e \<Rightarrow> Inl (Errorf ''failed to unmarshal EthereumQuantity into uint64: %w'' (Some e))
           | Inr i \<Rightarrow> Inr i))"

definition Quantity_Value :: "EthereumQuantity \<Rightarrow> uint64" where
  "Quantity_Value v = v"

text \<open>\<^verbatim>\<open>big.NewInt(int64(v))\<close>: the conversion reinterprets the 64 bits as signed.\<close>

definition Quantity_BigInt :: "EthereumQuantity \<Rightarrow> int" where
  "Quantity_BigInt v = sint v"

definition BigQuantity_MarshalJSON :: "hexutil \<Rightarrow> EthereumBigQuantity \<Rightarrow> string" where
  "BigQuantity_MarshalJSON hx v = quoted (EncodeBig hx v)"

definition BigQuantity_UnmarshalJSON :: "hexutil \<Rightarrow> json \<Rightarrow> error + EthereumBigQuantity" where
  "BigQuantity_UnmarshalJSON hx input =
     (case unmarshal_string input of
        Inl e \<Rightarrow> Inl (Errorf ''failed to unmarshal EthereumBigQuantity: %w'' (Some e))
      | Inr s \<Rightarrow>
          (if s = [] then Inr 0
           else case DecodeBig hx s of
             Inl e \<Rightarrow> Inl (Errorf ''failed to decode EthereumBigQuantity %v: %w'' (Some e))
           | Inr i \<Rightarrow> Inr i))"

text \<open>\<^verbatim>\<open>big.Int.String\<close>\<close>

definition BigQuantity_Value :: "EthereumBigQuantity \<Rightarrow> string" where
  "BigQuantity_Value v = (if v < 0 then CHR ''-'' # show_nat (nat (- v)) else show_nat (nat v))"

definition BigQuantity_Uint64 :: "EthereumBigQuantity \<Rightarrow> error + uint64" where
  "BigQuantity_Uint64 v =
     (if \<not> (0 \<le> v \<and> v < 2 ^ 64)
      then Inl (Errorf ''failed to parse EthereumBigQuantity to uint64 %v'' None)
      else Inr (word_of_int v))"

section \<open>Blocks, transactions, receipts, logs\<close>

record EthereumTransactionAccess =
  ea_Address :: EthereumHexString
  ea_StorageKeys :: "EthereumHexString list"

record EthereumTransaction =
  et_BlockHash :: EthereumHexString
  et_BlockNumber :: EthereumQuantity
  et_From :: EthereumHexString
  et_Gas :: EthereumQuantity
  et_GasPrice :: EthereumBigQuantity
  et_Hash :: EthereumHexString
  et_Input :: EthereumHexString
  et_To :: EthereumHexString
  et_Index :: EthereumQuantity
  et_Value :: EthereumBigQuantity
  et_Nonce :: EthereumQuantity
  et_V :: EthereumHexString
  et_R :: EthereumHexString
  et_S :: EthereumHexString
  et_ChainId :: "EthereumQuantity option"
  et_Type :: EthereumQuantity

record EthereumBlock =
  eb_Hash :: EthereumHexString
  eb_ParentHash :: EthereumHexString
  eb_Number :: EthereumQuantity
  eb_Timestamp :: EthereumQuantity
  eb_Transactions :: "EthereumTransaction option list"
  eb_Nonce :: EthereumHexString
  eb_ChainId :: ChainId

record EthereumEventLog =
  el_Removed :: bool
  el_LogIndex :: EthereumQuantity
  el_TransactionHash :: EthereumHexString
  el_TransactionIndex :: EthereumQuantity
  el_BlockHash :: EthereumHexString
  el_BlockNumber :: EthereumQuantity
  el_Address :: EthereumHexString
  el_Data :: EthereumHexString
  el_Topics :: "EthereumHexString list"

record EthereumTransactionReceipt =
  er_TransactionHash :: EthereumHexString
  er_TransactionIndex :: EthereumQuantity
  er_BlockHash :: EthereumHexString
  er_BlockNumber :: EthereumQuantity
  er_From :: EthereumHexString
  er_To :: EthereumHexString
  er_CumulativeGasUsed :: EthereumQuantity
  er_GasUsed :: EthereumQuantity
  er_ContractAddress :: EthereumHexString
  er_Logs :: "EthereumEventLog option list"
  er_LogsBloom :: EthereumHexString
  er_Root :: EthereumHexString
  er_Status :: "EthereumQuantity option"
  er_Type :: EthereumQuantity
  er_EffectiveGasPrice :: "EthereumQuantity option"
  er_ContractBytecode :: EthereumHexString

text \<open>The zero values \<^verbatim>\<open>&T{}\<close> the decoders start from.\<close>

definition zero_block :: EthereumBlock where
  "zero_block = \<lparr>eb_Hash = [], eb_ParentHash = [], eb_Number = 0, eb_Timestamp = 0,
     eb_Transactions = [], eb_Nonce = [], eb_ChainId = 0\<rparr>"

definition zero_transaction :: EthereumTransaction where
  "zero_transaction = \<lparr>et_BlockHash = [], et_BlockNumber = 0, et_From = [], et_Gas = 0,
     et_GasPrice = 0, et_Hash = [], et_Input = [], et_To = [], et_Index = 0, et_Value = 0,
     et_Nonce = 0, et_V = [], et_R = [], et_S = [], et_ChainId = None, et_Type = 0\<rparr>"

definition zero_log :: EthereumEventLog where
  "zero_log = \<lparr>el_Removed = False, el_LogIndex = 0, el_TransactionHash = [],
     el_TransactionIndex = 0, el_BlockHash = [], el_BlockNumber = 0, el_Address = [],
     el_Data = [], el_Topics = []\<rparr>"

definition zero_receipt :: EthereumTransactionReceipt where
  "zero_receipt = \<lparr>er_TransactionHash = [], er_TransactionIndex = 0, er_BlockHash = [],
     er_BlockNumber = 0, er_From = [], er_To = [], er_CumulativeGasUsed = 0, er_GasUsed = 0,
     er_ContractAddress = [], er_Logs = [], er_LogsBloom = [], er_Root = [],
     er_Status = None, er_Type = 0, er_EffectiveGasPrice = None, er_ContractBytecode = []\<rparr>"

definition GetTargetAddress :: "EthereumTransactionReceipt \<Rightarrow> EthereumHexString" where
  "GetTargetAddress r =
     (if HexString_Value (er_To r) \<noteq> [] then er_To r
      else if HexString_Value (er_ContractAddress r) \<noteq> [] then er_ContractAddress r
      else [])"

section \<open>Decoding structs\<close>

text \<open>
  \<^verbatim>\<open>json.Unmarshal\<close> into a struct visits the object's members in order and decodes each into
  the field whose JSON name it matches, without regard to case; members without a field are
  skipped and null leaves the struct as it is. A field decoder updates the struct. Go goes on
  after a type mismatch and reports the first one at the end; the callers drop the struct in
  that case, so the model stops at the first error.
\<close>

type_synonym 'r field_decoder = "json \<Rightarrow> 'r \<Rightarrow> error + 'r"

fun decode_fields :: "(string \<times> 'r field_decoder) list \<Rightarrow> (string \<times> json) list \<Rightarrow> 'r \<Rightarrow> error + 'r" where
  "decode_fields flds [] r = Inr r"
| "decode_fields flds ((k, v) # members) r =
     (case List.find (\<lambda>(name, _). EqualFold name k) flds of
        None \<Rightarrow> decode_fields flds members r
      | Some (_, dec) \<Rightarrow>
          (case dec v r of
             Inl e \<Rightarrow> Inl e
           | Inr r' \<Rightarrow> decode_fields flds members r'))"

definition decode_struct :: "(string \<times> 'r field_decoder) list \<Rightarrow> 'r \<Rightarrow> json \<Rightarrow> error + 'r" where
  "decode_struct flds zero j =
     (case j of
        JNull \<Rightarrow> Inr zero
      | JObj members \<Rightarrow> decode_fields flds members zero
      | _ \<Rightarrow> Inl unmarshal_type_error)"

text \<open>A pointer to a decoded value: null gives nil.\<close>

definition decode_ptr :: "(json \<Rightarrow> error + 'a) \<Rightarrow> json \<Rightarrow> error + 'a option" where
  "decode_ptr dec j =
     (case j of
        JNull \<Rightarrow> Inr None
      | _ \<Rightarrow> (case dec j of Inl e \<Rightarrow> Inl e | Inr x \<Rightarrow> Inr (Some x)))"

fun decode_elems :: "(json \<Rightarrow> error + 'a) \<Rightarrow> json list \<Rightarrow> error + 'a list" where
  "decode_elems dec [] = Inr []"
| "decode_elems dec (j # js) =
     (case dec j of
        Inl e \<Rightarrow> Inl e
      | Inr x \<Rightarrow> (case decode_elems dec js of Inl e \<Rightarrow> Inl e | Inr xs \<Rightarrow> Inr (x # xs)))"

text \<open>A slice of decoded values: null gives the nil slice.\<close>

definition decode_slice :: "(json \<Rightarrow> error + 'a) \<Rightarrow> json \<Rightarrow> error + 'a list" where
  "decode_slice dec j =
     (case j of
        JNull \<Rightarrow> Inr []
      | JArr js \<Rightarrow> decode_elems dec js
      | _ \<Rightarrow> Inl unmarshal_type_error)"

text \<open>A field decoder from a value decoder and the field's update function.\<close>

definition field :: "(json \<Rightarrow> error + 'a) \<Rightarrow> (('a \<Rightarrow> 'a) \<Rightarrow> 'r \<Rightarrow> 'r) \<Rightarrow> 'r field_decoder" where
  "field dec upd j r = (case dec j of Inl e \<Rightarrow> Inl e | Inr v \<Rightarrow> Inr (upd (\<lambda>_. v) r))"

text \<open>A \<^verbatim>\<open>bool\<close> field or a plain \<^verbatim>\<open>uint\<close> field has no method of its own: null keeps its value.\<close>

definition bool_field :: "((bool \<Rightarrow> bool) \<Rightarrow> 'r \<Rightarrow> 'r) \<Rightarrow> 'r field_decoder" where
  "bool_field upd j r =
     (case j of
        JNull \<Rightarrow> Inr r | JBool b \<Rightarrow> Inr (upd (\<lambda>_. b) r) | _ \<Rightarrow> Inl unmarshal_type_error)"

definition uint_field :: "((go_uint \<Rightarrow> go_uint) \<Rightarrow> 'r \<Rightarrow> 'r) \<Rightarrow> 'r field_decoder" where
  "uint_field upd j r =
     (case j of
        JNull \<Rightarrow> Inr r
      | _ \<Rightarrow> (case unmarshal_uint64 j of Inl e \<Rightarrow> Inl e | Inr v \<Rightarrow> Inr (upd (\<lambda>_. v) r)))"

abbreviation hex_field :: "((string \<Rightarrow> string) \<Rightarrow> 'r \<Rightarrow> 'r) \<Rightarrow> 'r field_decoder" where
  "hex_field \<equiv> field HexString_UnmarshalJSON"

abbreviation qty_field :: "hexutil \<Rightarrow> ((uint64 \<Rightarrow> uint64) \<Rightarrow> 'r \<Rightarrow> 'r) \<Rightarrow> 'r field_decoder" where
  "qty_field hx \<equiv> field (Quantity_UnmarshalJSON hx)"

abbreviation big_field :: "hexutil \<Rightarrow> ((int \<Rightarrow> int) \<Rightarrow> 'r \<Rightarrow> 'r) \<Rightarrow> 'r field_decoder" where
  "big_field hx \<equiv> field (BigQuantity_UnmarshalJSON hx)"

abbreviation qty_ptr_field ::
  "hexutil \<Rightarrow> ((uint64 option \<Rightarrow> uint64 option) \<Rightarrow> 'r \<Rightarrow> 'r) \<Rightarrow> 'r field_decoder" where
  "qty_ptr_field hx \<equiv> field (decode_ptr (Quantity_UnmarshalJSON hx))"

definition transaction_fields :: "hexutil \<Rightarrow> (string \<times> EthereumTransaction field_decoder) list" where
  "transaction_fields hx =
     [(''blockHash'', hex_field et_BlockHash_update),
      (''blockNumber'', qty_field hx et_BlockNumber_update),
      (''from'', hex_field et_From_update),
      (''gas'', qty_field hx et_Gas_update),
      (''gasPrice'', big_field hx et_GasPrice_update),
      (''hash'', hex_field et_Hash_update),
      (''input'', hex_field et_Input_update),
      (''to'', hex_field et_To_update),
      (''transactionIndex'', qty_field hx et_Index_update),
      (''value'', big_field hx et_Value_update),
      (''nonce'', qty_field hx et_Nonce_update),
      (''v'', hex_field et_V_update),
      (''r'', hex_field et_R_update),
      (''s'', hex_field et_S_update),
      (''chainId'', qty_ptr_field hx et_ChainId_update),
      (''type'', qty_field hx et_Type_update)]"

definition decode_transaction :: "hexutil \<Rightarrow> json \<Rightarrow> error + EthereumTransaction" where
  "decode_transaction hx = decode_struct (transaction_fields hx) zero_transaction"

text \<open>
  The block's \<^verbatim>\<open>ChainId\<close> carries no JSON tag: its name is the field's own, matched without
  regard to case.
\<close>

definition block_fields :: "hexutil \<Rightarrow> (string \<times> EthereumBlock field_decoder) list" where
  "block_fields hx =
     [(''hash'', hex_field eb_Hash_update),
      (''parentHash'', hex_field eb_ParentHash_update),
      (''number'', qty_field hx eb_Number_update),
      (''timestamp'', qty_field hx eb_Timestamp_update),
      (''transactions'', field (decode_slice (decode_ptr (decode_transaction hx)))
         eb_Transactions_update),
      (''nonce'', hex_field eb_Nonce_update),
      (''ChainId'', uint_field eb_ChainId_update)]"

definition decode_block :: "hexutil \<Rightarrow> json \<Rightarrow> error + EthereumBlock" where
  "decode_block hx = decode_struct (block_fields hx) zero_block"

definition log_fields :: "hexutil \<Rightarrow> (string \<times> EthereumEventLog field_decoder) list" where
  "log_fields hx =
     [(''removed'', bool_field el_Removed_update),
      (''logIndex'', qty_field hx el_LogIndex_update),
      (''transactionHash'', hex_field el_TransactionHash_update),
      (''transactionIndex'', qty_field hx el_TransactionIndex_update),
      (''blockHash'', hex_field el_BlockHash_update),
      (''blockNumber'', qty_field hx el_BlockNumber_update),
      (''address'', hex_field el_Address_update),
      (''data'', hex_field el_Data_update),
      (''topics'', field (decode_slice HexString_UnmarshalJSON) el_Topics_update)]"

definition decode_log :: "hexutil \<Rightarrow> json \<Rightarrow> error + EthereumEventLog" where
  "decode_log hx = decode_struct (log_fields hx) zero_log"

definition receipt_fields ::
  "hexutil \<Rightarrow> (string \<times> EthereumTransactionReceipt field_decoder) list" where
  "receipt_fields hx =
     [(''transactionHash'', hex_field er_TransactionHash_update),
      (''transactionIndex'', qty_field hx er_TransactionIndex_update),
      (''blockHash'', hex_field er_BlockHash_update),
      (''blockNumber'', qty_field hx er_BlockNumber_update),
      (''from'', hex_field er_From_update),
      (''to'', hex_field er_To_update),
      (''cumulativeGasUsed'', qty_field hx er_CumulativeGasUsed_update),
      (''gasUsed'', qty_field hx er_GasUsed_update),
      (''contractAddress'', hex_field er_ContractAddress_update),
      (''logs'', field (decode_slice (decode_ptr (decode_log hx))) er_Logs_update),
      (''logsBloom'', hex_field er_LogsBloom_update),
      (''root'', hex_field er_Root_update),
      (''status'', qty_ptr_field hx er_Status_update),
      (''type'', qty_field hx er_Type_update),
      (''effectiveGasPrice'', qty_ptr_field hx er_EffectiveGasPrice_update),
      (''contractBytecode'', hex_field er_ContractBytecode_update)]"

definition decode_receipt :: "hexutil \<Rightarrow> json \<Rightarrow> error + EthereumTransactionReceipt" where
  "decode_receipt hx = decode_struct (receipt_fields hx) zero_receipt"

end
