(* ===== verification/Util.thy ===== *)
theory Util
  imports Prelude
begin

text \<open>
  The slice helpers of \<^verbatim>\<open>pkg/util/util.go\<close>, loop by loop, and their equivalence with the
  list functions of HOL.
\<close>

section \<open>The helpers\<close>

text \<open>\<open>i\<close> is the loop index; the mapper receives it as a \<^verbatim>\<open>uint64\<close>.\<close>

fun Map_loop :: "('a \<Rightarrow> uint64 \<Rightarrow> 'b) \<Rightarrow> nat \<Rightarrow> 'a list \<Rightarrow> 'b list" where
  "Map_loop mapper i [] = []"
| "Map_loop mapper i (item # coll) = mapper item (word_of_nat i) # Map_loop mapper (Suc i) coll"

definition util_Map :: "'a list \<Rightarrow> ('a \<Rightarrow> uint64 \<Rightarrow> 'b) \<Rightarrow> 'b list" where
  "util_Map coll mapper = Map_loop mapper 0 coll"

fun Filter_loop :: "('a \<Rightarrow> bool) \<Rightarrow> 'a list \<Rightarrow> 'a list \<Rightarrow> 'a list" where
  "Filter_loop criteria [] out = out"
| "Filter_loop criteria (item # coll) out =
     Filter_loop criteria coll (if criteria item then out @ [item] else out)"

definition util_Filter :: "'a list \<Rightarrow> ('a \<Rightarrow> bool) \<Rightarrow> 'a list" where
  "util_Filter coll criteria = Filter_loop criteria coll []"

fun util_Find :: "'a list \<Rightarrow> ('a \<Rightarrow> bool) \<Rightarrow> 'a option" where
  "util_Find [] criteria = None"
| "util_Find (item # coll) criteria = (if criteria item then Some item else util_Find coll criteria)"

fun util_Reduce :: "'a list \<Rightarrow> ('b \<Rightarrow> 'a \<Rightarrow> 'b) \<Rightarrow> 'b \<Rightarrow> 'b" where
  "util_Reduce [] processor val = val"
| "util_Reduce (item # coll) processor val = util_Reduce coll processor (processor val item)"

fun Flatten_loop :: "'a list list \<Rightarrow> 'a list \<Rightarrow> 'a list" where
  "Flatten_loop [] out = out"
| "Flatten_loop (arr # coll) out = Flatten_loop coll (out @ arr)"

definition util_Flatten :: "'a list list \<Rightarrow> 'a list" where
  "util_Flatten coll = Flatten_loop coll []"

section \<open>Their meaning\<close>

lemma Map_loop_eq: "Map_loop f i xs = map (\<lambda>(j, x). f x (word_of_nat j)) (enumerate i xs)"
  by (induction xs arbitrary: i) auto

lemma length_util_Map [simp]: "length (util_Map xs f) = length xs"
  by (simp add: util_Map_def Map_loop_eq)

lemma nth_util_Map: "i < length xs \<Longrightarrow> util_Map xs f ! i = f (xs ! i) (word_of_nat i)"
  by (simp add: util_Map_def Map_loop_eq nth_enumerate_eq)

lemma Filter_loop_eq: "Filter_loop p xs out = out @ filter p xs"
  by (induction xs arbitrary: out) auto

lemma util_Filter_eq [simp]: "util_Filter xs p = filter p xs"
  by (simp add: util_Filter_def Filter_loop_eq)

lemma util_Find_eq: "util_Find xs p = List.find p xs"
  by (induction xs) auto

lemma util_Find_None [simp]: "util_Find xs p = None \<longleftrightarrow> (\<forall>x \<in> set xs. \<not> p x)"
  by (induction xs) auto

lemma util_Find_SomeD: "util_Find xs p = Some x \<Longrightarrow> x \<in> set xs \<and> p x"
  by (induction xs) (auto split: if_splits)

lemma util_Find_append:
  "util_Find (xs @ ys) p = (case util_Find xs p of None \<Rightarrow> util_Find ys p | Some x \<Rightarrow> Some x)"
  by (induction xs) auto

lemma util_Reduce_eq: "util_Reduce xs f v = foldl f v xs"
  by (induction xs arbitrary: v) auto

lemma Flatten_loop_eq: "Flatten_loop xss out = out @ concat xss"
  by (induction xss arbitrary: out) auto

lemma util_Flatten_eq [simp]: "util_Flatten xss = concat xss"
  by (simp add: util_Flatten_def Flatten_loop_eq)

section \<open>Properties\<close>

text \<open>
  The slice helpers. The loops of \<^verbatim>\<open>Map\<close>, \<^verbatim>\<open>Filter\<close>, \<^verbatim>\<open>Find\<close>, \<^verbatim>\<open>Reduce\<close> and \<^verbatim>\<open>Flatten\<close>
  compute the list functions of those names; the mapper of \<^verbatim>\<open>Map\<close> is also given the index.
\<close>

lemma util_helpers:
  "util_Map xs f = map (\<lambda>(i, x). f x (word_of_nat i)) (enumerate 0 xs) \<and>
   util_Filter xs p = filter p xs \<and> util_Find xs p = List.find p xs \<and>
   util_Reduce xs g v = foldl g v xs \<and> util_Flatten xss = concat xss"
  by (simp add: util_Map_def Map_loop_eq util_Find_eq util_Reduce_eq)

end
