(* ===== verification/Contracts.thy ===== *)
theory Contracts
  imports Prelude
begin

text \<open>
  Contracts and their ABIs, \<^verbatim>\<open>pkg/contracts/contracts.go\<close>. A contract carries several
  versions of its ABI as JSON texts; \<^verbatim>\<open>combineAbis\<close> splices them into one JSON array, which
  go-ethereum's \<^verbatim>\<open>abi.ABI.UnmarshalJSON\<close> parses. That function is a parameter: it returns
  the (possibly partly filled) ABI and the message of its error, if any.
\<close>

record Contract =
  ct_Name :: string
  ct_Address :: string
  ct_AbiVersions :: "string list"
  ct_ChainId :: ChainId

text \<open>\<^verbatim>\<open>strings.Join\<close>\<close>

fun Join :: "string list \<Rightarrow> string \<Rightarrow> string" where
  "Join [] sep = []"
| "Join [x] sep = x"
| "Join (x # y # xs) sep = x @ sep @ Join (y # xs) sep"

fun combineAbis_loop :: "string list \<Rightarrow> string list \<Rightarrow> error + string list" where
  "combineAbis_loop [] abisToCombine = Inr abisToCombine"
| "combineAbis_loop (contractAbi # abis) abisToCombine =
     (if length contractAbi < 2
      then Inl (Errorf ''invalid ABI string: too short'' None)
      else combineAbis_loop abis
             (abisToCombine @ [take (length contractAbi - 2) (drop 1 contractAbi)]))"

definition combineAbis :: "string list \<Rightarrow> error + string" where
  "combineAbis abis =
     (case combineAbis_loop abis [] of
        Inl e \<Rightarrow> Inl e
      | Inr abisToCombine \<Rightarrow> Inr (''['' @ Join abisToCombine '','' @ '']''))"

text \<open>The two patterns are literal texts, so a match is an occurrence as a substring.\<close>

definition ignorable_abi_error :: "string \<Rightarrow> bool" where
  "ignorable_abi_error msg \<longleftrightarrow>
     sublist ''only single receive is allowed'' msg \<or>
     sublist ''only single fallback is allowed'' msg"

definition unmarshalJsonToAbi ::
  "(string \<Rightarrow> 'abi \<times> string option) \<Rightarrow> string \<Rightarrow> error + 'abi" where
  "unmarshalJsonToAbi abi_UnmarshalJSON json =
     (let (a, err) = abi_UnmarshalJSON json in
      case err of
        None \<Rightarrow> Inr a
      | Some msg \<Rightarrow> if ignorable_abi_error msg then Inr a else Inl (Errorf msg None))"

text \<open>The methods dereference their receiver, which may be nil.\<close>

definition GetCombinedAbis :: "Contract option \<Rightarrow> (error + string) go" where
  "GetCombinedAbis c =
     (case c of
        None \<Rightarrow> Panic nil_dereference
      | Some contract \<Rightarrow> Ret (combineAbis (ct_AbiVersions contract)))"

definition GetAbi ::
  "(string \<Rightarrow> 'abi \<times> string option) \<Rightarrow> Contract option \<Rightarrow> (error + 'abi) go" where
  "GetAbi abi_UnmarshalJSON c =
     (case GetCombinedAbis c of
        Panic p \<Rightarrow> Panic p
      | Ret (Inl e) \<Rightarrow> Ret (Inl (Errorf ''failed to combine ABIs: %w'' (Some e)))
      | Ret (Inr combinedAbi) \<Rightarrow>
          (case unmarshalJsonToAbi abi_UnmarshalJSON combinedAbi of
             Inl e \<Rightarrow> Ret (Inl (Errorf ''failed to parse ABI: %w'' (Some e)))
           | Inr parsedAbi \<Rightarrow> Ret (Inr parsedAbi)))"

section \<open>The combined text\<close>

lemma combineAbis_loop_eq:
  "combineAbis_loop abis acc =
     (if \<exists>a \<in> set abis. length a < 2 then Inl (Errorf ''invalid ABI string: too short'' None)
      else Inr (acc @ map (\<lambda>a. take (length a - 2) (drop 1 a)) abis))"
  by (induction abis arbitrary: acc) auto

lemma strip_brackets [simp]: "take (length b) (drop (Suc 0) (x # b @ [y])) = b"
  by simp

lemma combineAbis_bracketed:
  "combineAbis (map (\<lambda>b. ''['' @ b @ '']'') bodies) = Inr (''['' @ Join bodies '','' @ '']'')"
  by (simp add: combineAbis_def combineAbis_loop_eq comp_def)

lemma combineAbis_error_iff:
  "(\<exists>e. combineAbis abis = Inl e) \<longleftrightarrow> (\<exists>a \<in> set abis. length a < 2)"
  by (simp add: combineAbis_def combineAbis_loop_eq)

lemma GetAbi_nil [simp]: "GetAbi u None = Panic nil_dereference"
  by (simp add: GetAbi_def GetCombinedAbis_def)

section \<open>Properties\<close>

text \<open>
  C40. Combining ABIs. The combination fails exactly when one of the texts has fewer than two
  characters, without a panic; JSON arrays \<open>[b]\<close> are spliced into the array of their bodies in
  order. An array that is empty contributes an empty body all the same, so that two or more
  versions of which one is empty combine to a text with a comma too many.
\<close>

theorem combineAbis_spec:
  "((\<exists>e. combineAbis abis = Inl e) \<longleftrightarrow> (\<exists>a \<in> set abis. length a < 2)) \<and>
   combineAbis (map (\<lambda>b. ''['' @ b @ '']'') bodies) = Inr (''['' @ Join bodies '','' @ '']'') \<and>
   combineAbis [''[]'', ''['' @ b @ '']''] = Inr (''[,'' @ b @ '']'')"
  using combineAbis_error_iff [of abis] combineAbis_bracketed [of bodies] combineAbis_bracketed [of "[[], b]"]
  by simp

end
