(* ===== verification/Contract_Store.thy ===== *)
theory Contract_Store
  imports Util Contracts "HOL-Library.AList"
begin

text \<open>
  The contract store interface of \<^verbatim>\<open>pkg/contractStore/contractStore.go\<close> and its in-memory
  implementation \<^verbatim>\<open>inMemoryContractStore.go\<close>. The read-write mutex makes each method atomic;
  the slice holds non-nil contracts.
\<close>

section \<open>The interface\<close>

text \<open>
  Methods over a store state \<open>'k\<close>: the readers return their result, the writers their error
  and the new state. \<^verbatim>\<open>ListContractAddressesForChain\<close> ranges over a Go map; its first
  argument is the choice of the order.
\<close>

record 'k IContractStore =
  GetContractByAddress :: "string \<Rightarrow> 'k \<Rightarrow> error + Contract option"
  GetContractByNameForChainId :: "string \<Rightarrow> ChainId \<Rightarrow> 'k \<Rightarrow> error + Contract option"
  ListContractAddressesForChain :: "nat list \<Rightarrow> ChainId \<Rightarrow> 'k \<Rightarrow> string list"
  ListContracts :: "'k \<Rightarrow> Contract list"
  OverrideContract :: "string \<Rightarrow> ChainId list \<Rightarrow> Contract \<Rightarrow> 'k \<Rightarrow> error option \<times> 'k"
  AddContract :: "Contract \<Rightarrow> 'k \<Rightarrow> error option \<times> 'k"

section \<open>The in-memory store\<close>

record InMemoryContractStore =
  ics_contracts :: "Contract list"

definition NewInMemoryContractStore :: "Contract list \<Rightarrow> InMemoryContractStore" where
  "NewInMemoryContractStore contracts = \<lparr>ics_contracts = contracts\<rparr>"

definition InMemory_GetContractByNameForChainId ::
  "string \<Rightarrow> ChainId \<Rightarrow> InMemoryContractStore \<Rightarrow> error + Contract option" where
  "InMemory_GetContractByNameForChainId name chainId ics =
     (case util_Find (ics_contracts ics)
             (\<lambda>c. EqualFold (ct_Name c) name \<and> ct_ChainId c = chainId) of
        None \<Rightarrow> Inl (Errorf ''contract not found: name=%s, chainId=%d'' None)
      | Some foundContract \<Rightarrow> Inr (Some foundContract))"

text \<open>A missing contract is a nil contract next to a nil error.\<close>

definition InMemory_GetContractByAddress ::
  "string \<Rightarrow> InMemoryContractStore \<Rightarrow> error + Contract option" where
  "InMemory_GetContractByAddress address ics =
     (let address' = ToLower address in
      case util_Find (ics_contracts ics) (\<lambda>c. EqualFold (ct_Address c) address') of
        None \<Rightarrow> Inr None
      | Some contract \<Rightarrow> Inr (Some contract))"

definition InMemory_ListContractAddressesForChain ::
  "nat list \<Rightarrow> ChainId \<Rightarrow> InMemoryContractStore \<Rightarrow> string list" where
  "InMemory_ListContractAddressesForChain ord chainId ics =
     (let chainContracts = util_Reduce (ics_contracts ics)
            (\<lambda>acc c. if ct_ChainId c = chainId
                     then AList.update (ToLower (ct_Address c)) c acc else acc) []
      in range_order ord (map fst chainContracts))"

text \<open>The override loop: each matching entry is replaced; the flag tells whether one was.\<close>

fun override_loop ::
  "string \<Rightarrow> ChainId list \<Rightarrow> Contract \<Rightarrow> Contract list \<Rightarrow> bool \<times> Contract list" where
  "override_loop contractName chainIds contract [] = (False, [])"
| "override_loop contractName chainIds contract (origContract # rest) =
     (let (found, rest') = override_loop contractName chainIds contract rest in
      if ct_Name origContract = contractName \<and>
           (chainIds = [] \<or> ct_ChainId origContract \<in> set chainIds)
      then (True, \<lparr>ct_Name = ct_Name origContract,
                   ct_Address = ct_Address contract,
                   ct_AbiVersions = ct_AbiVersions contract,
                   ct_ChainId = ct_ChainId origContract\<rparr> # rest')
      else (found, origContract # rest'))"

definition InMemory_OverrideContract ::
  "string \<Rightarrow> ChainId list \<Rightarrow> Contract \<Rightarrow> InMemoryContractStore
     \<Rightarrow> error option \<times> InMemoryContractStore" where
  "InMemory_OverrideContract contractName chainIds contract ics =
     (let (found, contracts') = override_loop contractName chainIds contract (ics_contracts ics) in
      if found then (None, ics\<lparr>ics_contracts := contracts'\<rparr>)
      else (None, ics\<lparr>ics_contracts := contracts' @
              map (\<lambda>chainId. \<lparr>ct_Name = ct_Name contract,
                               ct_Address = ct_Address contract,
                               ct_AbiVersions = ct_AbiVersions contract,
                               ct_ChainId = chainId\<rparr>) chainIds\<rparr>))"

definition InMemory_AddContract ::
  "Contract \<Rightarrow> InMemoryContractStore \<Rightarrow> error option \<times> InMemoryContractStore" where
  "InMemory_AddContract contract ics =
     (let addr = ToLower (ct_Address contract) in
      if \<exists>c \<in> set (ics_contracts ics).
           EqualFold (ct_Address c) addr \<and> ct_ChainId c = ct_ChainId contract
      then (Some (Errorf ''contract already exists: address=%s, chainId=%d'' None), ics)
      else (None, ics\<lparr>ics_contracts := ics_contracts ics @ [contract]\<rparr>))"

definition InMemory_ListContracts :: "InMemoryContractStore \<Rightarrow> Contract list" where
  "InMemory_ListContracts ics = ics_contracts ics"

definition in_memory_contract_store :: "InMemoryContractStore IContractStore" where
  "in_memory_contract_store =
     \<lparr>GetContractByAddress = InMemory_GetContractByAddress,
      GetContractByNameForChainId = InMemory_GetContractByNameForChainId,
      ListContractAddressesForChain = InMemory_ListContractAddressesForChain,
      ListContracts = InMemory_ListContracts,
      OverrideContract = InMemory_OverrideContract,
      AddContract = InMemory_AddContract\<rparr>"

section \<open>The contract of a contract store\<close>

text \<open>
  Over the sequence of contracts a store holds: a lookup returns the first match, adding
  appends a contract whose address (without regard to case) is new on its chain and refuses
  any other, and the address listing of a chain has each address once, in lower case.
\<close>

definition same_slot :: "Contract \<Rightarrow> Contract \<Rightarrow> bool" where
  "same_slot c d \<longleftrightarrow> EqualFold (ct_Address c) (ct_Address d) \<and> ct_ChainId c = ct_ChainId d"

text \<open>No two contracts of a store share an address on one chain.\<close>

definition unique_slots :: "Contract list \<Rightarrow> bool" where
  "unique_slots cs \<longleftrightarrow> sorted_wrt (\<lambda>c d. \<not> same_slot c d) cs"

locale contract_store =
  fixes K :: "'k IContractStore"
    and contents :: "'k \<Rightarrow> Contract list"
  assumes list_law: "ListContracts K s = contents s"
    and address_law: "GetContractByAddress K a s =
      Inr (List.find (\<lambda>c. EqualFold (ct_Address c) a) (contents s))"
    and name_law: "GetContractByNameForChainId K nm ch s =
      (case List.find (\<lambda>c. EqualFold (ct_Name c) nm \<and> ct_ChainId c = ch) (contents s) of
         None \<Rightarrow> Inl (Errorf ''contract not found: name=%s, chainId=%d'' None)
       | Some c \<Rightarrow> Inr (Some c))"
    and add_dup_law: "\<exists>d \<in> set (contents s). same_slot d c \<Longrightarrow>
      \<exists>e. AddContract K c s = (Some e, s)"
    and add_new_law: "\<forall>d \<in> set (contents s). \<not> same_slot d c \<Longrightarrow>
      \<exists>s'. AddContract K c s = (None, s') \<and> contents s' = contents s @ [c]"
    and addresses_law: "distinct (ListContractAddressesForChain K ord ch s) \<and>
      set (ListContractAddressesForChain K ord ch s) =
        ToLower ` ct_Address ` {c \<in> set (contents s). ct_ChainId c = ch}"
begin

lemma add_preserves_unique:
  "unique_slots (contents s) \<Longrightarrow> unique_slots (contents (snd (AddContract K c s)))"
proof (cases "\<exists>d \<in> set (contents s). same_slot d c")
  case True
  then show "unique_slots (contents s) \<Longrightarrow> ?thesis" using add_dup_law [of s c] by auto
next
  case False
  then show "unique_slots (contents s) \<Longrightarrow> ?thesis"
    using add_new_law [of s c] by (auto simp: unique_slots_def sorted_wrt_append)
qed

lemma add_then_address:
  assumes "fst (AddContract K c s) = None"
  shows "\<exists>d. GetContractByAddress K (ct_Address c) (snd (AddContract K c s)) = Inr (Some d) \<and>
    EqualFold (ct_Address d) (ct_Address c)"
proof -
  from assms have new: "\<forall>d \<in> set (contents s). \<not> same_slot d c"
    using add_dup_law [of s c] by fastforce
  then obtain s' where s': "AddContract K c s = (None, s')" "contents s' = contents s @ [c]"
    using add_new_law by blast
  have "List.find (\<lambda>d. EqualFold (ct_Address d) (ct_Address c)) (contents s @ [c]) \<noteq> None"
    by (auto simp: find_None_iff)
  then show ?thesis using s' by (auto simp: address_law find_Some_iff)
qed

end

section \<open>The in-memory store keeps the contract\<close>

lemma fst_update_reduce:
  "set (map fst (util_Reduce cs (\<lambda>acc c. if ct_ChainId c = ch
       then AList.update (ToLower (ct_Address c)) c acc else acc) acc0)) =
     set (map fst acc0) \<union> ToLower ` ct_Address ` {c \<in> set cs. ct_ChainId c = ch}"
  by (induction cs arbitrary: acc0) (auto simp: dom_update)

lemma distinct_update_reduce:
  "distinct (map fst acc0) \<Longrightarrow>
     distinct (map fst (util_Reduce cs (\<lambda>acc c. if ct_ChainId c = ch
       then AList.update (ToLower (ct_Address c)) c acc else acc) acc0))"
  by (induction cs arbitrary: acc0) (auto simp: distinct_update)

lemmas in_memory_contract_store_defs = in_memory_contract_store_def
  InMemory_GetContractByAddress_def InMemory_GetContractByNameForChainId_def
  InMemory_ListContracts_def InMemory_AddContract_def
  InMemory_ListContractAddressesForChain_def

interpretation ics: contract_store in_memory_contract_store ics_contracts
proof unfold_locales
  show "GetContractByAddress in_memory_contract_store a s =
      Inr (List.find (\<lambda>c. EqualFold (ct_Address c) a) (ics_contracts s))" for a s
    by (simp add: in_memory_contract_store_defs util_Find_eq Let_def split: option.split)
  show "distinct (ListContractAddressesForChain in_memory_contract_store ord ch s) \<and>
      set (ListContractAddressesForChain in_memory_contract_store ord ch s) =
        ToLower ` ct_Address ` {c \<in> set (ics_contracts s). ct_ChainId c = ch}" for ord ch s
    using fst_update_reduce [of "ics_contracts s" ch "[]"]
      distinct_update_reduce [of "[]" "ics_contracts s" ch]
    by (simp add: in_memory_contract_store_defs Let_def)
qed (auto simp: in_memory_contract_store_defs util_Find_eq same_slot_def Let_def)

section \<open>Overriding\<close>

definition overridden :: "string \<Rightarrow> ChainId list \<Rightarrow> Contract \<Rightarrow> bool" where
  "overridden nm chs c \<longleftrightarrow> ct_Name c = nm \<and> (chs = [] \<or> ct_ChainId c \<in> set chs)"

lemma override_loop_eq:
  "override_loop nm chs d cs =
     (\<exists>c \<in> set cs. overridden nm chs c,
      map (\<lambda>c. if overridden nm chs c
               then c\<lparr>ct_Address := ct_Address d, ct_AbiVersions := ct_AbiVersions d\<rparr>
               else c) cs)"
  by (induction cs) (auto simp: overridden_def Let_def)

section \<open>Properties\<close>

text \<open>
  C29. Adding contracts. Adding to the in-memory store fails exactly when the store has a contract
  with that address, in any spelling, on the same chain, and then changes nothing; otherwise the contract is
  appended, and a lookup of its address in any spelling finds a contract. A store without two
  contracts in one slot stays so.
\<close>

theorem add_contract:
  "let (err, s') = InMemory_AddContract c s in
   (err \<noteq> None \<longleftrightarrow> (\<exists>d \<in> set (ics_contracts s). same_slot d c)) \<and>
   (err \<noteq> None \<longrightarrow> s' = s) \<and>
   (err = None \<longrightarrow> InMemory_ListContracts s' = InMemory_ListContracts s @ [c] \<and>
      (\<forall>a. EqualFold a (ct_Address c) \<longrightarrow>
         (\<exists>d. InMemory_GetContractByAddress a s' = Inr (Some d) \<and> EqualFold (ct_Address d) a))) \<and>
   (unique_slots (ics_contracts s) \<longrightarrow> unique_slots (ics_contracts s'))"
proof -
  obtain err s' where run: "InMemory_AddContract c s = (err, s')" by fastforce
  have add: "AddContract in_memory_contract_store c s = (err, s')"
    using run by (simp add: in_memory_contract_store_def)
  have dup: "err \<noteq> None \<longleftrightarrow> (\<exists>d \<in> set (ics_contracts s). same_slot d c)" "err \<noteq> None \<longrightarrow> s' = s"
    and new: "err = None \<longrightarrow> ics_contracts s' = ics_contracts s @ [c]"
    using ics.add_dup_law [of s c] ics.add_new_law [of s c] add by (auto simp: Ball_def Bex_def)
  have look: "\<exists>d. InMemory_GetContractByAddress a s' = Inr (Some d) \<and> EqualFold (ct_Address d) a"
    if "err = None" "EqualFold a (ct_Address c)" for a
  proof -
    have "c \<in> set (ics_contracts s')" "EqualFold (ct_Address c) a"
      using new that by (auto simp: EqualFold_def)
    then have "List.find (\<lambda>d. EqualFold (ct_Address d) a) (ics_contracts s') \<noteq> None"
      by (auto simp: find_None_iff)
    then show ?thesis
      using ics.address_law [of a s'] by (auto simp: in_memory_contract_store_def find_Some_iff)
  qed
  have "unique_slots (ics_contracts s) \<longrightarrow> unique_slots (ics_contracts s')"
    using ics.add_preserves_unique [of s c] add by simp
  with run dup new look show ?thesis by (auto simp: InMemory_ListContracts_def)
qed

theorem add_contract_witness:
  "InMemory_ListContracts (snd (InMemory_AddContract
     \<lparr>ct_Name = ''A'', ct_Address = ''0xAb'', ct_AbiVersions = [], ct_ChainId = 1\<rparr> (NewInMemoryContractStore []))) =
   [\<lparr>ct_Name = ''A'', ct_Address = ''0xAb'', ct_AbiVersions = [], ct_ChainId = 1\<rparr>]"
  using add_contract [of "\<lparr>ct_Name = ''A'', ct_Address = ''0xAb'', ct_AbiVersions = [], ct_ChainId = 1\<rparr>"
      "NewInMemoryContractStore []"]
  by (simp add: NewInMemoryContractStore_def InMemory_ListContracts_def split: prod.splits)

text \<open>
  C30. Overriding contracts. The entries with exactly the given name, on one of the given
  chains or on any when none is given, take the new address and ABI and keep their name and chain;
  all others stay. When there is none, one contract per given chain is appended, under the name of the
  new contract: nothing at all when no chain is given. No error is ever returned.
\<close>

theorem override_contract:
  "InMemory_OverrideContract nm chs d s =
     (None, s\<lparr>ics_contracts :=
       (if \<exists>c \<in> set (ics_contracts s). ct_Name c = nm \<and> (chs = [] \<or> ct_ChainId c \<in> set chs)
        then map (\<lambda>c. if ct_Name c = nm \<and> (chs = [] \<or> ct_ChainId c \<in> set chs)
                      then c\<lparr>ct_Address := ct_Address d, ct_AbiVersions := ct_AbiVersions d\<rparr> else c)
               (ics_contracts s)
        else ics_contracts s @
          map (\<lambda>ch. d\<lparr>ct_ChainId := ch\<rparr>) chs)\<rparr>)"
proof -
  have rec: "(\<lambda>ch. \<lparr>ct_Name = ct_Name d, ct_Address = ct_Address d, ct_AbiVersions = ct_AbiVersions d,
      ct_ChainId = ch\<rparr>) = (\<lambda>ch. d\<lparr>ct_ChainId := ch\<rparr>)" by (simp add: fun_eq_iff)
  have same: "map (\<lambda>c. if overridden nm chs c
      then c\<lparr>ct_Address := ct_Address d, ct_AbiVersions := ct_AbiVersions d\<rparr> else c) cs = cs"
    if "\<not> (\<exists>c \<in> set cs. overridden nm chs c)" for cs
    using that by (induction cs) auto
  show ?thesis
    by (simp add: InMemory_OverrideContract_def override_loop_eq same rec flip: overridden_def)
qed

text \<open>
  The addresses of a chain: each address of the chain's contracts once, in lower case, in
  an order that depends on the map iteration only.
\<close>

lemma list_addresses_for_chain:
  "set (InMemory_ListContractAddressesForChain ord ch s) =
     ToLower ` ct_Address ` {c \<in> set (ics_contracts s). ct_ChainId c = ch} \<and>
   distinct (InMemory_ListContractAddressesForChain ord ch s)"
  using ics.addresses_law [of ord ch s] by (simp add: in_memory_contract_store_def)

end
