(* ===== verification/Log_Parser.thy ===== *)
theory Log_Parser
  imports Ethereum_Types Contract_Store
begin

text \<open>
  Decoded logs (\<^verbatim>\<open>pkg/transactionLogParser/log/types.go\<close>) and the parser of
  \<^verbatim>\<open>pkg/transactionLogParser/transactionLogParser.go\<close>. The ABI machinery of go-ethereum is
  the parameter \<open>abi_lib\<close>.
\<close>

section \<open>Decoded logs\<close>

text \<open>What an \<^verbatim>\<open>interface{}\<close> holds here; \<open>VNil\<close> is the zero interface.\<close>

datatype go_value =
    VNil
  | VInt int
  | VBool bool
  | VAddress "byte list"
  | VString string
  | VBytes "byte list"
  | VList "go_value list"

record Argument =
  arg_Name :: string
  arg_Type :: string
  arg_Value :: go_value
  arg_Indexed :: bool

record DecodedLog =
  dl_LogIndex :: uint64
  dl_Address :: string
  dl_Arguments :: "Argument list"
  dl_EventName :: string
  dl_OutputData :: "(string \<times> go_value) list"

section \<open>What the parser uses of go-ethereum\<close>

text \<open>The type tags \<^verbatim>\<open>abi.IntTy\<close> and so on; \<open>OtherTy\<close> stands for those the switch does not name.\<close>

datatype abi_T =
  IntTy | UintTy | BoolTy | StringTy | AddressTy | FixedBytesTy | BytesTy | OtherTy

record abi_Type =
  ty_T :: abi_T
  ty_String :: string

record abi_Argument =
  ai_Name :: string
  ai_Type :: abi_Type
  ai_Indexed :: bool

record abi_Event =
  ev_Name :: string
  ev_RawName :: string
  ev_Inputs :: "abi_Argument list"

text \<open>
  \<open>HexDecode\<close> is \<^verbatim>\<open>hexutil.Decode\<close> with its error dropped: the bytes of the result and the
  bytes that its capacity holds beyond them.
\<close>

record 'abi abi_lib =
  AbiUnmarshalJSON :: "string \<Rightarrow> 'abi \<times> string option"
  EventByID :: "'abi \<Rightarrow> byte list \<Rightarrow> error + abi_Event"
  UnpackIntoMap :: "'abi \<Rightarrow> string \<Rightarrow> byte list \<Rightarrow> error + (string \<times> go_value) list"
  ReadInteger :: "abi_Type \<Rightarrow> byte list \<Rightarrow> error + go_value"
  HexToAddress :: "string \<Rightarrow> byte list"
  HexToHash :: "string \<Rightarrow> byte list"
  AddressString :: "byte list \<Rightarrow> string"
  HexDecode :: "string \<Rightarrow> byte list \<times> byte list"

section \<open>Reading a topic\<close>

definition errBadBool :: error where
  "errBadBool = Errorf ''abi: improperly encoded boolean value'' None"

text \<open>
  \<^verbatim>\<open>word[:31]\<close> may reach into the capacity (\<open>spare\<close>) of the slice, \<^verbatim>\<open>word[31]\<close> must be within
  its length.
\<close>

definition readBool :: "byte list \<Rightarrow> byte list \<Rightarrow> (error + bool) go" where
  "readBool word spare =
     (if length word + length spare < 31 then Panic out_of_range
      else if \<exists>b \<in> set (take 31 (word @ spare)). b \<noteq> 0 then Ret (Inl errBadBool)
      else if length word \<le> 31 then Panic out_of_range
      else if word ! 31 = 0 then Ret (Inr False)
      else if word ! 31 = 1 then Ret (Inr True)
      else Ret (Inl errBadBool))"

definition ParseLogValueForType ::
  "'abi abi_lib \<Rightarrow> abi_Argument \<Rightarrow> string \<Rightarrow> (error + go_value) go" where
  "ParseLogValueForType lib argument value =
     (let (valueBytes, spare) = HexDecode lib value in
      case ty_T (ai_Type argument) of
        IntTy \<Rightarrow> Ret (ReadInteger lib (ai_Type argument) valueBytes)
      | UintTy \<Rightarrow> Ret (ReadInteger lib (ai_Type argument) valueBytes)
      | BoolTy \<Rightarrow>
          (case readBool valueBytes spare of
             Panic p \<Rightarrow> Panic p
           | Ret (Inl e) \<Rightarrow> Ret (Inl e)
           | Ret (Inr b) \<Rightarrow> Ret (Inr (VBool b)))
      | AddressTy \<Rightarrow> Ret (Inr (VAddress (HexToAddress lib value)))
      | StringTy \<Rightarrow> Ret (Inr (VString value))
      | BytesTy \<Rightarrow> Ret (Inr (VString value))
      | FixedBytesTy \<Rightarrow> Ret (Inr (VString value))
      | OtherTy \<Rightarrow> Ret (Inr (VString value)))"

section \<open>Hex text of the data field\<close>

text \<open>\<^verbatim>\<open>encoding/hex.DecodeString\<close>: pairs of hex digits; an odd length is an error.\<close>

definition hex_digit :: "char \<Rightarrow> nat option" where
  "hex_digit c =
     (let n = (of_char c :: nat) in
      if 48 \<le> n \<and> n \<le> 57 then Some (n - 48)
      else if 97 \<le> n \<and> n \<le> 102 then Some (n - 87)
      else if 65 \<le> n \<and> n \<le> 70 then Some (n - 55)
      else None)"

fun hex_DecodeString :: "string \<Rightarrow> error + byte list" where
  "hex_DecodeString [] = Inr []"
| "hex_DecodeString [c] =
     (case hex_digit c of
        None \<Rightarrow> Inl (Errorf ''encoding/hex: invalid byte: %#U'' None)
      | Some _ \<Rightarrow> Inl (Errorf ''encoding/hex: odd length hex string'' None))"
| "hex_DecodeString (c # d # s) =
     (case hex_digit c of
        None \<Rightarrow> Inl (Errorf ''encoding/hex: invalid byte: %#U'' None)
      | Some h \<Rightarrow>
          (case hex_digit d of
             None \<Rightarrow> Inl (Errorf ''encoding/hex: invalid byte: %#U'' None)
           | Some l \<Rightarrow>
               (case hex_DecodeString s of
                  Inl e \<Rightarrow> Inl e
                | Inr bs \<Rightarrow> Inr (word_of_nat (16 * h + l) # bs))))"

section \<open>Decoding a log\<close>

text \<open>
  The loop over the topics after the first: topic \<open>i\<close> is parsed with the type of the event's
  input \<open>i\<close> and stored in argument \<open>i\<close>; a parse error is logged and the argument keeps its
  value.
\<close>

fun topics_loop ::
  "'abi abi_lib \<Rightarrow> abi_Argument list \<Rightarrow> nat \<Rightarrow> string list \<Rightarrow> Argument list
     \<Rightarrow> Argument list go" where
  "topics_loop lib inputs i [] args = Ret args"
| "topics_loop lib inputs i (param # params) args =
     (if length inputs \<le> i then Panic out_of_range
      else case ParseLogValueForType lib (inputs ! i) param of
        Panic p \<Rightarrow> Panic p
      | Ret (Inl _) \<Rightarrow> topics_loop lib inputs (Suc i) params args
      | Ret (Inr d) \<Rightarrow>
          topics_loop lib inputs (Suc i) params (args[i := (args ! i)\<lparr>arg_Value := d\<rparr>]))"

text \<open>
  The step after the ABI is known. The result pairs the decoded log with the error, as the Go
  method does: some errors come with a partly filled log.
\<close>

definition decode_with_abi ::
  "'abi abi_lib \<Rightarrow> 'abi \<Rightarrow> EthereumEventLog \<Rightarrow> (DecodedLog option \<times> error option) go" where
  "decode_with_abi lib a lg =
     (let logAddress = HexToAddress lib (el_Address lg);
          topicHash = (case el_Topics lg of [] \<Rightarrow> replicate 32 0 | t # _ \<Rightarrow> HexToHash lib t);
          decodedLog = \<lparr>dl_LogIndex = el_LogIndex lg, dl_Address = AddressString lib logAddress,
                        dl_Arguments = [], dl_EventName = [], dl_OutputData = []\<rparr>
      in case EventByID lib a topicHash of
        Inl e \<Rightarrow> Ret (Some decodedLog, Some e)
      | Inr event \<Rightarrow>
          (let args = map (\<lambda>input. \<lparr>arg_Name = ai_Name input,
                                     arg_Type = ty_String (ai_Type input),
                                     arg_Value = VNil,
                                     arg_Indexed = ai_Indexed input\<rparr>) (ev_Inputs event)
           in case topics_loop lib (ev_Inputs event) 0 (drop 1 (el_Topics lg)) args of
             Panic p \<Rightarrow> Panic p
           | Ret args' \<Rightarrow>
               (let decodedLog' = decodedLog\<lparr>dl_EventName := ev_RawName event,
                                             dl_Arguments := args'\<rparr>
                in if el_Data lg = [] then Ret (Some decodedLog', None)
                   else if length (el_Data lg) < 2 then Panic out_of_range
                   else case hex_DecodeString (drop 2 (el_Data lg)) of
                     Inl e \<Rightarrow> Ret (Some decodedLog', Some e)
                   | Inr byteData \<Rightarrow>
                       (case UnpackIntoMap lib a (ev_Name event) byteData of
                          Inl _ \<Rightarrow> Ret (None, Some (Errorf ''failed to unpack data'' None))
                        | Inr outputDataMap \<Rightarrow>
                            Ret (Some (decodedLog'\<lparr>dl_OutputData := outputDataMap\<rparr>), None)))))"

text \<open>
  \<^verbatim>\<open>DecodeLog\<close>: without an ABI the contract is looked up by the log's address and its ABI
  parsed. A parsed ABI is never nil, so that the second nil test of the source never fires.
\<close>

definition DecodeLog ::
  "'abi abi_lib \<Rightarrow> 'k IContractStore \<Rightarrow> 'k \<Rightarrow> 'abi option \<Rightarrow> EthereumEventLog option
     \<Rightarrow> (DecodedLog option \<times> error option) go" where
  "DecodeLog lib K ks a lgp =
     (case lgp of
        None \<Rightarrow> Panic nil_dereference
      | Some lg \<Rightarrow>
          (case a of
             Some abi \<Rightarrow> decode_with_abi lib abi lg
           | None \<Rightarrow>
               (case GetContractByAddress K (el_Address lg) ks of
                  Inl e \<Rightarrow>
                    Ret (None, Some (Errorf ''failed to get contract for address %s: %w'' (Some e)))
                | Inr contract \<Rightarrow>
                    (case GetAbi (AbiUnmarshalJSON lib) contract of
                       Panic p \<Rightarrow> Panic p
                     | Ret (Inl e) \<Rightarrow>
                         Ret (None, Some (Errorf ''failed to parse ABI for address %s: %w'' (Some e)))
                     | Ret (Inr newAbi) \<Rightarrow> decode_with_abi lib newAbi lg))))"

text \<open>
  The parser itself: a contract store (the logger is left out), here next to the ABI library its
  method calls. The constructor only fills it in.
\<close>

record ('abi, 'k) TransactionLogParser =
  tlp_abi :: "'abi abi_lib"
  tlp_contractStore :: "'k IContractStore"

definition NewTransactionLogParser ::
  "'abi abi_lib \<Rightarrow> 'k IContractStore \<Rightarrow> ('abi, 'k) TransactionLogParser" where
  "NewTransactionLogParser lib contractStore = \<lparr>tlp_abi = lib, tlp_contractStore = contractStore\<rparr>"

end
