(* ===== verification/Contract_Registry.thy ===== *)
theory Contract_Registry
  imports Prelude
begin

text \<open>
  The registry of dynamically watched contracts: the interface of
  \<^verbatim>\<open>pkg/chainPollers/contractRegistry.go\<close> and the in-memory implementation
  \<^verbatim>\<open>pkg/chainPollers/contractRegistry/inMemory.go\<close>. The state is the slice in the atomic value;
  writers are serialised by the mutex, readers load one published slice, so that each method
  is one step on the state.
\<close>

section \<open>The interface and the in-memory registry\<close>

text \<open>\<^verbatim>\<open>RegisterContracts\<close> ranges over a map; its first argument is the order chosen.\<close>

record 'g IContractRegistry =
  RegisterContracts :: "nat list \<Rightarrow> string list \<Rightarrow> 'g \<Rightarrow> 'g"
  UnregisterContracts :: "string list \<Rightarrow> 'g \<Rightarrow> 'g"
  ListRegistered :: "'g \<Rightarrow> string list"

record InMemoryContractRegistry =
  icr_contracts :: "string list"

definition NewInMemoryContractRegistry :: InMemoryContractRegistry where
  "NewInMemoryContractRegistry = \<lparr>icr_contracts = []\<rparr>"

text \<open>A Go set \<^verbatim>\<open>map[string]struct{}\<close> as its keys, in order of insertion.\<close>

definition set_insert :: "string \<Rightarrow> string list \<Rightarrow> string list" where
  "set_insert a s = (if a \<in> set s then s else s @ [a])"

definition Registry_RegisterContracts ::
  "nat list \<Rightarrow> string list \<Rightarrow> InMemoryContractRegistry \<Rightarrow> InMemoryContractRegistry" where
  "Registry_RegisterContracts ord addresses r =
     (let current = icr_contracts r;
          set1 = fold set_insert current [];
          set2 = fold (\<lambda>addr. set_insert (ToLower addr)) addresses set1
      in r\<lparr>icr_contracts := range_order ord set2\<rparr>)"

definition Registry_UnregisterContracts ::
  "string list \<Rightarrow> InMemoryContractRegistry \<Rightarrow> InMemoryContractRegistry" where
  "Registry_UnregisterContracts addresses r =
     (let remove = fold (\<lambda>addr. set_insert (ToLower addr)) addresses []
      in r\<lparr>icr_contracts := filter (\<lambda>addr. addr \<notin> set remove) (icr_contracts r)\<rparr>)"

definition Registry_ListContracts :: "InMemoryContractRegistry \<Rightarrow> string list" where
  "Registry_ListContracts r = icr_contracts r"

definition in_memory_contract_registry :: "InMemoryContractRegistry IContractRegistry" where
  "in_memory_contract_registry =
     \<lparr>RegisterContracts = Registry_RegisterContracts,
      UnregisterContracts = Registry_UnregisterContracts,
      ListRegistered = Registry_ListContracts\<rparr>"

section \<open>The contract of a registry\<close>

text \<open>A registry is a set of lower-case addresses, listed without repetition.\<close>

locale contract_registry =
  fixes R :: "'g IContractRegistry"
    and invar :: "'g \<Rightarrow> bool"
  assumes listed_distinct: "invar g \<Longrightarrow> distinct (ListRegistered R g)"
    and listed_lower: "invar g \<Longrightarrow> a \<in> set (ListRegistered R g) \<Longrightarrow> ToLower a = a"
    and register_law: "invar g \<Longrightarrow> invar (RegisterContracts R ord as g) \<and>
      set (ListRegistered R (RegisterContracts R ord as g)) =
        set (ListRegistered R g) \<union> ToLower ` set as"
    and unregister_law: "invar g \<Longrightarrow> invar (UnregisterContracts R as g) \<and>
      set (ListRegistered R (UnregisterContracts R as g)) =
        set (ListRegistered R g) - ToLower ` set as"
begin

text \<open>Registering and then unregistering the same addresses removes them, in any spelling.\<close>

lemma unregister_register:
  assumes "invar g" and "map ToLower bs = map ToLower as"
  shows "set (ListRegistered R (UnregisterContracts R bs (RegisterContracts R ord as g))) =
    set (ListRegistered R g) - ToLower ` set as"
proof -
  from assms(2) have "ToLower ` set bs = ToLower ` set as"
    by (metis list.set_map)
  then show ?thesis
    using register_law [OF assms(1), of ord as]
      unregister_law [of "RegisterContracts R ord as g" bs] by auto
qed

text \<open>Registering twice lists the same addresses as registering once.\<close>

lemma register_idem:
  assumes "invar g"
  shows "set (ListRegistered R (RegisterContracts R ord' as (RegisterContracts R ord as g))) =
    set (ListRegistered R (RegisterContracts R ord as g))"
  using register_law [OF assms, of ord as] register_law [of "RegisterContracts R ord as g" ord' as]
  by auto

end

section \<open>The in-memory registry keeps the contract\<close>

lemma set_set_insert [simp]: "set (set_insert a s) = insert a (set s)"
  by (auto simp: set_insert_def)

lemma distinct_set_insert [simp]: "distinct s \<Longrightarrow> distinct (set_insert a s)"
  by (simp add: set_insert_def)

lemma set_fold_insert [simp]:
  "set (fold (\<lambda>a. set_insert (f a)) as s) = set s \<union> f ` set as"
  by (induction as arbitrary: s) auto

lemma distinct_fold_insert [simp]:
  "distinct s \<Longrightarrow> distinct (fold (\<lambda>a. set_insert (f a)) as s)"
  by (induction as arbitrary: s) auto

lemmas fold_insert_id = set_fold_insert [where f = "\<lambda>a. a", simplified]
  distinct_fold_insert [where f = "\<lambda>a. a", simplified]

definition registry_inv :: "InMemoryContractRegistry \<Rightarrow> bool" where
  "registry_inv r \<longleftrightarrow> distinct (icr_contracts r) \<and> (\<forall>a \<in> set (icr_contracts r). ToLower a = a)"

lemmas registry_defs = in_memory_contract_registry_def Registry_RegisterContracts_def
  Registry_UnregisterContracts_def Registry_ListContracts_def registry_inv_def

interpretation icr: contract_registry in_memory_contract_registry registry_inv
  by unfold_locales (auto simp: registry_defs Let_def fold_insert_id)

lemma registry_inv_new: "registry_inv NewInMemoryContractRegistry"
  by (simp add: registry_inv_def NewInMemoryContractRegistry_def)

section \<open>Properties\<close>

text \<open>The two writing methods as operations, and what they mean on sets of addresses.\<close>

datatype registry_op = Register "nat list" "string list" | Unregister "string list"

fun registry_step :: "'g IContractRegistry \<Rightarrow> registry_op \<Rightarrow> 'g \<Rightarrow> 'g" where
  "registry_step R (Register ord as) g = RegisterContracts R ord as g"
| "registry_step R (Unregister as) g = UnregisterContracts R as g"

fun set_step :: "registry_op \<Rightarrow> string set \<Rightarrow> string set" where
  "set_step (Register ord as) S = S \<union> ToLower ` set as"
| "set_step (Unregister as) S = S - ToLower ` set as"

context contract_registry
begin

lemma run_refines:
  "invar g \<Longrightarrow> invar (fold (registry_step R) ops g) \<and>
     set (ListRegistered R (fold (registry_step R) ops g)) = fold set_step ops (set (ListRegistered R g))"
proof (induction ops arbitrary: g)
  case Nil
  then show ?case by simp
next
  case (Cons op ops)
  then have "invar (registry_step R op g) \<and>
      set (ListRegistered R (registry_step R op g)) = set_step op (set (ListRegistered R g))"
    by (cases op) (simp_all add: register_law unregister_law)
  with Cons.IH show ?case by simp
qed

end

text \<open>
  C28. The registry refines a set. After any sequence of registrations and removals, with
  addresses in any spelling and whatever order the map iteration takes, the registry lists each
  address of the specified set exactly once, in lower case.
\<close>

theorem registry_refines_set:
  "let r = fold (registry_step in_memory_contract_registry) ops NewInMemoryContractRegistry in
   set (Registry_ListContracts r) = fold set_step ops {} \<and> distinct (Registry_ListContracts r) \<and>
   list_all (\<lambda>a. ToLower a = a) (Registry_ListContracts r)"
proof -
  let ?r = "fold (registry_step in_memory_contract_registry) ops NewInMemoryContractRegistry"
  have list: "Registry_ListContracts = ListRegistered in_memory_contract_registry"
    by (simp add: in_memory_contract_registry_def)
  have "set (ListRegistered in_memory_contract_registry NewInMemoryContractRegistry) = {}"
    by (simp add: registry_defs NewInMemoryContractRegistry_def)
  with icr.run_refines [OF registry_inv_new, of ops] show ?thesis
    unfolding list Let_def using icr.listed_distinct [of ?r] icr.listed_lower [of ?r] by (simp add: list_all_iff)
qed

end
