(* ===== verification/Poller_Interfaces.thy ===== *)
theory Poller_Interfaces
  imports Persistence Ethereum_Types Log_Parser Contract_Registry
begin

text \<open>
  What the chain poller talks to: the RPC client (\<^verbatim>\<open>Client\<close> of
  \<^verbatim>\<open>pkg/clients/ethereum/client.go\<close>), the log parser, the block handler of the application
  (\<^verbatim>\<open>IBlockHandler\<close>) and the persistence store. All but the store share one environment state
  \<open>'e\<close>, which every method may read and change: what the node answers, what the handler does
  and which contracts it registers meanwhile are then unconstrained.
\<close>

record LogWithBlock =
  lwb_Log :: "DecodedLog option"
  lwb_RawLog :: "EthereumEventLog option"
  lwb_Block :: EthereumBlock

text \<open>The contexts and timeouts of the Go methods are left out.\<close>

record 'e Client =
  GetLatestBlock :: "'e \<Rightarrow> (error + uint64) \<times> 'e"
  GetBlockByNumber :: "uint64 \<Rightarrow> 'e \<Rightarrow> (error + EthereumBlock option) \<times> 'e"
  GetLogs :: "string \<Rightarrow> uint64 \<Rightarrow> uint64 \<Rightarrow> 'e \<Rightarrow> (error + EthereumEventLog option list) \<times> 'e"
  GetLogsForAddresses ::
    "string list \<Rightarrow> uint64 \<Rightarrow> uint64 \<Rightarrow> 'e \<Rightarrow> (error + EthereumEventLog option list) \<times> 'e"

record 'e IBlockHandler =
  HandleBlock :: "EthereumBlock \<Rightarrow> 'e \<Rightarrow> error option \<times> 'e"
  HandleLog :: "LogWithBlock \<Rightarrow> 'e \<Rightarrow> error option \<times> 'e"
  HandleReorgBlock :: "uint64 \<Rightarrow> 'e \<Rightarrow> 'e"

text \<open>The poller passes a nil ABI to every \<^verbatim>\<open>DecodeLog\<close>, so that argument is left out.\<close>

record 'e LogParser =
  ParseLog :: "EthereumEventLog option \<Rightarrow> 'e \<Rightarrow> (DecodedLog option \<times> error option) go \<times> 'e"

text \<open>The calls the poller makes on its block handler, in order, as the world records them.\<close>

datatype handler_call =
    CallHandleBlock EthereumBlock
  | CallHandleLog LogWithBlock
  | CallHandleReorgBlock uint64

record ('s, 'e) world =
  w_store :: 's
  w_env :: 'e
  w_calls :: "handler_call list"

record ('s, 'e) IChainPoller =
  StartPoller :: "('s, 'e) world \<Rightarrow> (error option) go \<times> ('s, 'e) world"

end
