(* ===== verification/Chain_Poller.thy ===== *)
theory Chain_Poller
  imports Poller_Interfaces
begin

text \<open>
  The EVM chain poller, \<^verbatim>\<open>pkg/chainPollers/evm/evmChainPoller.go\<close>: configuration and
  construction, \<^verbatim>\<open>Start\<close>, the poll loop, the processing of new blocks and their logs, and the
  reconciliation of chain reorganisations. Logging is left out.
\<close>

section \<open>Configuration and construction\<close>

definition DefaultMaxAddressesPerLogsRequest :: go_int where
  "DefaultMaxAddressesPerLogsRequest = 1000"

text \<open>\<^verbatim>\<open>60 * time.Second\<close>, in nanoseconds\<close>

definition DefaultLogsFetchTimeout :: go_int where
  "DefaultLogsFetchTimeout = 60000000000"

record EVMChainPollerConfig =
  cfg_ChainId :: ChainId
  cfg_PollingInterval :: go_int
  cfg_InterestingContracts :: "string list"
  cfg_AvsAddress :: string
  cfg_GenesisBlockNumber :: uint64
  cfg_MaxReorgDepth :: go_int
  cfg_BlockHistorySize :: go_int
  cfg_ReorgCheckEnabled :: bool
  cfg_MaxAddressesPerLogsRequest :: go_int
  cfg_LogsFetchTimeout :: go_int

text \<open>
  The poller. Its contract store field is never read and left out; \<open>ecp_schedule\<close> is the
  order in which the Go scheduler lets the fetching goroutines complete.
\<close>

record ('s, 'e) EVMChainPoller =
  ecp_ethClient :: "'e Client"
  ecp_logParser :: "'e LogParser"
  ecp_config :: EVMChainPollerConfig
  ecp_store :: "'s IChainPollerPersistence"
  ecp_blockHandler :: "'e IBlockHandler"
  ecp_contractRegistry :: "'e IContractRegistry option"
  ecp_schedule :: "'e \<Rightarrow> nat list"

definition WithContractRegistry ::
  "'e IContractRegistry \<Rightarrow> ('s, 'e) EVMChainPoller \<Rightarrow> ('s, 'e) EVMChainPoller" where
  "WithContractRegistry r ecp = ecp\<lparr>ecp_contractRegistry := Some r\<rparr>"

text \<open>The defaults the constructor writes into the configuration, in the source's order.\<close>

definition apply_defaults :: "EVMChainPollerConfig \<Rightarrow> EVMChainPollerConfig" where
  "apply_defaults c =
     (let c1 = (if cfg_MaxReorgDepth c = 0 then c\<lparr>cfg_MaxReorgDepth := 10\<rparr> else c);
          c2 = (if cfg_BlockHistorySize c1 = 0 then c1\<lparr>cfg_BlockHistorySize := 100\<rparr> else c1);
          c3 = (if \<not> cfg_ReorgCheckEnabled c2 \<and> 0 < sint (cfg_MaxReorgDepth c2)
                then c2\<lparr>cfg_ReorgCheckEnabled := True\<rparr> else c2);
          c4 = (if cfg_MaxAddressesPerLogsRequest c3 = 0
                then c3\<lparr>cfg_MaxAddressesPerLogsRequest := DefaultMaxAddressesPerLogsRequest\<rparr>
                else c3)
      in if cfg_LogsFetchTimeout c4 = 0
         then c4\<lparr>cfg_LogsFetchTimeout := DefaultLogsFetchTimeout\<rparr> else c4)"

definition NewEVMChainPoller ::
  "'e Client \<Rightarrow> 'e LogParser \<Rightarrow> EVMChainPollerConfig \<Rightarrow> 's IChainPollerPersistence option
     \<Rightarrow> 'e IBlockHandler \<Rightarrow> ('e \<Rightarrow> nat list)
     \<Rightarrow> (('s, 'e) EVMChainPoller \<Rightarrow> ('s, 'e) EVMChainPoller) list
     \<Rightarrow> ('s, 'e) EVMChainPoller go" where
  "NewEVMChainPoller ethClient logParser config store blockHandler sched opts =
     (case store of
        None \<Rightarrow> Panic ''store is required''
      | Some st \<Rightarrow>
          Ret (fold (\<lambda>opt ecp. opt ecp) opts
            \<lparr>ecp_ethClient = ethClient, ecp_logParser = logParser,
             ecp_config = apply_defaults config, ecp_store = st,
             ecp_blockHandler = blockHandler, ecp_contractRegistry = None,
             ecp_schedule = sched\<rparr>))"

definition ContractRegistry :: "('s, 'e) EVMChainPoller \<Rightarrow> 'e IContractRegistry option" where
  "ContractRegistry ecp = ecp_contractRegistry ecp"

section \<open>Which contracts to watch\<close>

text \<open>
  The map \<^verbatim>\<open>seen\<close> always holds the keys of \<^verbatim>\<open>result\<close>, so the list serves as both.
\<close>

definition add_unseen :: "string \<Rightarrow> string list \<Rightarrow> string list" where
  "add_unseen a result = (if a \<in> set result then result else result @ [a])"

definition listAllInterestingContracts :: "('s, 'e) EVMChainPoller \<Rightarrow> 'e \<Rightarrow> string list" where
  "listAllInterestingContracts ecp e =
     (let static = fold (\<lambda>contract result.
                     if contract = [] then result else add_unseen (ToLower contract) result)
                   (cfg_InterestingContracts (ecp_config ecp)) []
      in case ecp_contractRegistry ecp of
        None \<Rightarrow> static
      | Some registry \<Rightarrow> fold add_unseen (ListRegistered registry e) static)"

section \<open>Splitting the address list\<close>

text \<open>\<^verbatim>\<open>int\<close> division truncates towards zero.\<close>

definition go_div :: "int \<Rightarrow> int \<Rightarrow> int" where
  "go_div a b = sgn a * sgn b * (\<bar>a\<bar> div \<bar>b\<bar>)"

text \<open>
  The loop variable, the end index and their comparisons are 64-bit signed. The caller has
  replaced a size below 1, so the first test is never true there; it stands for the loop
  that makes no progress.
\<close>

function chunk_loop :: "string list \<Rightarrow> go_int \<Rightarrow> go_int \<Rightarrow> string list list go" where
  "chunk_loop addresses chunkSize i =
     (let len = (word_of_nat (length addresses) :: go_int);
          end0 = i + chunkSize;
          end1 = (if sint end0 > sint len then len else end0)
      in if chunkSize = 0 \<or> \<not> sint i < sint len then Ret []
         else if sint i < 0 \<or> sint end1 < sint i then Panic out_of_range
         else case chunk_loop addresses chunkSize (i + chunkSize) of
             Panic p \<Rightarrow> Panic p
           | Ret chunks \<Rightarrow>
               Ret (take (unat end1 - unat i) (drop (unat i) addresses) # chunks))"
  by pat_completeness auto
termination
proof (relation "measure (\<lambda>(addresses, chunkSize, i).
    nat (sint (word_of_nat (length addresses) :: go_int) - sint i))", goal_cases)
  case 1
  show ?case by simp
next
  case (2 addresses chunkSize i len end0 end1)
  have "i + chunkSize \<noteq> i" using 2(4) by simp
  then have "sint (i + chunkSize) \<noteq> sint i" by (metis signed_word_eqI)
  then show ?case using 2 by (auto split: if_splits)
qed

declare chunk_loop.simps [simp del]

text \<open>\<^verbatim>\<open>make\<close> panics on a negative capacity.\<close>

definition chunkAddresses :: "string list \<Rightarrow> go_int \<Rightarrow> string list list go" where
  "chunkAddresses addresses chunkSize =
     (let chunkSize' = (if sint chunkSize \<le> 0 then DefaultMaxAddressesPerLogsRequest
                        else chunkSize);
          capacity = go_div (sint (word_of_nat (length addresses) + chunkSize' - 1))
                            (sint chunkSize')
      in if capacity < 0 then Panic ''makeslice: cap out of range''
         else chunk_loop addresses chunkSize' 0)"

section \<open>Calls on the store and the environment\<close>

definition on_env :: "('e \<Rightarrow> 'a \<times> 'e) \<Rightarrow> ('s, 'e) world \<Rightarrow> 'a \<times> ('s, 'e) world" where [go_defs]:
  "on_env f w = (let (r, e') = f (w_env w) in (r, w\<lparr>w_env := e'\<rparr>))"

definition on_store :: "('s \<Rightarrow> 'a \<times> 's) \<Rightarrow> ('s, 'e) world \<Rightarrow> 'a \<times> ('s, 'e) world" where [go_defs]:
  "on_store f w = (let (r, s') = f (w_store w) in (r, w\<lparr>w_store := s'\<rparr>))"

text \<open>Calls on the block handler are recorded.\<close>

definition call_HandleBlock ::
  "('s, 'e) EVMChainPoller \<Rightarrow> EthereumBlock \<Rightarrow> ('s, 'e) world \<Rightarrow> error option \<times> ('s, 'e) world" where
  "call_HandleBlock ecp b w =
     on_env (HandleBlock (ecp_blockHandler ecp) b)
       (w\<lparr>w_calls := w_calls w @ [CallHandleBlock b]\<rparr>)"

definition call_HandleLog ::
  "('s, 'e) EVMChainPoller \<Rightarrow> LogWithBlock \<Rightarrow> ('s, 'e) world \<Rightarrow> error option \<times> ('s, 'e) world" where
  "call_HandleLog ecp l w =
     on_env (HandleLog (ecp_blockHandler ecp) l)
       (w\<lparr>w_calls := w_calls w @ [CallHandleLog l]\<rparr>)"

definition call_HandleReorgBlock ::
  "('s, 'e) EVMChainPoller \<Rightarrow> uint64 \<Rightarrow> ('s, 'e) world \<Rightarrow> ('s, 'e) world" where
  "call_HandleReorgBlock ecp n w =
     w\<lparr>w_calls := w_calls w @ [CallHandleReorgBlock n],
       w_env := HandleReorgBlock (ecp_blockHandler ecp) n (w_env w)\<rparr>"

text \<open>The record \<^verbatim>\<open>&chainPoller.BlockRecord{...}\<close> of a block, on a given chain.\<close>

definition record_of :: "EthereumBlock \<Rightarrow> ChainId \<Rightarrow> BlockRecord" where
  "record_of b c = \<lparr>br_Number = eb_Number b, br_Hash = eb_Hash b,
     br_ParentHash = eb_ParentHash b, br_Timestamp = eb_Timestamp b, br_ChainId = c\<rparr>"

section \<open>Fetching the logs of a block\<close>

text \<open>
  The batches are requested concurrently. A goroutine's request is taken to happen when it
  completes; it then sends its logs on one channel or its error on the other.
\<close>

fun fetch_batches ::
  "'e Client \<Rightarrow> uint64 \<Rightarrow> string list list \<Rightarrow> nat list \<Rightarrow> 'e
     \<Rightarrow> EthereumEventLog option list list \<times> error list \<times> 'e" where
  "fetch_batches client blockNumber batches [] e = ([], [], e)"
| "fetch_batches client blockNumber batches (i # is) e =
     (case GetLogsForAddresses client (batches ! i) blockNumber blockNumber e of
        (Inl err, e') \<Rightarrow>
          (let (logs, errs, e'') = fetch_batches client blockNumber batches is e'
           in (logs, Errorf ''failed to fetch logs batch %d: %w'' (Some err) # errs, e''))
      | (Inr ls, e') \<Rightarrow>
          (let (logs, errs, e'') = fetch_batches client blockNumber batches is e'
           in (ls # logs, errs, e'')))"

definition fetchLogsForInterestingContractsForBlock ::
  "('s, 'e) EVMChainPoller \<Rightarrow> uint64 \<Rightarrow> 'e
     \<Rightarrow> (error + EthereumEventLog option list) go \<times> 'e" where
  "fetchLogsForInterestingContractsForBlock ecp blockNumber e =
     (let allContracts = listAllInterestingContracts ecp e in
      if allContracts = [] then (Ret (Inr []), e)
      else case chunkAddresses allContracts (cfg_MaxAddressesPerLogsRequest (ecp_config ecp)) of
          Panic p \<Rightarrow> (Panic p, e)
        | Ret batches \<Rightarrow>
            (let (logResults, allErrors, e') =
                   fetch_batches (ecp_ethClient ecp) blockNumber batches
                     (completion_order (length batches) (ecp_schedule ecp e)) e
             in if allErrors \<noteq> []
                then (Ret (Inl (Errorf ''failed to fetch logs for contracts: %v'' None)), e')
                else (Ret (Inr (concat logResults)), e')))"

section \<open>Processing a block\<close>

fun process_logs ::
  "('s, 'e) EVMChainPoller \<Rightarrow> EthereumBlock \<Rightarrow> EthereumEventLog option list \<Rightarrow> ('s, 'e) world
     \<Rightarrow> (error option) go \<times> ('s, 'e) world" where
  "process_logs ecp block [] w = (Ret None, w)"
| "process_logs ecp block (log # logs) w =
     (case on_env (ParseLog (ecp_logParser ecp) log) w of
        (Panic p, w1) \<Rightarrow> (Panic p, w1)
      | (Ret (decodedLog, Some err), w1) \<Rightarrow>
          (if log = None then (Panic nil_dereference, w1) else (Ret (Some err), w1))
      | (Ret (decodedLog, None), w1) \<Rightarrow>
          (case call_HandleLog ecp
                  \<lparr>lwb_Log = decodedLog, lwb_RawLog = log, lwb_Block = block\<rparr> w1 of
             (Some err, w2) \<Rightarrow> (Ret (Some err), w2)
           | (None, w2) \<Rightarrow> process_logs ecp block logs w2))"

text \<open>
  Pruning after a save: the record \<open>BlockHistorySize\<close> blocks back is deleted, whatever the
  store answers.
\<close>

definition prune_old ::
  "('s, 'e) EVMChainPoller \<Rightarrow> BlockRecord \<Rightarrow> ('s, 'e) world \<Rightarrow> ('s, 'e) world" where
  "prune_old ecp blockRecord w =
     (let size = cfg_BlockHistorySize (ecp_config ecp) in
      if 0 < sint size \<and> br_Number blockRecord > size
      then snd (on_store (DeleteBlock (ecp_store ecp) (cfg_ChainId (ecp_config ecp))
                  (br_Number blockRecord - size)) w)
      else w)"

definition processBlockLogs ::
  "('s, 'e) EVMChainPoller \<Rightarrow> EthereumBlock \<Rightarrow> ('s, 'e) world
     \<Rightarrow> (error + BlockRecord) go \<times> ('s, 'e) world" where
  "processBlockLogs ecp block w =
     (case on_env (fetchLogsForInterestingContractsForBlock ecp (eb_Number block)) w of
        (Panic p, w1) \<Rightarrow> (Panic p, w1)
      | (Ret (Inl err), w1) \<Rightarrow> (Ret (Inl err), w1)
      | (Ret (Inr logs), w1) \<Rightarrow>
          (let block' = block\<lparr>eb_ChainId := cfg_ChainId (ecp_config ecp)\<rparr> in
           case process_logs ecp block' logs w1 of
             (Panic p, w2) \<Rightarrow> (Panic p, w2)
           | (Ret (Some err), w2) \<Rightarrow> (Ret (Inl err), w2)
           | (Ret None, w2) \<Rightarrow>
               (let blockRecord = record_of block' (cfg_ChainId (ecp_config ecp));
                    (_, w3) = on_store (SaveBlock (ecp_store ecp) (Some blockRecord)) w2
                in (Ret (Inr blockRecord), prune_old ecp blockRecord w3))))"

section \<open>Reorganisations\<close>

text \<open>
  The search walks down from the parent of the new block. \<open>parentBlockRecord\<close> is the Go variable of
  that name, nil before the first iteration; \<open>orphanedBlocks\<close> accumulates. Numbers are 64-bit:
  the distance \<open>startBlockNumber - parentBlockNum\<close> and the decrement wrap.
\<close>

function findOrphaned_loop ::
  "('s, 'e) EVMChainPoller \<Rightarrow> uint64 \<Rightarrow> go_int \<Rightarrow> uint64 \<Rightarrow> BlockRecord option
     \<Rightarrow> BlockRecord list \<Rightarrow> ('s, 'e) world
     \<Rightarrow> (BlockRecord list \<times> error option) \<times> ('s, 'e) world" where
  "findOrphaned_loop ecp startBlockNumber maxDepth parentBlockNum parentBlockRecord
       orphanedBlocks w =
     (if startBlockNumber - parentBlockNum \<le> maxDepth \<and> parentBlockNum > 0 then
        (case on_env (GetBlockByNumber (ecp_ethClient ecp) parentBlockNum) w of
           (Inl err, w1) \<Rightarrow>
             (([], Some (Errorf ''failed to fetch block %d from chain: %w'' (Some err))), w1)
         | (Inr None, w1) \<Rightarrow>
             (([], Some (Errorf ''failed to fetch block %d from chain: %w'' None)), w1)
         | (Inr (Some canonParentBlock), w1) \<Rightarrow>
             (case on_store (GetBlock (ecp_store ecp) (cfg_ChainId (ecp_config ecp))
                       parentBlockNum) w1 of
                (Inr None, w2) \<Rightarrow>
                  (([], Some (Errorf ''failed to fetch block %d for : %w'' None)), w2)
              | (Inl err, w2) \<Rightarrow>
                  (if \<not> errors_Is err ErrNotFound
                   then (([], Some (Errorf ''failed to fetch block %d for : %w'' (Some err))), w2)
                   else
                     (let rec = record_of canonParentBlock (eb_ChainId canonParentBlock);
                          (_, w3) = on_store (SaveBlock (ecp_store ecp) (Some rec)) w2
                      in if eb_Hash canonParentBlock \<noteq> br_Hash rec
                         then findOrphaned_loop ecp startBlockNumber maxDepth
                                (parentBlockNum - 1) (Some rec) (orphanedBlocks @ [rec]) w3
                         else (let (saveErr, w4) = on_store (SaveBlock (ecp_store ecp) (Some rec)) w3
                               in ((orphanedBlocks, saveErr), w4))))
              | (Inr (Some rec), w2) \<Rightarrow>
                  (if eb_Hash canonParentBlock \<noteq> br_Hash rec
                   then findOrphaned_loop ecp startBlockNumber maxDepth
                          (parentBlockNum - 1) (Some rec) (orphanedBlocks @ [rec]) w2
                   else (let (saveErr, w3) = on_store (SaveBlock (ecp_store ecp) (Some rec)) w2
                         in ((orphanedBlocks, saveErr), w3)))))
      else
        (let (saveErr, w1) = on_store (SaveBlock (ecp_store ecp) parentBlockRecord) w
         in ((orphanedBlocks, saveErr), w1)))"
  by pat_completeness auto
termination
  by (relation "measure (\<lambda>(ecp, start, d, parent, rest). unat parent)")
    (auto intro: unat_minus_one_less)

declare findOrphaned_loop.simps [simp del]

definition findOrphanedBlocks ::
  "('s, 'e) EVMChainPoller \<Rightarrow> EthereumBlock \<Rightarrow> go_int \<Rightarrow> ('s, 'e) world
     \<Rightarrow> (BlockRecord list \<times> error option) \<times> ('s, 'e) world" where
  "findOrphanedBlocks ecp startBlock maxDepth w =
     findOrphaned_loop ecp (eb_Number startBlock) maxDepth (eb_Number startBlock - 1) None [] w"

fun delete_orphaned ::
  "('s, 'e) EVMChainPoller \<Rightarrow> BlockRecord list \<Rightarrow> ('s, 'e) world
     \<Rightarrow> error option \<times> ('s, 'e) world" where
  "delete_orphaned ecp [] w = (None, w)"
| "delete_orphaned ecp (orphanedBlock # rest) w =
     (case on_store (DeleteBlock (ecp_store ecp) (br_ChainId orphanedBlock)
              (br_Number orphanedBlock))
            (call_HandleReorgBlock ecp (br_Number orphanedBlock) w) of
        (Some err, w1) \<Rightarrow>
          (if \<not> errors_Is err ErrNotFound
           then (Some (Errorf ''failed to delete orphaned block: %w'' (Some err)), w1)
           else delete_orphaned ecp rest w1)
      | (None, w1) \<Rightarrow> delete_orphaned ecp rest w1)"

definition reconcileReorg ::
  "('s, 'e) EVMChainPoller \<Rightarrow> EthereumBlock \<Rightarrow> ('s, 'e) world \<Rightarrow> error option \<times> ('s, 'e) world" where
  "reconcileReorg ecp startBlock w =
     (case findOrphanedBlocks ecp startBlock (cfg_MaxReorgDepth (ecp_config ecp)) w of
        ((_, Some err), w1) \<Rightarrow> (Some err, w1)
      | ((orphanedBlocks, None), w1) \<Rightarrow>
          (if orphanedBlocks = [] then (Some (Errorf ''no orphaned blocks found'' None), w1)
           else delete_orphaned ecp orphanedBlocks w1))"

section \<open>One tick\<close>

text \<open>
  The loop that collects the block numbers to fetch. With the greatest 64-bit number as its
  bound it never ends, because the counter wraps: \<open>None\<close>.
\<close>

partial_function (option) collect_blocks :: "uint64 \<Rightarrow> uint64 \<Rightarrow> uint64 list option" where
  "collect_blocks i latestBlockNum =
     (if i \<le> latestBlockNum
      then Option.bind (collect_blocks (i + 1) latestBlockNum) (\<lambda>rest. Some (i # rest))
      else Some [])"

fun process_blocks ::
  "('s, 'e) EVMChainPoller \<Rightarrow> BlockRecord \<Rightarrow> uint64 list \<Rightarrow> ('s, 'e) world
     \<Rightarrow> unit go \<times> ('s, 'e) world" where
  "process_blocks ecp latestBlockRecord [] w = (Ret (), w)"
| "process_blocks ecp latestBlockRecord (blockNum # blockNums) w =
     (case on_env (GetBlockByNumber (ecp_ethClient ecp) blockNum) w of
        (Inl _, w1) \<Rightarrow> (Ret (), w1)
      | (Inr None, w1) \<Rightarrow> (Panic nil_dereference, w1)
      | (Inr (Some newCanonBlock), w1) \<Rightarrow>
          (if eb_ParentHash newCanonBlock \<noteq> br_Hash latestBlockRecord
           then (Ret (), snd (reconcileReorg ecp newCanonBlock w1))
           else
             (let (_, w2) = call_HandleBlock ecp newCanonBlock w1 in
              case processBlockLogs ecp newCanonBlock w2 of
                (Panic p, w3) \<Rightarrow> (Panic p, w3)
              | (Ret (Inl _), w3) \<Rightarrow> (Ret (), w3)
              | (Ret (Inr blockRecord), w3) \<Rightarrow>
                  process_blocks ecp blockRecord blockNums w3)))"

text \<open>\<open>None\<close>: the call does not return.\<close>

definition processNextBlock ::
  "('s, 'e) EVMChainPoller \<Rightarrow> ('s, 'e) world \<Rightarrow> (unit go \<times> ('s, 'e) world) option" where
  "processNextBlock ecp w =
     (case on_store (GetLastProcessedBlock (ecp_store ecp) (cfg_ChainId (ecp_config ecp))) w of
        (Inl _, w1) \<Rightarrow> Some (Ret (), w1)
      | (Inr latest, w1) \<Rightarrow>
          (case on_env (GetLatestBlock (ecp_ethClient ecp)) w1 of
             (Inl _, w2) \<Rightarrow> Some (Ret (), w2)
           | (Inr latestBlockNum, w2) \<Rightarrow>
               (case latest of
                  None \<Rightarrow> Some (Panic nil_dereference, w2)
                | Some latestBlockRecord \<Rightarrow>
                    if br_Number latestBlockRecord = latestBlockNum then Some (Ret (), w2)
                    else
                      Option.bind
                        (if latestBlockNum > br_Number latestBlockRecord
                         then collect_blocks (br_Number latestBlockRecord + 1) latestBlockNum
                         else Some [])
                        (\<lambda>blocksToFetch.
                           Some (process_blocks ecp latestBlockRecord blocksToFetch w2)))))"

section \<open>Starting and polling\<close>

text \<open>
  \<^verbatim>\<open>Start\<close> returns nil exactly when it has launched the poll loop.
\<close>

definition Start ::
  "('s, 'e) EVMChainPoller \<Rightarrow> ('s, 'e) world \<Rightarrow> (error option) go \<times> ('s, 'e) world" where
  "Start ecp w =
     (let cfg = ecp_config ecp in
      case on_store (GetLastProcessedBlock (ecp_store ecp) (cfg_ChainId cfg)) w of
        (Inr None, w1) \<Rightarrow> (Ret (Some (Errorf ''last processed block must exist'' None)), w1)
      | (Inr (Some _), w1) \<Rightarrow> (Ret None, w1)
      | (Inl _, w1) \<Rightarrow>
          (case (if cfg_GenesisBlockNumber cfg > 0 then (Inr (cfg_GenesisBlockNumber cfg), w1)
                 else on_env (GetLatestBlock (ecp_ethClient ecp)) w1) of
             (Inl err, w2) \<Rightarrow>
               (Ret (Some (Errorf ''error getting latest block: %w'' (Some err))), w2)
           | (Inr startBlockNum, w2) \<Rightarrow>
               (case on_env (GetBlockByNumber (ecp_ethClient ecp) startBlockNum) w2 of
                  (Inl err, w3) \<Rightarrow>
                    (Ret (Some (Errorf ''couldn't get block %d: %w'' (Some err))), w3)
                | (Inr None, w3) \<Rightarrow> (Panic nil_dereference, w3)
                | (Inr (Some lastCanonBlock), w3) \<Rightarrow>
                    (case on_store (SaveBlock (ecp_store ecp)
                             (Some (record_of lastCanonBlock (cfg_ChainId cfg)))) w3 of
                       (Some err, w4) \<Rightarrow>
                         (Ret (Some (Errorf ''failed to save last processed block: %w'' (Some err))),
                          w4)
                     | (None, w4) \<Rightarrow> (Ret None, w4)))))"

text \<open>The poller as a value of the interface \<^verbatim>\<open>IChainPoller\<close>.\<close>

definition evm_chain_poller :: "('s, 'e) EVMChainPoller \<Rightarrow> ('s, 'e) IChainPoller" where
  "evm_chain_poller ecp = \<lparr>StartPoller = Start ecp\<rparr>"

text \<open>
  The poll loop \<^verbatim>\<open>pollForBlocks\<close> is a state machine: while it runs, a tick processes the next
  blocks and a cancelled context stops it; a panic in a tick ends the process, and so does
  \<^verbatim>\<open>time.NewTicker\<close> when the polling interval is not positive. Between the
  poller's own steps the environment moves freely (the chain grows or reorganises, contracts
  are registered).
\<close>

datatype poll_status = Running | Stopped | Crashed

inductive pollForBlocks ::
  "('s, 'e) EVMChainPoller \<Rightarrow> poll_status \<times> ('s, 'e) world \<Rightarrow> poll_status \<times> ('s, 'e) world \<Rightarrow> bool"
  for ecp :: "('s, 'e) EVMChainPoller" where
  tick: "processNextBlock ecp w = Some (Ret (), w') \<Longrightarrow>
      0 < sint (cfg_PollingInterval (ecp_config ecp)) \<Longrightarrow>
      pollForBlocks ecp (Running, w) (Running, w')"
| crash: "processNextBlock ecp w = Some (Panic p, w') \<Longrightarrow>
      0 < sint (cfg_PollingInterval (ecp_config ecp)) \<Longrightarrow>
      pollForBlocks ecp (Running, w) (Crashed, w')"
| cancelled: "0 < sint (cfg_PollingInterval (ecp_config ecp)) \<Longrightarrow>
      pollForBlocks ecp (Running, w) (Stopped, w)"
| no_ticker: "sint (cfg_PollingInterval (ecp_config ecp)) \<le> 0 \<Longrightarrow>
      pollForBlocks ecp (Running, w) (Crashed, w)"
| environment: "pollForBlocks ecp (st, w) (st, w\<lparr>w_env := e\<rparr>)"

inductive_cases pollForBlocks_stoppedE: "pollForBlocks ecp (Stopped, w) t"
inductive_cases pollForBlocks_crashedE: "pollForBlocks ecp (Crashed, w) t"
inductive_cases pollForBlocks_runningE: "pollForBlocks ecp (Running, w) t"

text \<open>The states the loop reaches from a given one.\<close>

inductive polls ::
  "('s, 'e) EVMChainPoller \<Rightarrow> poll_status \<times> ('s, 'e) world \<Rightarrow> poll_status \<times> ('s, 'e) world \<Rightarrow> bool"
  for ecp :: "('s, 'e) EVMChainPoller" where
  polls_refl: "polls ecp s s"
| polls_step: "polls ecp s t \<Longrightarrow> pollForBlocks ecp t u \<Longrightarrow> polls ecp s u"

text \<open>What the ticks and the moves of the environment keep holds in every state the loop reaches.\<close>

lemma polls_preserves:
  assumes "polls ecp s t" and "I (snd s)"
    and "\<And>w res w'. I w \<Longrightarrow> processNextBlock ecp w = Some (res, w') \<Longrightarrow> I w'"
    and "\<And>w e. I w \<Longrightarrow> I (w\<lparr>w_env := e\<rparr>)"
  shows "I (snd t)"
  using assms(1,2)
proof (induction rule: polls.induct)
  case (polls_step s t u)
  then have "I (snd t)" by blast
  with polls_step.hyps(2) show ?case
    by (cases rule: pollForBlocks.cases) (use assms(3,4) in auto)
qed

end
