(* ===== verification/Poller_Fetch.thy ===== *)
theory Poller_Fetch
  imports Chain_Poller
begin

text \<open>
  Correctness of the fetching half of the poller: which contracts are watched, how their
  addresses are split into requests, and what the concurrent requests deliver.
\<close>

section \<open>Splitting\<close>

text \<open>The reference: consecutive pieces of \<open>k\<close> elements, the last one possibly shorter.\<close>

fun chunks_of :: "nat \<Rightarrow> 'a list \<Rightarrow> 'a list list" where
  "chunks_of k xs = (if k = 0 \<or> xs = [] then [] else take k xs # chunks_of k (drop k xs))"

declare chunks_of.simps [simp del]

lemma chunks_of_Nil [simp]: "chunks_of k [] = []"
  by (simp add: chunks_of.simps)

lemma chunks_of_step: "0 < k \<Longrightarrow> xs \<noteq> [] \<Longrightarrow> chunks_of k xs = take k xs # chunks_of k (drop k xs)"
  by (subst chunks_of.simps) simp

lemma concat_chunks_of: "0 < k \<Longrightarrow> concat (chunks_of k xs) = xs"
proof (induction k xs rule: chunks_of.induct)
  case (1 k xs)
  then show ?case by (cases "xs = []") (simp_all add: chunks_of_step)
qed

lemma chunks_of_sizes: "c \<in> set (chunks_of k xs) \<Longrightarrow> 0 < length c \<and> length c \<le> k"
proof (induction k xs rule: chunks_of.induct)
  case (1 k xs)
  then show ?case by (cases "k = 0 \<or> xs = []") (auto simp: chunks_of.simps [of k xs])
qed

lemma length_chunks_of: "0 < k \<Longrightarrow> length (chunks_of k xs) = (length xs + k - 1) div k"
proof (induction k xs rule: chunks_of.induct)
  case (1 k xs)
  show ?case
  proof (cases "xs = []")
    case True
    with "1.prems" show ?thesis by simp
  next
    case False
    with 1 have "length (chunks_of k (drop k xs)) = (length xs - k + k - 1) div k" by simp
    moreover have "(length xs + k - 1) div k = Suc ((length xs - k + k - 1) div k)"
    proof (cases "length xs \<le> k")
      case True
      from False have "length xs + k - 1 = (length xs - 1) + k * 1" by (cases xs) auto
      then have "(length xs + k - 1) div k = 1"
        using True False "1.prems" by (simp only: div_mult_self2) simp
      then show ?thesis using True "1.prems" by simp
    next
      case False
      with "1.prems" have "length xs + k - 1 = (length xs - 1) + k * 1" by simp
      then have "(length xs + k - 1) div k = Suc ((length xs - 1) div k)"
        using "1.prems" by (simp only: div_mult_self2)
      with False show ?thesis by simp
    qed
    ultimately show ?thesis using False "1.prems" by (simp add: chunks_of_step)
  qed
qed

lemma chunk_loop_step:
  assumes "int (length xs) + sint cs \<le> 2 ^ 63" "0 < sint cs" "0 \<le> sint i"
    and "sint i < int (length xs)"
  shows "chunk_loop xs cs i =
    (case chunk_loop xs cs (i + cs) of
       Panic p \<Rightarrow> Panic p
     | Ret chunks \<Rightarrow> Ret (take (unat cs) (drop (unat i) xs) # chunks))"
    and "unat (i + cs) = unat i + unat cs" and "0 \<le> sint (i + cs)"
proof -
  have len: "sint (word_of_nat (length xs) :: go_int) = int (length xs)"
    and ulen: "unat (word_of_nat (length xs) :: go_int) = length xs"
    using assms by (simp_all add: sint_word_of_nat unat_word_of_nat_small)
  have add: "sint (i + cs) = sint i + sint cs"
    using assms by (intro sint_add_in_range) auto
  then show nonneg: "0 \<le> sint (i + cs)" using assms by simp
  show unat: "unat (i + cs) = unat i + unat cs"
    using add sint_nonneg_unat [OF nonneg] sint_nonneg_unat [of i] sint_nonneg_unat [of cs] assms
    by linarith
  have "cs \<noteq> 0" using assms(2) by auto
  then show "chunk_loop xs cs i =
    (case chunk_loop xs cs (i + cs) of
       Panic p \<Rightarrow> Panic p
     | Ret chunks \<Rightarrow> Ret (take (unat cs) (drop (unat i) xs) # chunks))"
    using assms(4) len ulen unat add sint_nonneg_unat [OF assms(3)] sint_nonneg_unat [of cs] assms(2)
    by (subst chunk_loop.simps)
      (auto simp: Let_def linorder_not_less simp del: of_nat_unat split: go.split)
qed

lemma chunk_loop_eq:
  assumes "int (length xs) + sint cs \<le> 2 ^ 63" "0 < sint cs" "0 \<le> sint i"
  shows "chunk_loop xs cs i = Ret (chunks_of (unat cs) (drop (unat i) xs))"
  using assms
proof (induction "length xs - unat i" arbitrary: i rule: less_induct)
  case less
  have cs: "0 < unat cs" using less.prems(2) sint_nonneg_unat [of cs] by linarith
  show ?case
  proof (cases "sint i < int (length xs)")
    case True
    note step = chunk_loop_step [OF less.prems True]
    have i: "unat i < length xs" using True sint_nonneg_unat [OF less.prems(3)] by linarith
    then have "chunk_loop xs cs (i + cs) = Ret (chunks_of (unat cs) (drop (unat (i + cs)) xs))"
      using cs by (intro less.hyps less.prems(1,2) step(3)) (simp add: step(2))
    then show ?thesis using step(1,2) cs i
      by (simp add: chunks_of_step [of "unat cs" "drop (unat i) xs"] add.commute)
  next
    case False
    then have "length xs \<le> unat i" using sint_nonneg_unat [OF less.prems(3)] by linarith
    moreover have "sint (word_of_nat (length xs) :: go_int) = int (length xs)"
      using less.prems by (simp add: sint_word_of_nat)
    ultimately show ?thesis using False by (subst chunk_loop.simps) (simp add: Let_def)
  qed
qed

text \<open>The size in effect: a size below 1 stands for the default.\<close>

definition effective_chunk_size :: "go_int \<Rightarrow> go_int" where
  "effective_chunk_size cs = (if sint cs \<le> 0 then DefaultMaxAddressesPerLogsRequest else cs)"

lemma effective_chunk_size_pos: "0 < sint (effective_chunk_size cs)"
  by (simp add: effective_chunk_size_def DefaultMaxAddressesPerLogsRequest_def)

lemma chunkAddresses_eq:
  assumes "int (length xs) + sint (effective_chunk_size cs) \<le> 2 ^ 63"
  shows "chunkAddresses xs cs = Ret (chunks_of (unat (effective_chunk_size cs)) xs)"
proof -
  let ?k = "effective_chunk_size cs"
  have pos: "0 < sint ?k" by (rule effective_chunk_size_pos)
  have len: "sint (word_of_nat (length xs) :: go_int) = int (length xs)"
    using assms pos by (simp add: sint_word_of_nat)
  have "0 \<le> sint (word_of_nat (length xs) + ?k - 1)"
    using sint_add_in_range [of "word_of_nat (length xs)" "?k - 1"]
      sint_add_in_range [of "?k" "-1"] sint_lt [of ?k] pos len assms
    by (simp add: diff_add_eq_diff_diff_swap add_diff_eq)
  then have "0 \<le> go_div (sint (word_of_nat (length xs) + ?k - 1)) (sint ?k)"
    using pos by (auto simp: go_div_def sgn_if intro: pos_imp_zdiv_nonneg_iff [THEN iffD2])
  moreover have "chunk_loop xs ?k 0 = Ret (chunks_of (unat ?k) xs)"
    using chunk_loop_eq [OF assms pos, of 0] by simp
  ultimately show ?thesis
    by (simp add: chunkAddresses_def Let_def flip: effective_chunk_size_def)
qed

section \<open>The watched contracts\<close>

lemma set_add_unseen [simp]: "set (add_unseen a r) = insert a (set r)"
  by (auto simp: add_unseen_def)

lemma distinct_add_unseen [simp]: "distinct r \<Longrightarrow> distinct (add_unseen a r)"
  by (simp add: add_unseen_def)

lemma fold_add_unseen:
  "set (fold add_unseen as r) = set r \<union> set as"
  "distinct r \<Longrightarrow> distinct (fold add_unseen as r)"
  by (induction as arbitrary: r) auto

lemma fold_add_static:
  "set (fold (\<lambda>c r. if c = [] then r else add_unseen (ToLower c) r) cs r) =
     set r \<union> ToLower ` (set cs - {[]})"
  "distinct r \<Longrightarrow> distinct (fold (\<lambda>c r. if c = [] then r else add_unseen (ToLower c) r) cs r)"
  by (induction cs arbitrary: r) auto

text \<open>The addresses a poller watches: the configured ones and those of its registry.\<close>

definition watched :: "('s, 'e) EVMChainPoller \<Rightarrow> 'e \<Rightarrow> string set" where
  "watched ecp e = ToLower ` (set (cfg_InterestingContracts (ecp_config ecp)) - {[]}) \<union>
     (case ecp_contractRegistry ecp of None \<Rightarrow> {} | Some r \<Rightarrow> set (ListRegistered r e))"

lemma set_listAllInterestingContracts [simp]:
  "set (listAllInterestingContracts ecp e) = watched ecp e"
  by (simp add: listAllInterestingContracts_def watched_def Let_def fold_add_unseen
      fold_add_static split: option.split)

lemma distinct_listAllInterestingContracts [simp]:
  "distinct (listAllInterestingContracts ecp e)"
  by (simp add: listAllInterestingContracts_def Let_def fold_add_unseen fold_add_static
      split: option.split)

section \<open>Concurrent requests\<close>

text \<open>
  A node that answers every log request for block \<open>n\<close>, in any environment state of \<open>J\<close>, with
  the logs of the block whose address is asked for, in block order.
\<close>

definition log_address :: "EthereumEventLog option \<Rightarrow> string" where
  "log_address l = (case l of None \<Rightarrow> [] | Some lg \<Rightarrow> el_Address lg)"

definition serves_logs ::
  "'e Client \<Rightarrow> ('e \<Rightarrow> bool) \<Rightarrow> uint64 \<Rightarrow> EthereumEventLog option list \<Rightarrow> bool" where
  "serves_logs C J n ls \<longleftrightarrow>
     (\<forall>e addrs. J e \<longrightarrow> (\<exists>e'. GetLogsForAddresses C addrs n n e =
        (Inr (filter (\<lambda>l. log_address l \<in> set addrs) ls), e') \<and> J e'))"

lemma fetch_batches_serves:
  assumes "serves_logs C J n ls" "J e"
  shows "\<exists>e'. fetch_batches C n batches is e =
    (map (\<lambda>i. filter (\<lambda>l. log_address l \<in> set (batches ! i)) ls) is, [], e') \<and> J e'"
  using assms(2)
proof (induction "is" arbitrary: e)
  case Nil
  then show ?case by simp
next
  case (Cons i "is")
  from assms(1) Cons.prems obtain e1 where
    e1: "GetLogsForAddresses C (batches ! i) n n e =
      (Inr (filter (\<lambda>l. log_address l \<in> set (batches ! i)) ls), e1)" "J e1"
    unfolding serves_logs_def by blast
  then show ?case using Cons.IH [OF e1(2)] by auto
qed

text \<open>Disjoint address lists split a filtered log list into parts.\<close>

lemma mset_filter_Un:
  "A \<inter> B = {} \<Longrightarrow> mset (filter (\<lambda>l. f l \<in> A \<or> f l \<in> B) ls) =
     mset (filter (\<lambda>l. f l \<in> A) ls) + mset (filter (\<lambda>l. f l \<in> B) ls)"
  by (induction ls) auto

lemma mset_filter_concat:
  "distinct (concat bs) \<Longrightarrow>
     mset (concat (map (\<lambda>b. filter (\<lambda>l. f l \<in> set b) ls) bs)) =
       mset (filter (\<lambda>l. f l \<in> set (concat bs)) ls)"
proof (induction bs)
  case Nil
  then show ?case by simp
next
  case (Cons b bs)
  then have "set b \<inter> set (concat bs) = {}" by simp
  from mset_filter_Un [OF this, of f ls] Cons show ?case by simp
qed

lemma fetch_all_batches_serves:
  assumes "serves_logs C J n ls" "J e" "distinct (concat batches)"
  shows "\<exists>res e'. fetch_batches C n batches (completion_order (length batches) sched) e =
      (res, [], e') \<and> J e' \<and>
      mset (concat res) = mset (filter (\<lambda>l. log_address l \<in> set (concat batches)) ls)"
proof -
  let ?part = "\<lambda>b. filter (\<lambda>l. log_address l \<in> set b) ls"
  let ?is = "completion_order (length batches) sched"
  have "mset (map (\<lambda>i. ?part (batches ! i)) ?is) = mset (map (\<lambda>i. ?part (batches ! i)) [0..<length batches])"
    by (rule mset_map_completion_order)
  also have "map (\<lambda>i. ?part (batches ! i)) [0..<length batches] = map ?part batches"
    by (simp add: map_nth flip: map_map [of ?part "(!) batches", unfolded comp_def])
  finally have "mset (concat (map (\<lambda>i. ?part (batches ! i)) ?is)) = mset (concat (map ?part batches))"
    by (rule mset_concat_cong)
  then show ?thesis
    using fetch_batches_serves [OF assms(1,2), of batches ?is] mset_filter_concat [OF assms(3)]
    by auto
qed

text \<open>The request size in effect for a poller is within the address space.\<close>

definition request_size_ok :: "('s, 'e) EVMChainPoller \<Rightarrow> 'e \<Rightarrow> bool" where
  "request_size_ok ecp e \<longleftrightarrow>
     int (length (listAllInterestingContracts ecp e)) +
       sint (effective_chunk_size (cfg_MaxAddressesPerLogsRequest (ecp_config ecp))) \<le> 2 ^ 63"

lemma fetchLogs_serves:
  assumes "serves_logs (ecp_ethClient ecp) J n ls" "J e" "request_size_ok ecp e"
  shows "\<exists>logs e'. fetchLogsForInterestingContractsForBlock ecp n e = (Ret (Inr logs), e') \<and> J e' \<and>
    mset logs = mset (filter (\<lambda>l. log_address l \<in> watched ecp e) ls)"
proof (cases "listAllInterestingContracts ecp e = []")
  case True
  then have "watched ecp e = {}" by (metis set_listAllInterestingContracts list.set(1))
  with True assms(2) show ?thesis
    by (simp add: fetchLogsForInterestingContractsForBlock_def)
next
  case False
  let ?as = "listAllInterestingContracts ecp e"
  let ?k = "effective_chunk_size (cfg_MaxAddressesPerLogsRequest (ecp_config ecp))"
  let ?bs = "chunks_of (unat ?k) ?as"
  have "0 < unat ?k"
    using effective_chunk_size_pos sint_nonneg_unat [of ?k]
    by (metis less_imp_le of_nat_0_less_iff)
  then have cat: "concat ?bs = ?as" by (rule concat_chunks_of)
  have "chunkAddresses ?as (cfg_MaxAddressesPerLogsRequest (ecp_config ecp)) = Ret ?bs"
    using assms(3) by (intro chunkAddresses_eq) (simp add: request_size_ok_def)
  then show ?thesis
    using False fetch_all_batches_serves [OF assms(1,2), of ?bs "ecp_schedule ecp e"] cat
    by (auto simp: fetchLogsForInterestingContractsForBlock_def)
qed

text \<open>
  Requests of which none gave an error: each was answered with logs, in the environment \<open>es ! i\<close> that the
  ones before it left.
\<close>

lemma fetch_batches_answers:
  "fetch_batches C n batches is e = (rs, [], e') \<Longrightarrow>
    \<exists>es. length es = Suc (length is) \<and> hd es = e \<and> last es = e' \<and> length rs = length is \<and>
      (\<forall>i < length is. GetLogsForAddresses C (batches ! (is ! i)) n n (es ! i) = (Inr (rs ! i), es ! Suc i))"
proof (induction "is" arbitrary: e rs)
  case Nil
  then show ?case by (intro exI [of _ "[e]"]) simp
next
  case (Cons j js)
  obtain res e1 where e1: "GetLogsForAddresses C (batches ! j) n n e = (res, e1)" by fastforce
  obtain rs1 errs e2 where rest: "fetch_batches C n batches js e1 = (rs1, errs, e2)" by (metis surj_pair)
  from Cons.prems e1 rest obtain ls where ls: "res = Inr ls" "rs = ls # rs1" "errs = []" "e2 = e'"
    by (cases res) auto
  obtain es where es: "length es = Suc (length js)" "hd es = e1" "last es = e'" "length rs1 = length js"
    "\<forall>i < length js. GetLogsForAddresses C (batches ! (js ! i)) n n (es ! i) = (Inr (rs1 ! i), es ! Suc i)"
    using Cons.IH rest ls by blast
  have "es ! 0 = e1" using es(1,2) by (cases es) simp_all
  then have "GetLogsForAddresses C (batches ! ((j # js) ! i)) n n ((e # es) ! i) = (Inr (rs ! i), (e # es) ! Suc i)"
    if "i < length (j # js)" for i
    using that es(5) e1 ls by (cases i) simp_all
  moreover have "last (e # es) = e'" using es(1,3) by (cases es) simp_all
  ultimately show ?case using es(1,4) ls(2) by (intro exI [of _ "e # es"]) simp
qed

lemma fetchLogs_answers:
  assumes "fetchLogsForInterestingContractsForBlock ecp n e = (Ret (Inr logs), e')"
    and "listAllInterestingContracts ecp e \<noteq> []"
  obtains batches order es rs where
    "chunkAddresses (listAllInterestingContracts ecp e)
       (cfg_MaxAddressesPerLogsRequest (ecp_config ecp)) = Ret batches"
    "mset order = mset [0..<length batches]" "length rs = length batches" "logs = concat rs"
    "length es = Suc (length batches)" "hd es = e" "last es = e'"
    "\<And>i. i < length batches \<Longrightarrow>
      GetLogsForAddresses (ecp_ethClient ecp) (batches ! (order ! i)) n n (es ! i) = (Inr (rs ! i), es ! Suc i)"
proof -
  obtain batches where b: "chunkAddresses (listAllInterestingContracts ecp e)
      (cfg_MaxAddressesPerLogsRequest (ecp_config ecp)) = Ret batches"
    using assms by (auto simp: fetchLogsForInterestingContractsForBlock_def split: go.splits)
  let ?order = "completion_order (length batches) (ecp_schedule ecp e)"
  obtain rs errs e1 where f: "fetch_batches (ecp_ethClient ecp) n batches ?order e = (rs, errs, e1)"
    by (metis surj_pair)
  with assms b have res: "errs = []" "logs = concat rs" "e1 = e'"
    by (auto simp: fetchLogsForInterestingContractsForBlock_def split: if_splits)
  have "length ?order = length batches"
    using mset_completion_order [of "length batches" "ecp_schedule ecp e"] by (metis diff_zero length_upt size_mset)
  with fetch_batches_answers [of "ecp_ethClient ecp" n batches ?order e rs e'] f res
  obtain es where "length es = Suc (length batches)" "hd es = e" "last es = e'" "length rs = length batches"
    "\<forall>i < length batches. GetLogsForAddresses (ecp_ethClient ecp) (batches ! (?order ! i)) n n (es ! i) =
       (Inr (rs ! i), es ! Suc i)"
    by auto
  with that [of batches ?order rs es] b res(2) show thesis by simp
qed

end
