(* ===== verification/Poller_Reorg.thy ===== *)
theory Poller_Reorg
  imports Chain_Poller
begin

text \<open>
  Reconciliation of a chain reorganisation, for any store that keeps the contract
  \<open>persistence\<close> and any client that serves a stable canonical chain while it runs.
\<close>

section \<open>Vocabulary\<close>

text \<open>The numbers from \<open>p\<close> down to just above \<open>q\<close>.\<close>

definition down :: "uint64 \<Rightarrow> uint64 \<Rightarrow> uint64 list" where
  "down p q = map word_of_nat (rev [Suc (unat q)..<Suc (unat p)])"

lemma down_refl [simp]: "down p p = []"
  by (simp add: down_def)

lemma unat_pred_of_less: "q < (p :: uint64) \<Longrightarrow> Suc (unat (p - 1)) = unat p"
  by (metis unat_minus_one Suc_pred' unat_gt_0 word_gt_0 word_not_simps(1))

lemma down_step: "q < p \<Longrightarrow> down p q = p # down (p - 1) q"
proof -
  assume "q < p"
  then have "Suc (unat q) \<le> unat p" by (simp add: word_less_nat_alt)
  with unat_pred_of_less [OF \<open>q < p\<close>] show ?thesis
    by (simp add: down_def)
qed

lemma set_down: "set (down p q) = {i. q < i \<and> i \<le> p}"
proof (intro set_eqI iffI)
  fix i assume "i \<in> set (down p q)"
  then obtain n where n: "i = word_of_nat n" "Suc (unat q) \<le> n" "n < Suc (unat p)"
    by (auto simp: down_def simp del: upt_Suc)
  then have "unat i = n" using unat_uint64_bound [of p] by (simp add: unat_of_nat)
  with n show "i \<in> {i. q < i \<and> i \<le> p}" by (simp add: word_less_nat_alt word_le_nat_alt)
next
  fix i assume "i \<in> {i. q < i \<and> i \<le> p}"
  then have "unat i \<in> set (rev [Suc (unat q)..<Suc (unat p)])"
    by (auto simp: word_less_nat_alt word_le_nat_alt simp del: upt_Suc)
  then have "word_of_nat (unat i) \<in> set (down p q)"
    unfolding down_def set_map by (rule imageI)
  then show "i \<in> set (down p q)" by simp
qed

text \<open>
  A client that, in any environment state of \<open>J\<close>, serves the blocks 1 to \<open>m\<close> of a fixed
  chain, with their right numbers.
\<close>

definition serves_blocks ::
  "'e Client \<Rightarrow> ('e \<Rightarrow> bool) \<Rightarrow> (uint64 \<Rightarrow> EthereumBlock) \<Rightarrow> uint64 \<Rightarrow> bool" where
  "serves_blocks C J chain m \<longleftrightarrow>
     (\<forall>e n. J e \<longrightarrow> 0 < n \<longrightarrow> n \<le> m \<longrightarrow>
        (\<exists>e'. GetBlockByNumber C n e = (Inr (Some (chain n)), e') \<and> J e')) \<and>
     (\<forall>n. eb_Number (chain n) = n)"

lemma serves_blocksE:
  assumes "serves_blocks C J chain m" "J (w_env w)" "0 < n" "n \<le> m"
  obtains e' where "on_env (GetBlockByNumber C n) w = (Inr (Some (chain n)), w\<lparr>w_env := e'\<rparr>)" "J e'"
  using assms unfolding serves_blocks_def on_env_def by fastforce

text \<open>Every record is kept under its own chain and number.\<close>

definition records_wf :: "('s \<Rightarrow> ChainId \<Rightarrow> uint64 \<Rightarrow> BlockRecord option) \<Rightarrow> 's \<Rightarrow> bool" where
  "records_wf stored s \<longleftrightarrow>
     (\<forall>c n r. stored s c n = Some r \<longrightarrow> br_Number r = n \<and> br_ChainId r = c)"

section \<open>The search for orphaned blocks\<close>

context persistence
begin

text \<open>The records above \<open>q\<close> up to \<open>p\<close> are there and disagree with the canonical chain.\<close>

definition orphans :: "'s \<Rightarrow> ChainId \<Rightarrow> (uint64 \<Rightarrow> EthereumBlock) \<Rightarrow> uint64 \<Rightarrow> uint64 \<Rightarrow> bool" where
  "orphans s c chain q p \<longleftrightarrow>
     (\<forall>i. q < i \<longrightarrow> i \<le> p \<longrightarrow>
        (\<exists>r. stored s c i = Some r \<and> br_Hash r \<noteq> eb_Hash (chain i)))"

lemma findOrphaned_descend:
  assumes P: "ecp_store ecp = P" and c: "c = cfg_ChainId (ecp_config ecp)"
    and serves: "serves_blocks (ecp_ethClient ecp) J chain m" and m: "p \<le> m"
    and op: "opened (w_store w)" and J: "J (w_env w)"
    and orph: "orphans (w_store w) c chain q p" and qp: "q \<le> p"
    and depth: "\<And>i. q < i \<Longrightarrow> i \<le> p \<Longrightarrow> st - i \<le> d"
  shows "\<exists>e'. J e' \<and> findOrphaned_loop ecp st d p prev acc w =
    findOrphaned_loop ecp st d q
      (if q = p then prev else stored (w_store w) c (q + 1))
      (acc @ map (\<lambda>i. the (stored (w_store w) c i)) (down p q)) (w\<lparr>w_env := e'\<rparr>)"
  using m orph qp depth op J
proof (induction "unat p - unat q" arbitrary: p prev acc w)
  case 0
  then have "p = q" by (simp add: word_le_nat_alt word_unat_eq_iff)
  with 0 show ?case by (intro exI [of _ "w_env w"]) simp
next
  case (Suc x)
  then have less: "q < p" by (auto simp: word_less_nat_alt)
  then have pos: "0 < p" by (metis word_gt_0 word_not_simps(1))
  obtain r where r: "stored (w_store w) c p = Some r" "br_Hash r \<noteq> eb_Hash (chain p)"
    using Suc.prems(2) less unfolding orphans_def by blast
  obtain e1 where e1: "on_env (GetBlockByNumber (ecp_ethClient ecp) p) w =
      (Inr (Some (chain p)), w\<lparr>w_env := e1\<rparr>)" "J e1"
    using serves_blocksE [OF serves Suc.prems(6) pos Suc.prems(1)] by blast
  have step: "findOrphaned_loop ecp st d p prev acc w =
      findOrphaned_loop ecp st d (p - 1) (Some r) (acc @ [r]) (w\<lparr>w_env := e1\<rparr>)"
    using pos Suc.prems(4) [OF less order_refl] e1(1) r P Suc.prems(5)
    by (subst findOrphaned_loop.simps) (simp add: on_store_def get_law flip: c)
  have pred: "Suc (unat (p - 1)) = unat p" by (rule unat_pred_of_less [OF less])
  then have bounds: "p - 1 \<le> p" "q \<le> p - 1"
    using less by (simp_all add: word_le_nat_alt word_less_nat_alt)
  let ?w1 = "w\<lparr>w_env := e1\<rparr>"
  have o1: "orphans (w_store ?w1) c chain q (p - 1)"
    using Suc.prems(2) order_trans [OF _ bounds(1)] unfolding orphans_def by simp
  have d1: "\<And>i. q < i \<Longrightarrow> i \<le> p - 1 \<Longrightarrow> st - i \<le> d"
    using Suc.prems(4) order_trans [OF _ bounds(1)] by blast
  have x1: "x = unat (p - 1) - unat q" using Suc.hyps(2) pred by linarith
  have m1: "p - 1 \<le> m" using bounds(1) Suc.prems(1) by (rule order_trans)
  have s1: "opened (w_store ?w1)" "J (w_env ?w1)" using Suc.prems(5) e1(2) by simp_all
  obtain e2 where e2: "J e2" "findOrphaned_loop ecp st d (p - 1) (Some r) (acc @ [r]) ?w1 =
    findOrphaned_loop ecp st d q (if q = p - 1 then Some r else stored (w_store ?w1) c (q + 1))
      ((acc @ [r]) @ map (\<lambda>i. the (stored (w_store ?w1) c i)) (down (p - 1) q))
      (?w1\<lparr>w_env := e2\<rparr>)"
    using Suc.hyps(1) [OF x1 m1 o1 bounds(2) d1 s1, of "Some r" "acc @ [r]"] by metis
  have "(if q = p - 1 then Some r else stored (w_store ?w1) c (q + 1)) =
      (if q = p then prev else stored (w_store w) c (q + 1))"
    using r(1) less by auto
  moreover have "(acc @ [r]) @ map (\<lambda>i. the (stored (w_store ?w1) c i)) (down (p - 1) q) =
      acc @ map (\<lambda>i. the (stored (w_store w) c i)) (down p q)"
    using r(1) by (simp add: down_step [OF less])
  moreover have "?w1\<lparr>w_env := e2\<rparr> = w\<lparr>w_env := e2\<rparr>" by simp
  ultimately show ?case
    using e2(1) unfolding step e2(2) by (intro exI [of _ e2]) (simp only: simp_thms)
qed

text \<open>The search ends at a record that agrees with the chain: it is saved again.\<close>

lemma findOrphaned_match:
  assumes P: "ecp_store ecp = P" and c: "c = cfg_ChainId (ecp_config ecp)"
    and serves: "serves_blocks (ecp_ethClient ecp) J chain m" and m: "a \<le> m"
    and op: "opened (w_store w)" and J: "J (w_env w)"
    and r: "stored (w_store w) c a = Some r" "br_Hash r = eb_Hash (chain a)"
    and guard: "st - a \<le> d" "0 < a"
  shows "\<exists>e' s'. J e' \<and> SaveBlock P (Some r) (w_store w) = (None, s') \<and>
    findOrphaned_loop ecp st d a prev acc w = ((acc, None), w\<lparr>w_env := e', w_store := s'\<rparr>)"
proof -
  obtain e1 where e1: "on_env (GetBlockByNumber (ecp_ethClient ecp) a) w =
      (Inr (Some (chain a)), w\<lparr>w_env := e1\<rparr>)" "J e1"
    using serves_blocksE [OF serves J guard(2) m] by blast
  obtain s' where s': "SaveBlock P (Some r) (w_store w) = (None, s')"
    using saveE [OF op, of r] by blast
  show ?thesis
    using guard e1 r P op s'
    by (intro exI [of _ e1] exI [of _ s'], subst findOrphaned_loop.simps) (simp add: on_store_def get_law flip: c)
qed

text \<open>The search ends at the depth limit or at block 0: the deepest record is saved.\<close>

lemma findOrphaned_exhausted:
  assumes P: "ecp_store ecp = P" and op: "opened (w_store w)"
    and guard: "\<not> (st - q \<le> d \<and> 0 < q)"
  shows "\<exists>s'. SaveBlock P (Some r) (w_store w) = (None, s') \<and>
    findOrphaned_loop ecp st d q (Some r) acc w = ((acc, None), w\<lparr>w_store := s'\<rparr>)"
proof -
  obtain s' where "SaveBlock P (Some r) (w_store w) = (None, s')"
    using saveE [OF op, of r] by blast
  then show ?thesis
    using guard P by (subst findOrphaned_loop.simps) (auto simp: on_store_def)
qed

section \<open>Deleting the orphaned blocks\<close>

definition deletes_all :: "'s \<Rightarrow> ChainId \<Rightarrow> uint64 set \<Rightarrow> 's \<Rightarrow> bool" where
  "deletes_all s c N s' \<longleftrightarrow> opened s' \<and> cursor s' = cursor s \<and>
     stored s' = (stored s)(c := (\<lambda>n. if n \<in> N then None else stored s c n))"

lemma delete_orphaned_eq:
  assumes P: "ecp_store ecp = P" and op: "opened (w_store w)"
    and chain: "\<forall>r \<in> set rs. br_ChainId r = c"
    and J: "J (w_env w)" and Jreorg: "\<And>n e. J e \<Longrightarrow> J (HandleReorgBlock (ecp_blockHandler ecp) n e)"
  shows "\<exists>s' e'. J e' \<and> deletes_all (w_store w) c (br_Number ` set rs) s' \<and>
    delete_orphaned ecp rs w = (None,
      \<lparr>w_store = s', w_env = e',
       w_calls = w_calls w @ map (\<lambda>r. CallHandleReorgBlock (br_Number r)) rs\<rparr>)"
  using op chain J
proof (induction rs arbitrary: w)
  case Nil
  then show ?case by (intro exI [of _ "w_store w"] exI [of _ "w_env w"]) (simp add: deletes_all_def)
next
  case (Cons r rs)
  let ?w1 = "call_HandleReorgBlock ecp (br_Number r) w"
  obtain s1 where s1: "DeleteBlock P c (br_Number r) (w_store w) =
      (case stored (w_store w) c (br_Number r) of None \<Rightarrow> Some ErrNotFound | Some _ \<Rightarrow> None, s1)"
    "opened s1" "stored s1 = (stored (w_store w))(c := (stored (w_store w) c)(br_Number r := None))"
    "cursor s1 = cursor (w_store w)"
    using deleteE [OF Cons.prems(1), of c "br_Number r"] by blast
  let ?w2 = "?w1\<lparr>w_store := s1\<rparr>"
  have store: "w_store ?w1 = w_store w" by (simp add: call_HandleReorgBlock_def)
  have "on_store (DeleteBlock (ecp_store ecp) (br_ChainId r) (br_Number r)) ?w1 =
      (case stored (w_store w) c (br_Number r) of None \<Rightarrow> Some ErrNotFound | Some _ \<Rightarrow> None, ?w2)"
    using s1(1) P Cons.prems(2) by (simp add: on_store_def store)
  then have step: "delete_orphaned ecp (r # rs) w = delete_orphaned ecp rs ?w2"
    by (simp split: option.split)
  have J2: "J (w_env ?w2)" using Cons.prems(3) by (simp add: call_HandleReorgBlock_def Jreorg)
  have "opened (w_store ?w2)" "\<forall>r \<in> set rs. br_ChainId r = c" using s1(2) Cons.prems(2) by simp_all
  from Cons.IH [OF this J2] obtain s' e' where IH: "J e'" "deletes_all s1 c (br_Number ` set rs) s'"
    "delete_orphaned ecp rs ?w2 = (None, \<lparr>w_store = s', w_env = e',
       w_calls = w_calls ?w2 @ map (\<lambda>r. CallHandleReorgBlock (br_Number r)) rs\<rparr>)"
    by auto
  have "deletes_all (w_store w) c (br_Number ` set (r # rs)) s'"
    using IH(2) s1 by (auto simp: deletes_all_def fun_eq_iff)
  with IH step show ?case
    by (intro exI [of _ s'] exI [of _ e']) (simp add: call_HandleReorgBlock_def)
qed

section \<open>Reconciliation\<close>

text \<open>The distance the depth limit is compared with.\<close>

lemma depth_mono: "a \<le> i \<Longrightarrow> i \<le> (st :: uint64) \<Longrightarrow> st - a \<le> d \<Longrightarrow> st - i \<le> d"
  using unat_sub [of a st] unat_sub [of i st] order_trans [of a i st]
  by (simp add: word_le_nat_alt)

lemma orphan_records:
  assumes "orphans s c chain q p" "records_wf stored s"
  shows "map (\<lambda>r. CallHandleReorgBlock (br_Number r)) (map (\<lambda>i. the (stored s c i)) (down p q)) =
      map CallHandleReorgBlock (down p q)"
    and "br_Number ` set (map (\<lambda>i. the (stored s c i)) (down p q)) = {i. q < i \<and> i \<le> p}"
    and "\<forall>r \<in> set (map (\<lambda>i. the (stored s c i)) (down p q)). br_ChainId r = c"
proof -
  have rec: "br_Number (the (stored s c i)) = i \<and> br_ChainId (the (stored s c i)) = c"
    if "i \<in> set (down p q)" for i
    using assms that unfolding orphans_def records_wf_def set_down by fastforce
  then show "map (\<lambda>r. CallHandleReorgBlock (br_Number r)) (map (\<lambda>i. the (stored s c i)) (down p q)) =
      map CallHandleReorgBlock (down p q)" by simp
  have "br_Number ` set (map (\<lambda>i. the (stored s c i)) (down p q)) =
      (\<lambda>i. br_Number (the (stored s c i))) ` set (down p q)" by (simp add: image_image)
  also have "\<dots> = id ` set (down p q)" using rec by (intro image_cong) auto
  finally show "br_Number ` set (map (\<lambda>i. the (stored s c i)) (down p q)) = {i. q < i \<and> i \<le> p}"
    by (simp add: set_down)
  show "\<forall>r \<in> set (map (\<lambda>i. the (stored s c i)) (down p q)). br_ChainId r = c" using rec by auto
qed

text \<open>What follows a search that stopped above \<open>q\<close>: the records above are dropped.\<close>

definition dropped :: "'s \<Rightarrow> ChainId \<Rightarrow> uint64 \<Rightarrow> uint64 \<Rightarrow> 's \<Rightarrow> bool" where
  "dropped s c q k s' \<longleftrightarrow> opened s' \<and> stored s' = (stored s)
     (c := (\<lambda>n. if q < n \<and> n \<le> k then None else stored s c n))"

lemma dropped_cong: "stored s = stored t \<Longrightarrow> dropped s = dropped t"
  by (simp add: dropped_def fun_eq_iff)

lemma reconcile_after_search:
  assumes P: "ecp_store ecp = P"
    and Jreorg: "\<And>n e. J e \<Longrightarrow> J (HandleReorgBlock (ecp_blockHandler ecp) n e)"
    and wf: "records_wf stored (w_store w)" and orph: "orphans (w_store w) c chain q k" "q < k"
    and b: "eb_Number b = k + 1"
    and search: "findOrphaned_loop ecp (k + 1) (cfg_MaxReorgDepth (ecp_config ecp)) k None [] w =
      ((map (\<lambda>i. the (stored (w_store w) c i)) (down k q), None), w\<lparr>w_env := e2, w_store := s2\<rparr>)"
    and s2: "J e2" "opened s2"
  shows "\<exists>s' e'. J e' \<and> dropped s2 c q k s' \<and> cursor s' = cursor s2 \<and>
    reconcileReorg ecp b w = (None,
      \<lparr>w_store = s', w_env = e',
       w_calls = w_calls w @ map CallHandleReorgBlock (down k q)\<rparr>)"
proof -
  let ?rs = "map (\<lambda>i. the (stored (w_store w) c i)) (down k q)"
  let ?w2 = "w\<lparr>w_env := e2, w_store := s2\<rparr>"
  note recs = orphan_records [OF orph(1) wf]
  have "opened (w_store ?w2)" "J (w_env ?w2)" using s2 by simp_all
  from delete_orphaned_eq [OF P this(1) recs(3) this(2) Jreorg] obtain s3 e3 where
    s3: "J e3" "deletes_all s2 c {i. q < i \<and> i \<le> k} s3" "delete_orphaned ecp ?rs ?w2 = (None,
      \<lparr>w_store = s3, w_env = e3, w_calls = w_calls w @ map CallHandleReorgBlock (down k q)\<rparr>)"
    unfolding recs(1,2) by auto
  have "?rs \<noteq> []" using orph(2) by (simp add: down_step)
  then have "reconcileReorg ecp b w = delete_orphaned ecp ?rs ?w2"
    using search b by (simp add: reconcileReorg_def findOrphanedBlocks_def)
  with s3 show ?thesis
    by (intro exI [of _ s3] exI [of _ e3]) (simp add: deletes_all_def dropped_def)
qed

text \<open>
  A fork: the record at \<open>a\<close> agrees with the chain, those above disagree. Within the
  depth limit the records above \<open>a\<close> are deleted and announced from the top down, and \<open>a\<close> is
  the block processed last.
\<close>

lemma reconcile_fork:
  assumes P: "ecp_store ecp = P" and c: "c = cfg_ChainId (ecp_config ecp)"
    and serves: "serves_blocks (ecp_ethClient ecp) J chain k"
    and Jreorg: "\<And>n e. J e \<Longrightarrow> J (HandleReorgBlock (ecp_blockHandler ecp) n e)"
    and op: "opened (w_store w)" and J: "J (w_env w)" and wf: "records_wf stored (w_store w)"
    and r: "stored (w_store w) c a = Some r" "br_Hash r = eb_Hash (chain a)"
    and orph: "orphans (w_store w) c chain a k" and a: "0 < a" "a < k"
    and b: "eb_Number b = k + 1" "k < - 1"
    and depth: "k + 1 - a \<le> cfg_MaxReorgDepth (ecp_config ecp)"
  shows "\<exists>s' e'. J e' \<and> dropped (w_store w) c a k s' \<and> cursor s' = (cursor (w_store w))(c \<mapsto> a) \<and>
    reconcileReorg ecp b w = (None,
      \<lparr>w_store = s', w_env = e',
       w_calls = w_calls w @ map CallHandleReorgBlock (down k a)\<rparr>)"
proof -
  let ?st = "k + 1" and ?d = "cfg_MaxReorgDepth (ecp_config ecp)"
  let ?rs = "map (\<lambda>i. the (stored (w_store w) c i)) (down k a)"
  have kst: "k \<le> ?st" using unat_Suc_less_max [OF b(2)] by (simp add: word_le_nat_alt)
  then have depths: "\<And>i. a < i \<Longrightarrow> i \<le> k \<Longrightarrow> ?st - i \<le> ?d"
    using depth_mono [of a _ ?st ?d] depth by auto
  obtain e1 where e1: "J e1" "findOrphaned_loop ecp ?st ?d k None [] w =
      findOrphaned_loop ecp ?st ?d a (if a = k then None else stored (w_store w) c (a + 1)) ?rs
        (w\<lparr>w_env := e1\<rparr>)"
    using findOrphaned_descend [OF P c serves order_refl op J orph less_imp_le [OF a(2)] depths,
        of None "[]"] by auto
  have "opened (w_store (w\<lparr>w_env := e1\<rparr>))" "J (w_env (w\<lparr>w_env := e1\<rparr>))"
    "stored (w_store (w\<lparr>w_env := e1\<rparr>)) c a = Some r" using op e1(1) r(1) by simp_all
  from findOrphaned_match [OF P c serves less_imp_le [OF a(2)] this r(2) depth a(1), where acc = ?rs
      and prev = "if a = k then None else stored (w_store w) c (a + 1)"] e1(2)
  obtain e2 s2 where s2: "J e2" "SaveBlock P (Some r) (w_store w) = (None, s2)"
    "findOrphaned_loop ecp ?st ?d k None [] w = ((?rs, None), w\<lparr>w_env := e2, w_store := s2\<rparr>)"
    by auto
  have "br_Number r = a" "br_ChainId r = c" using wf r(1) by (auto simp: records_wf_def)
  then have "opened s2" "stored s2 = stored (w_store w)" "cursor s2 = (cursor (w_store w))(c \<mapsto> a)"
    using saveD [OF op s2(2)] r(1) by (simp_all add: fun_upd_idem)
  then show ?thesis
    using reconcile_after_search [OF P Jreorg wf orph a(2) b(1) s2(3) s2(1)]
      dropped_cong [of s2 "w_store w"] by simp
qed

text \<open>
  A fork deeper than the limit, or down to block 1: every record the search visits disagrees.
  The deepest of them is saved as the block processed last and then deleted with the others.
\<close>

lemma reconcile_too_deep:
  assumes P: "ecp_store ecp = P" and c: "c = cfg_ChainId (ecp_config ecp)"
    and serves: "serves_blocks (ecp_ethClient ecp) J chain k"
    and Jreorg: "\<And>n e. J e \<Longrightarrow> J (HandleReorgBlock (ecp_blockHandler ecp) n e)"
    and op: "opened (w_store w)" and J: "J (w_env w)" and wf: "records_wf stored (w_store w)"
    and orph: "orphans (w_store w) c chain q k" "q < k"
    and b: "eb_Number b = k + 1" "k < - 1"
    and visited: "k - q \<le> cfg_MaxReorgDepth (ecp_config ecp)"
    and limit: "q = 0 \<or> cfg_MaxReorgDepth (ecp_config ecp) < k + 1 - q"
  shows "\<exists>s' e'. J e' \<and> dropped (w_store w) c q k s' \<and>
    cursor s' = (cursor (w_store w))(c \<mapsto> q + 1) \<and>
    reconcileReorg ecp b w = (None,
      \<lparr>w_store = s', w_env = e',
       w_calls = w_calls w @ map CallHandleReorgBlock (down k q)\<rparr>)"
proof -
  let ?st = "k + 1" and ?d = "cfg_MaxReorgDepth (ecp_config ecp)"
  let ?rs = "map (\<lambda>i. the (stored (w_store w) c i)) (down k q)"
  have kst: "k \<le> ?st" using unat_Suc_less_max [OF b(2)] by (simp add: word_le_nat_alt)
  have q1: "q < q + 1" "q + 1 \<le> k"
    using orph(2) unat_Suc_less_max [of q] b(2) by (simp_all add: word_le_nat_alt word_less_nat_alt)
  have depths: "\<And>i. q < i \<Longrightarrow> i \<le> k \<Longrightarrow> ?st - i \<le> ?d"
  proof -
    fix i assume "q < i" "i \<le> k"
    moreover from \<open>q < i\<close> have "q + 1 \<le> i"
      using unat_Suc_less_max [of q] q1 by (metis inc_le)
    ultimately show "?st - i \<le> ?d"
      using depth_mono [of "q + 1" i ?st ?d] visited kst by auto
  qed
  obtain r where r: "stored (w_store w) c (q + 1) = Some r"
    using orph(1) q1 unfolding orphans_def by blast
  have prev: "(if q = k then None else stored (w_store w) c (q + 1)) = Some r"
    using r orph(2) by simp
  obtain e1 where e1: "J e1" "findOrphaned_loop ecp ?st ?d k None [] w =
      findOrphaned_loop ecp ?st ?d q (Some r) ?rs (w\<lparr>w_env := e1\<rparr>)"
    using findOrphaned_descend [OF P c serves order_refl op J orph(1) less_imp_le [OF orph(2)] depths,
        of None "[]", unfolded prev] by auto
  have "opened (w_store (w\<lparr>w_env := e1\<rparr>))" "\<not> (?st - q \<le> ?d \<and> 0 < q)"
    using op limit by auto
  from findOrphaned_exhausted [OF P this, where acc = ?rs and r = r] e1(2) obtain s2 where
    s2: "SaveBlock P (Some r) (w_store w) = (None, s2)"
      "findOrphaned_loop ecp ?st ?d k None [] w = ((?rs, None), w\<lparr>w_env := e1, w_store := s2\<rparr>)"
    by auto
  have "br_Number r = q + 1" "br_ChainId r = c" using wf r by (auto simp: records_wf_def)
  then have "opened s2" "stored s2 = stored (w_store w)"
    "cursor s2 = (cursor (w_store w))(c \<mapsto> q + 1)"
    using saveD [OF op s2(1)] r by (simp_all add: fun_upd_idem)
  then show ?thesis
    using reconcile_after_search [OF P Jreorg wf orph b(1) s2(2) e1(1)]
      dropped_cong [of s2 "w_store w"] by simp
qed

text \<open>
  A record missing below the orphaned ones: the search takes the canonical block for it and saves
  it under the chain id the client left in that block, which here is another chain.
\<close>

lemma findOrphaned_missing:
  assumes P: "ecp_store ecp = P" and c: "c = cfg_ChainId (ecp_config ecp)"
    and serves: "serves_blocks (ecp_ethClient ecp) J chain m" and m: "q \<le> m"
    and op: "opened (w_store w)" and J: "J (w_env w)"
    and missing: "stored (w_store w) c q = None" and other: "eb_ChainId (chain q) \<noteq> c"
    and guard: "st - q \<le> d" "0 < q"
  shows "\<exists>e' s'. J e' \<and> opened s' \<and> stored s' c = stored (w_store w) c \<and>
    cursor s' c = cursor (w_store w) c \<and>
    findOrphaned_loop ecp st d q prev acc w = ((acc, None), w\<lparr>w_env := e', w_store := s'\<rparr>)"
proof -
  let ?r = "record_of (chain q) (eb_ChainId (chain q))"
  obtain e1 where e1: "on_env (GetBlockByNumber (ecp_ethClient ecp) q) w =
      (Inr (Some (chain q)), w\<lparr>w_env := e1\<rparr>)" "J e1"
    using serves_blocksE [OF serves J guard(2) m] by blast
  obtain s1 where s1: "SaveBlock P (Some ?r) (w_store w) = (None, s1)"
    using saveE [OF op, of ?r] by blast
  note s1s = saveD [OF op s1]
  obtain s2 where s2: "SaveBlock P (Some ?r) s1 = (None, s2)"
    using saveE [OF s1s(2), of ?r] by blast
  note s2s = saveD [OF s1s(2) s2]
  have "findOrphaned_loop ecp st d q prev acc w = ((acc, None), w\<lparr>w_env := e1, w_store := s2\<rparr>)"
    using guard e1(1) missing P op s1 s2
    by (subst findOrphaned_loop.simps)
      (simp add: on_store_def get_law record_of_def flip: c)
  with e1(2) s1s s2s other show ?thesis
    by (intro exI [of _ e1] exI [of _ s2]) (simp add: record_of_def)
qed

lemma reconcile_missing:
  assumes P: "ecp_store ecp = P" and c: "c = cfg_ChainId (ecp_config ecp)"
    and serves: "serves_blocks (ecp_ethClient ecp) J chain k"
    and Jreorg: "\<And>n e. J e \<Longrightarrow> J (HandleReorgBlock (ecp_blockHandler ecp) n e)"
    and op: "opened (w_store w)" and J: "J (w_env w)" and wf: "records_wf stored (w_store w)"
    and orph: "orphans (w_store w) c chain q k" and q: "0 < q" "q < k"
    and b: "eb_Number b = k + 1" "k < - 1"
    and missing: "stored (w_store w) c q = None" and other: "eb_ChainId (chain q) \<noteq> c"
    and depth: "k + 1 - q \<le> cfg_MaxReorgDepth (ecp_config ecp)"
  shows "\<exists>s' e'. J e' \<and> opened s' \<and> cursor s' c = cursor (w_store w) c \<and> stored s' c k = None \<and>
    reconcileReorg ecp b w = (None,
      \<lparr>w_store = s', w_env = e',
       w_calls = w_calls w @ map CallHandleReorgBlock (down k q)\<rparr>)"
proof -
  let ?st = "k + 1" and ?d = "cfg_MaxReorgDepth (ecp_config ecp)"
  let ?rs = "map (\<lambda>i. the (stored (w_store w) c i)) (down k q)"
  have kst: "k \<le> ?st" using unat_Suc_less_max [OF b(2)] by (simp add: word_le_nat_alt)
  then have depths: "\<And>i. q < i \<Longrightarrow> i \<le> k \<Longrightarrow> ?st - i \<le> ?d"
    using depth_mono [of q _ ?st ?d] depth by auto
  obtain e1 where e1: "J e1" "findOrphaned_loop ecp ?st ?d k None [] w =
      findOrphaned_loop ecp ?st ?d q (if q = k then None else stored (w_store w) c (q + 1)) ?rs
        (w\<lparr>w_env := e1\<rparr>)"
    using findOrphaned_descend [OF P c serves order_refl op J orph less_imp_le [OF q(2)] depths,
        of None "[]"] by auto
  have "opened (w_store (w\<lparr>w_env := e1\<rparr>))" "J (w_env (w\<lparr>w_env := e1\<rparr>))"
    "stored (w_store (w\<lparr>w_env := e1\<rparr>)) c q = None" using op e1(1) missing by simp_all
  from findOrphaned_missing [OF P c serves less_imp_le [OF q(2)] this other depth q(1), where acc = ?rs
      and prev = "if q = k then None else stored (w_store w) c (q + 1)"] e1(2)
  obtain e2 s2 where s2: "J e2" "opened s2" "stored s2 c = stored (w_store w) c"
    "cursor s2 c = cursor (w_store w) c"
    "findOrphaned_loop ecp ?st ?d k None [] w = ((?rs, None), w\<lparr>w_env := e2, w_store := s2\<rparr>)"
    by auto
  then show ?thesis
    using reconcile_after_search [OF P Jreorg wf orph q(2) b(1) s2(5,1,2)] q(2)
    by (auto simp: dropped_def)
qed

section \<open>A cursor without a record\<close>

text \<open>
  When the block processed last has no record, every tick ends at its first test: nothing is
  fetched, handled or stored any more.
\<close>

definition dangling :: "'s \<Rightarrow> ChainId \<Rightarrow> bool" where
  "dangling s c \<longleftrightarrow> opened s \<and> Option.bind (cursor s c) (stored s c) = None"

lemma processNextBlock_dangling:
  assumes "ecp_store ecp = P" "dangling (w_store w) (cfg_ChainId (ecp_config ecp))"
  shows "processNextBlock ecp w = Some (Ret (), w)"
  using assms by (simp add: processNextBlock_def dangling_def on_store_def last_law)

lemma polls_dangling:
  assumes P: "ecp_store ecp = P" and "polls ecp (st, w) t"
    and "dangling (w_store w) (cfg_ChainId (ecp_config ecp))"
  shows "w_store (snd t) = w_store w \<and> w_calls (snd t) = w_calls w"
  using polls_preserves [OF assms(2), where I = "\<lambda>v. w_store v = w_store w \<and> w_calls v = w_calls w"]
    processNextBlock_dangling [OF P] assms(3) by fastforce

end

end
