(* ===== verification/Poller_Safety.thy ===== *)
theory Poller_Safety
  imports Chain_Poller
begin

text \<open>
  What a tick guarantees whatever the client, the handler, the parser and the store do: which
  calls each operation makes on the handler, that blocks are handed over along one hash-linked
  chain, and that a block is recorded only after all its logs were handled.
\<close>

section \<open>Calls of the operations\<close>

text \<open>The blocks handed to the application, in order.\<close>

fun handled_blocks :: "handler_call list \<Rightarrow> EthereumBlock list" where
  "handled_blocks [] = []"
| "handled_blocks (CallHandleBlock b # cs) = b # handled_blocks cs"
| "handled_blocks (_ # cs) = handled_blocks cs"

lemma handled_blocks_append [simp]:
  "handled_blocks (xs @ ys) = handled_blocks xs @ handled_blocks ys"
  by (induction xs rule: handled_blocks.induct) auto

lemma handled_blocks_reorgs [simp]: "handled_blocks (map CallHandleReorgBlock ns) = []"
  by (induction ns) auto

lemma on_env_frame [simp]:
  "w_calls (snd (on_env f w)) = w_calls w" "w_store (snd (on_env f w)) = w_store w"
  by (simp_all add: on_env_def split: prod.split)

lemma on_store_frame [simp]:
  "w_calls (snd (on_store f w)) = w_calls w" "w_env (snd (on_store f w)) = w_env w"
  by (simp_all add: on_store_def split: prod.split)

lemma on_envD: "on_env f w = (r, w') \<Longrightarrow> w_calls w' = w_calls w \<and> w_store w' = w_store w"
  by (metis on_env_frame snd_conv)

lemma on_storeD: "on_store f w = (r, w') \<Longrightarrow> w_calls w' = w_calls w \<and> w_env w' = w_env w"
  by (metis on_store_frame snd_conv)

lemma prune_old_frame [simp]:
  "w_calls (prune_old ecp r w) = w_calls w" "w_env (prune_old ecp r w) = w_env w"
  by (simp_all add: prune_old_def Let_def)

lemma call_HandleLogD:
  "call_HandleLog ecp l w = (r, w') \<Longrightarrow>
     w_calls w' = w_calls w @ [CallHandleLog l] \<and> w_store w' = w_store w"
  by (auto simp: call_HandleLog_def dest: on_envD)

lemma call_HandleBlockD:
  "call_HandleBlock ecp b w = (r, w') \<Longrightarrow>
     w_calls w' = w_calls w @ [CallHandleBlock b] \<and> w_store w' = w_store w"
  by (auto simp: call_HandleBlock_def dest: on_envD)

lemma findOrphaned_calls:
  "w_calls (snd (findOrphaned_loop ecp st d p prev acc w)) = w_calls w"
proof (induction ecp st d p prev acc w rule: findOrphaned_loop.induct)
  case (1 ecp st d p prev acc w)
  show ?case
    by (subst findOrphaned_loop.simps)
      (auto simp: "1.IH" Let_def dest!: on_envD on_storeD split: prod.split sum.split option.split)
qed

lemma delete_orphaned_calls:
  "\<exists>ns. w_calls (snd (delete_orphaned ecp rs w)) = w_calls w @ map CallHandleReorgBlock ns"
proof (induction rs arbitrary: w)
  case Nil
  show ?case by (intro exI [of _ "[]"]) simp
next
  case (Cons r rs)
  obtain e w1 where w1: "on_store (DeleteBlock (ecp_store ecp) (br_ChainId r) (br_Number r))
      (call_HandleReorgBlock ecp (br_Number r) w) = (e, w1)" by fastforce
  then have calls: "w_calls w1 = w_calls w @ [CallHandleReorgBlock (br_Number r)]"
    by (auto simp: call_HandleReorgBlock_def dest: on_storeD)
  from Cons.IH [of w1] obtain ns where
    "w_calls (snd (delete_orphaned ecp rs w1)) = w_calls w1 @ map CallHandleReorgBlock ns" by blast
  with w1 calls show ?case
    by (cases "case e of None \<Rightarrow> True | Some err \<Rightarrow> errors_Is err ErrNotFound")
      (auto split: option.splits intro: exI [of _ "br_Number r # ns"] exI [of _ "[br_Number r]"])
qed

lemma reconcileReorg_calls:
  "\<exists>ns. w_calls (snd (reconcileReorg ecp b w)) = w_calls w @ map CallHandleReorgBlock ns"
proof -
  obtain rs e w1 where w1: "findOrphanedBlocks ecp b (cfg_MaxReorgDepth (ecp_config ecp)) w =
      ((rs, e), w1)" by (metis surj_pair)
  then have "w_calls w1 = w_calls w"
    by (metis findOrphanedBlocks_def findOrphaned_calls snd_conv)
  with w1 delete_orphaned_calls [of ecp rs w1] show ?thesis
    by (cases e) (auto simp: reconcileReorg_def intro: exI [of _ "[]"])
qed

section \<open>The logs of a block\<close>

text \<open>The calls for a list of logs and what they decoded to.\<close>

definition log_calls ::
  "EthereumBlock \<Rightarrow> EthereumEventLog option list \<Rightarrow> DecodedLog option list \<Rightarrow> handler_call list" where
  "log_calls b logs ds =
     map2 (\<lambda>l d. CallHandleLog \<lparr>lwb_Log = d, lwb_RawLog = l, lwb_Block = b\<rparr>) logs ds"

lemma handled_blocks_log_calls [simp]: "handled_blocks (log_calls b logs ds) = []"
  by (induction logs ds rule: list_induct2') (auto simp: log_calls_def)

text \<open>Whatever the outcome, a prefix of the logs is handed over, in order.\<close>

lemma process_logs_prefix:
  "process_logs ecp b logs w = (res, w') \<Longrightarrow>
     \<exists>ds. length ds \<le> length logs \<and> w_store w' = w_store w \<and>
       w_calls w' = w_calls w @ log_calls b (take (length ds) logs) ds \<and>
       (res = Ret None \<longrightarrow> length ds = length logs)"
proof (induction logs arbitrary: w)
  case Nil
  then show ?case by (intro exI [of _ "[]"]) (auto simp: log_calls_def)
next
  case (Cons l logs)
  obtain res1 w1 where w1: "on_env (ParseLog (ecp_logParser ecp) l) w = (res1, w1)" by fastforce
  note frame1 = on_envD [OF w1]
  show ?case
  proof (cases "\<exists>d. res1 = Ret (d, None)")
    case False
    then have "w' = w1 \<and> res \<noteq> Ret None"
      using Cons.prems w1 by (auto split: go.splits prod.splits option.splits if_splits)
    with frame1 show ?thesis by (intro exI [of _ "[]"]) (simp add: log_calls_def)
  next
    case True
    then obtain d where d: "res1 = Ret (d, None)" ..
    let ?l = "\<lparr>lwb_Log = d, lwb_RawLog = l, lwb_Block = b\<rparr>"
    obtain err w2 where w2: "call_HandleLog ecp ?l w1 = (err, w2)" by fastforce
    note frame2 = call_HandleLogD [OF w2]
    show ?thesis
    proof (cases err)
      case (Some e)
      with Cons.prems w1 d w2 have "w' = w2" "res \<noteq> Ret None" by auto
      with frame1 frame2 show ?thesis by (intro exI [of _ "[d]"]) (simp add: log_calls_def)
    next
      case None
      with Cons.prems w1 d w2 have "process_logs ecp b logs w2 = (res, w')" by simp
      from Cons.IH [OF this] obtain ds where
        ds: "length ds \<le> length logs" "w_store w' = w_store w2"
          "w_calls w' = w_calls w2 @ log_calls b (take (length ds) logs) ds"
          "res = Ret None \<longrightarrow> length ds = length logs" by blast
      with frame1 frame2 show ?thesis
        by (intro exI [of _ "d # ds"]) (simp add: log_calls_def)
    qed
  qed
qed

text \<open>The block as its logs are handed over: with the poller's chain id.\<close>

abbreviation on_chain :: "('s, 'e) EVMChainPoller \<Rightarrow> EthereumBlock \<Rightarrow> EthereumBlock" where
  "on_chain ecp b \<equiv> b\<lparr>eb_ChainId := cfg_ChainId (ecp_config ecp)\<rparr>"

lemma processBlockLogs_saved:
  assumes "processBlockLogs ecp b w = (Ret (Inr r), w')"
  obtains logs e1 ds w2 where
    "fetchLogsForInterestingContractsForBlock ecp (eb_Number b) (w_env w) = (Ret (Inr logs), e1)"
    "length ds = length logs"
    "process_logs ecp (on_chain ecp b) logs (w\<lparr>w_env := e1\<rparr>) = (Ret None, w2)"
    "w_store w2 = w_store w" "w_calls w2 = w_calls w @ log_calls (on_chain ecp b) logs ds"
    "r = record_of b (cfg_ChainId (ecp_config ecp))"
    "w' = prune_old ecp r (snd (on_store (SaveBlock (ecp_store ecp) (Some r)) w2))"
proof -
  obtain res1 e1 where f: "fetchLogsForInterestingContractsForBlock ecp (eb_Number b) (w_env w) =
      (res1, e1)" by fastforce
  with assms obtain logs where logs: "res1 = Ret (Inr logs)"
    by (auto simp: processBlockLogs_def on_env_def split: go.splits sum.splits)
  obtain res2 w2 where p: "process_logs ecp (on_chain ecp b) logs (w\<lparr>w_env := e1\<rparr>) = (res2, w2)"
    by fastforce
  with assms f logs have "res2 = Ret None"
    by (auto simp: processBlockLogs_def on_env_def Let_def split: go.splits option.splits)
  with p obtain ds where ds: "length ds = length logs" "w_store w2 = w_store w"
    "w_calls w2 = w_calls w @ log_calls (on_chain ecp b) logs ds"
    using process_logs_prefix [OF p] by auto
  have "r = record_of b (cfg_ChainId (ecp_config ecp))"
    "w' = prune_old ecp r (snd (on_store (SaveBlock (ecp_store ecp) (Some r)) w2))"
    using assms f logs p \<open>res2 = Ret None\<close>
    by (auto simp: processBlockLogs_def on_env_def Let_def record_of_def split: prod.splits)
  with that f logs ds p \<open>res2 = Ret None\<close> show thesis by blast
qed

lemma processBlockLogs_calls:
  assumes "processBlockLogs ecp b w = (res, w')"
  shows "handled_blocks (w_calls w') = handled_blocks (w_calls w)"
    and "\<not> (\<exists>r. res = Ret (Inr r)) \<Longrightarrow> w_store w' = w_store w"
    and "\<exists>cs. w_calls w' = w_calls w @ cs"
proof -
  obtain res1 e1 where f: "fetchLogsForInterestingContractsForBlock ecp (eb_Number b) (w_env w) =
      (res1, e1)" by fastforce
  have unsaved: "handled_blocks (w_calls w') = handled_blocks (w_calls w) \<and> w_store w' = w_store w \<and>
      (\<exists>cs. w_calls w' = w_calls w @ cs)"
    if no: "\<not> (\<exists>r. res = Ret (Inr r))"
  proof (cases "\<exists>logs. res1 = Ret (Inr logs)")
    case True
    then obtain logs where logs: "res1 = Ret (Inr logs)" ..
    obtain res2 w2 where p: "process_logs ecp (on_chain ecp b) logs (w\<lparr>w_env := e1\<rparr>) = (res2, w2)"
      by fastforce
    have "w' = w2"
      using assms f logs p no
      by (auto simp: processBlockLogs_def on_env_def Let_def split: go.splits option.splits prod.splits)
    with process_logs_prefix [OF p] show ?thesis by auto
  next
    case False
    then show ?thesis
      using assms f by (auto simp: processBlockLogs_def on_env_def split: go.splits sum.splits)
  qed
  then show "\<not> (\<exists>r. res = Ret (Inr r)) \<Longrightarrow> w_store w' = w_store w" by blast
  have "handled_blocks (w_calls w') = handled_blocks (w_calls w) \<and> (\<exists>cs. w_calls w' = w_calls w @ cs)"
  proof (cases "\<exists>r. res = Ret (Inr r)")
    case True
    with assms obtain r where "processBlockLogs ecp b w = (Ret (Inr r), w')" by blast
    then show ?thesis by (rule processBlockLogs_saved) simp
  next
    case False
    with unsaved show ?thesis by blast
  qed
  then show "handled_blocks (w_calls w') = handled_blocks (w_calls w)" "\<exists>cs. w_calls w' = w_calls w @ cs"
    by simp_all
qed

section \<open>Blocks are handed over along one chain\<close>

text \<open>Each block's parent is the block before it; the first one's parent has the given hash.\<close>

fun linked :: "string \<Rightarrow> EthereumBlock list \<Rightarrow> bool" where
  "linked h [] = True"
| "linked h (b # bs) = (eb_ParentHash b = h \<and> linked (eb_Hash b) bs)"

lemma process_blocks_linked:
  "process_blocks ecp r ns w = (res, w') \<Longrightarrow>
     \<exists>bs. handled_blocks (w_calls w') = handled_blocks (w_calls w) @ bs \<and>
       linked (br_Hash r) bs \<and> length bs \<le> length ns"
proof (induction ns arbitrary: r w)
  case Nil
  then show ?case by auto
next
  case (Cons n ns)
  obtain res1 w1 where w1: "on_env (GetBlockByNumber (ecp_ethClient ecp) n) w = (res1, w1)"
    by fastforce
  then have calls1: "w_calls w1 = w_calls w" by (auto dest: on_envD)
  show ?case
  proof (cases "\<exists>b. res1 = Inr (Some b) \<and> eb_ParentHash b = br_Hash r")
    case False
    then consider "w' = w1" | b where "w' = snd (reconcileReorg ecp b w1)"
      using Cons.prems w1 by (auto split: sum.splits option.splits if_splits)
    then have "handled_blocks (w_calls w') = handled_blocks (w_calls w)"
      using reconcileReorg_calls [of ecp _ w1] calls1 by (metis append_Nil2 handled_blocks_append
          handled_blocks_reorgs)
    then show ?thesis by auto
  next
    case True
    then obtain b where b: "res1 = Inr (Some b)" "eb_ParentHash b = br_Hash r" by blast
    obtain e2 w2 where w2: "call_HandleBlock ecp b w1 = (e2, w2)" by fastforce
    obtain res3 w3 where w3: "processBlockLogs ecp b w2 = (res3, w3)" by fastforce
    have calls3: "handled_blocks (w_calls w3) = handled_blocks (w_calls w) @ [b]"
      using processBlockLogs_calls(1) [OF w3] call_HandleBlockD [OF w2] calls1 by simp
    show ?thesis
    proof (cases "\<exists>r'. res3 = Ret (Inr r')")
      case True
      then obtain r' where r': "res3 = Ret (Inr r')" ..
      with w3 have hash: "br_Hash r' = eb_Hash b"
        by (auto elim!: processBlockLogs_saved simp: record_of_def)
      from Cons.prems w1 b w2 w3 r' have "process_blocks ecp r' ns w3 = (res, w')" by simp
      from Cons.IH [OF this] obtain bs where
        "handled_blocks (w_calls w') = handled_blocks (w_calls w3) @ bs"
        "linked (br_Hash r') bs" "length bs \<le> length ns" by blast
      with calls3 hash b(2) show ?thesis by (intro exI [of _ "b # bs"]) simp
    next
      case False
      with Cons.prems w1 b w2 w3 have "w' = w3"
        by (auto split: go.splits sum.splits)
      with calls3 b(2) show ?thesis by (intro exI [of _ "[b]"]) simp
    qed
  qed
qed

section \<open>The end of the poll loop\<close>

text \<open>The states of the loop in the order it passes them; a loop that has ended does nothing more.\<close>

instantiation poll_status :: order
begin

definition less_eq_poll_status :: "poll_status \<Rightarrow> poll_status \<Rightarrow> bool" where
  "less_eq_poll_status s t \<longleftrightarrow> s = Running \<or> s = t"

definition less_poll_status :: "poll_status \<Rightarrow> poll_status \<Rightarrow> bool" where
  "less_poll_status s t \<longleftrightarrow> s = Running \<and> t \<noteq> Running"

instance
  by standard (auto simp: less_eq_poll_status_def less_poll_status_def)

end

lemma pollForBlocks_forward: "pollForBlocks ecp s t \<Longrightarrow> fst s \<le> fst t"
  by (induction rule: pollForBlocks.induct) (simp_all add: less_eq_poll_status_def)

lemma polls_forward: "polls ecp s t \<Longrightarrow> fst s \<le> fst t"
  by (induction rule: polls.induct) (auto dest: pollForBlocks_forward)

lemma polls_ended:
  "polls ecp s t \<Longrightarrow> Running < fst s \<Longrightarrow>
     fst t = fst s \<and> w_store (snd t) = w_store (snd s) \<and> w_calls (snd t) = w_calls (snd s)"
proof (induction rule: polls.induct)
  case (polls_step s t u)
  then have "fst t \<noteq> Running" by (simp add: less_poll_status_def)
  with polls_step show ?case by (cases rule: pollForBlocks.cases [OF polls_step.hyps(2)]) auto
qed simp

section \<open>Delivered blocks\<close>

text \<open>The announcement of a block followed at once by the logs fetched for it is among the calls.\<close>

definition delivered :: "('s, 'e) EVMChainPoller \<Rightarrow> handler_call list \<Rightarrow> BlockRecord \<Rightarrow> bool" where
  "delivered ecp calls r \<longleftrightarrow>
     (\<exists>b logs ds before after e e'. r = record_of b (cfg_ChainId (ecp_config ecp)) \<and>
        fetchLogsForInterestingContractsForBlock ecp (eb_Number b) e = (Ret (Inr logs), e') \<and>
        length ds = length logs \<and>
        calls = before @ CallHandleBlock b # log_calls (on_chain ecp b) logs ds @ after)"

lemma deliveredI:
  "r = record_of b (cfg_ChainId (ecp_config ecp)) \<Longrightarrow>
    fetchLogsForInterestingContractsForBlock ecp (eb_Number b) e = (Ret (Inr logs), e') \<Longrightarrow>
    length ds = length logs \<Longrightarrow>
    delivered ecp (calls @ CallHandleBlock b # log_calls (on_chain ecp b) logs ds) r"
  unfolding delivered_def by (metis append_Nil2)

lemma delivered_append: "delivered ecp calls r \<Longrightarrow> delivered ecp (calls @ cs) r"
  unfolding delivered_def by (metis append.assoc append_Cons)

end
