(* ===== verification/Poller_Index.thy ===== *)
theory Poller_Index
  imports Poller_Fetch Poller_Reorg Poller_Safety
begin

text \<open>
  Indexing: a tick brings the store from the block processed last to the head of the chain, for
  any store that keeps the contract and an environment that works (the node answers, the parser
  decodes, the handler accepts). The abstract specification is a fold over the new blocks.
\<close>

section \<open>Collecting the numbers to fetch\<close>

text \<open>The numbers above \<open>k\<close> up to \<open>m\<close>, ascending.\<close>

definition up :: "uint64 \<Rightarrow> uint64 \<Rightarrow> uint64 list" where
  "up k m = map word_of_nat [Suc (unat k)..<Suc (unat m)]"

lemma up_refl [simp]: "up k k = []"
  by (simp add: up_def)

lemma up_step: "k < m \<Longrightarrow> up k m = (k + 1) # up (k + 1) m"
proof -
  assume k: "k < m"
  then have s: "unat (k + 1) = Suc (unat k)"
    using unat_max_uint64 unat_uint64_bound [of m]
    by (intro unat_Suc_word) (simp add: word_less_nat_alt)
  have "[Suc (unat k)..<Suc (unat m)] = Suc (unat k) # [Suc (Suc (unat k))..<Suc (unat m)]"
    using k by (intro upt_conv_Cons) (simp add: word_less_nat_alt)
  moreover have "word_of_nat (Suc (unat k)) = k + 1" by (simp add: add.commute)
  ultimately show ?thesis by (simp add: up_def s del: upt_Suc)
qed

lemma set_up: "n \<in> set (up k m) \<longleftrightarrow> k < n \<and> n \<le> m"
proof -
  have "set (up k m) = set (down m k)" by (simp add: up_def down_def)
  then show ?thesis by (simp add: set_down)
qed

lemma collect_blocks_finite:
  assumes "m < - 1"
  shows "k \<le> m \<Longrightarrow> collect_blocks (k + 1) m = Some (up k m)"
proof (induction "unat m - unat k" arbitrary: k)
  case 0
  then have "k = m" by (simp add: word_le_nat_alt word_unat_eq_iff)
  moreover have "\<not> m + 1 \<le> m" using unat_Suc_less_max [OF assms] by (simp add: word_le_nat_alt)
  ultimately show ?case by (subst collect_blocks.simps) simp
next
  case (Suc x)
  then have k: "k < m" by (auto simp: word_less_nat_alt)
  then have s: "unat (k + 1) = Suc (unat k)"
    using assms by (intro unat_Suc_less_max) (rule less_trans)
  then have le: "k + 1 \<le> m" using k by (simp add: word_le_nat_alt word_less_nat_alt)
  have "collect_blocks (k + 1 + 1) m = Some (up (k + 1) m)"
    using Suc.hyps(2) s le by (intro Suc.hyps(1)) simp_all
  then show ?case using le k by (subst collect_blocks.simps) (simp add: up_step)
qed

lemma collect_blocks_diverges: "collect_blocks i (- 1) = None"
proof (rule ccontr)
  assume "collect_blocks i (- 1) \<noteq> None"
  then obtain r where r: "collect_blocks i (- 1) = Some r" by blast
  have "- 1 \<noteq> (- 1 :: uint64)"
  proof (rule collect_blocks.raw_induct [where P = "\<lambda>i m r. m \<noteq> - 1", OF _ r])
    fix f :: "uint64 \<Rightarrow> uint64 \<Rightarrow> uint64 list option" and i m :: uint64 and r
    assume IH: "\<And>i m r. f i m = Some r \<Longrightarrow> m \<noteq> - 1"
      and eq: "(if i \<le> m then Option.bind (f (i + 1) m) (\<lambda>rest. Some (i # rest)) else Some []) = Some r"
    show "m \<noteq> - 1"
      using eq IH by (auto simp: bind_eq_Some_conv split: if_splits)
  qed
  then show False by simp
qed

section \<open>An environment that works\<close>

text \<open>
  \<open>works ecp J chain logs W m\<close>: in every environment state of \<open>J\<close>, and leading to such a
  state again, the client reports \<open>m\<close> as the head and serves the blocks of \<open>chain\<close> up to it,
  linked by their hashes, and the logs of each block; the watched addresses are \<open>W\<close>; the
  handler accepts every log (its answer to a block does not matter). The environment is \<open>healthy\<close>
  when besides every watched log of these blocks decodes, to what \<open>D\<close> gives.
\<close>

definition works ::
  "('s, 'e) EVMChainPoller \<Rightarrow> ('e \<Rightarrow> bool) \<Rightarrow> (uint64 \<Rightarrow> EthereumBlock)
     \<Rightarrow> (uint64 \<Rightarrow> EthereumEventLog option list) \<Rightarrow> string set \<Rightarrow> uint64 \<Rightarrow> bool" where
  "works ecp J chain logs W m \<longleftrightarrow>
     serves_blocks (ecp_ethClient ecp) J chain m \<and>
     (\<forall>n. 0 < n \<longrightarrow> n < m \<longrightarrow> eb_ParentHash (chain (n + 1)) = eb_Hash (chain n)) \<and>
     (\<forall>e. J e \<longrightarrow> (\<exists>e'. GetLatestBlock (ecp_ethClient ecp) e = (Inr m, e') \<and> J e')) \<and>
     (\<forall>n. serves_logs (ecp_ethClient ecp) J n (logs n)) \<and>
     (\<forall>e. J e \<longrightarrow> watched ecp e = W \<and> request_size_ok ecp e) \<and>
     (\<forall>b e. J e \<longrightarrow> J (snd (HandleBlock (ecp_blockHandler ecp) b e))) \<and>
     (\<forall>l e. J e \<longrightarrow> (\<exists>e'. HandleLog (ecp_blockHandler ecp) l e = (None, e') \<and> J e')) \<and>
     (\<forall>n e. J e \<longrightarrow> J (HandleReorgBlock (ecp_blockHandler ecp) n e))"

definition healthy ::
  "('s, 'e) EVMChainPoller \<Rightarrow> ('e \<Rightarrow> bool) \<Rightarrow> (uint64 \<Rightarrow> EthereumBlock)
     \<Rightarrow> (uint64 \<Rightarrow> EthereumEventLog option list) \<Rightarrow> (EthereumEventLog option \<Rightarrow> DecodedLog option)
     \<Rightarrow> string set \<Rightarrow> uint64 \<Rightarrow> bool" where
  "healthy ecp J chain logs D W m \<longleftrightarrow> works ecp J chain logs W m \<and>
     (\<forall>n l e. 0 < n \<longrightarrow> n \<le> m \<longrightarrow> l \<in> set (logs n) \<longrightarrow> log_address l \<in> W \<longrightarrow> J e \<longrightarrow>
        (\<exists>e'. ParseLog (ecp_logParser ecp) l e = (Ret (D l, None), e') \<and> J e'))"

lemma worksD:
  assumes "works ecp J chain logs W m"
  shows "serves_blocks (ecp_ethClient ecp) J chain m"
    and "0 < n \<Longrightarrow> n < m \<Longrightarrow> eb_ParentHash (chain (n + 1)) = eb_Hash (chain n)"
    and "J e \<Longrightarrow> \<exists>e'. GetLatestBlock (ecp_ethClient ecp) e = (Inr m, e') \<and> J e'"
    and "serves_logs (ecp_ethClient ecp) J n (logs n)"
    and "J e \<Longrightarrow> watched ecp e = W" and "J e \<Longrightarrow> request_size_ok ecp e"
    and "J e \<Longrightarrow> J (snd (HandleBlock (ecp_blockHandler ecp) b e))"
    and "J e \<Longrightarrow> \<exists>e'. HandleLog (ecp_blockHandler ecp) lw e = (None, e') \<and> J e'"
    and "J e \<Longrightarrow> J (HandleReorgBlock (ecp_blockHandler ecp) n e)"
  using assms unfolding works_def by blast+

lemma healthy_works: "healthy ecp J chain logs D W m \<Longrightarrow> works ecp J chain logs W m"
  by (simp add: healthy_def)

lemma healthyD:
  assumes "healthy ecp J chain logs D W m"
  shows "serves_blocks (ecp_ethClient ecp) J chain m"
    and "0 < n \<Longrightarrow> n < m \<Longrightarrow> eb_ParentHash (chain (n + 1)) = eb_Hash (chain n)"
    and "J e \<Longrightarrow> \<exists>e'. GetLatestBlock (ecp_ethClient ecp) e = (Inr m, e') \<and> J e'"
    and "serves_logs (ecp_ethClient ecp) J n (logs n)"
    and "J e \<Longrightarrow> watched ecp e = W" and "J e \<Longrightarrow> request_size_ok ecp e"
    and "0 < n \<Longrightarrow> n \<le> m \<Longrightarrow> l \<in> set (logs n) \<Longrightarrow> log_address l \<in> W \<Longrightarrow> J e \<Longrightarrow>
      \<exists>e'. ParseLog (ecp_logParser ecp) l e = (Ret (D l, None), e') \<and> J e'"
    and "J e \<Longrightarrow> J (snd (HandleBlock (ecp_blockHandler ecp) b e))"
    and "J e \<Longrightarrow> \<exists>e'. HandleLog (ecp_blockHandler ecp) lw e = (None, e') \<and> J e'"
    and "J e \<Longrightarrow> J (HandleReorgBlock (ecp_blockHandler ecp) n e)"
  using worksD [OF healthy_works [OF assms]] assms unfolding healthy_def by blast+

lemma process_logs_healthy:
  assumes h: "healthy ecp J chain logs D W m" and n: "0 < n" "n \<le> m"
  shows "J (w_env w) \<Longrightarrow> set ls \<subseteq> {l \<in> set (logs n). log_address l \<in> W} \<Longrightarrow>
    \<exists>w'. process_logs ecp b ls w = (Ret None, w') \<and> J (w_env w') \<and> w_store w' = w_store w \<and>
      w_calls w' = w_calls w @ log_calls b ls (map D ls)"
proof (induction ls arbitrary: w)
  case Nil
  then show ?case by (simp add: log_calls_def)
next
  case (Cons l ls)
  then have l: "l \<in> set (logs n)" "log_address l \<in> W" by simp_all
  obtain e1 where e1: "ParseLog (ecp_logParser ecp) l (w_env w) = (Ret (D l, None), e1)" "J e1"
    using healthyD(7) [OF h n l Cons.prems(1)] by blast
  let ?l = "\<lparr>lwb_Log = D l, lwb_RawLog = l, lwb_Block = b\<rparr>"
  obtain e2 where e2: "HandleLog (ecp_blockHandler ecp) ?l e1 = (None, e2)" "J e2"
    using healthyD(9) [OF h e1(2)] by blast
  let ?w = "w\<lparr>w_calls := w_calls w @ [CallHandleLog ?l], w_env := e2\<rparr>"
  have "process_logs ecp b (l # ls) w = process_logs ecp b ls ?w"
    using e1(1) e2(1) by (simp add: on_env_def call_HandleLog_def)
  with Cons.IH [of ?w] e2(2) Cons.prems(2) show ?case by (auto simp: log_calls_def)
qed

section \<open>The specification\<close>

text \<open>
  Indexing one block, on the records of one chain: its record is added, and the record
  \<open>H\<close> blocks back is dropped when the history is limited to \<open>H\<close> blocks.
\<close>

type_synonym history = "uint64 \<Rightarrow> BlockRecord option"

definition spec_index :: "go_int \<Rightarrow> ChainId \<Rightarrow> EthereumBlock \<Rightarrow> history \<Rightarrow> history" where
  "spec_index H c b st =
     (let st' = st(eb_Number b \<mapsto> record_of b c)
      in if 0 < sint H \<and> H < eb_Number b then st'(eb_Number b - H := None) else st')"

text \<open>
  The calls for a list of blocks: each block is announced, then its watched logs are handed over,
  each exactly once, as \<open>D\<close> decodes it and with the block on the poller's chain.
\<close>

inductive index_calls ::
  "ChainId \<Rightarrow> string set \<Rightarrow> (uint64 \<Rightarrow> EthereumEventLog option list)
     \<Rightarrow> (EthereumEventLog option \<Rightarrow> DecodedLog option) \<Rightarrow> EthereumBlock list \<Rightarrow> handler_call list \<Rightarrow> bool"
  for c W logs D where
  index_none: "index_calls c W logs D [] []"
| index_more: "mset ls = mset (filter (\<lambda>l. log_address l \<in> W) (logs (eb_Number b))) \<Longrightarrow>
    index_calls c W logs D bs cs \<Longrightarrow>
    index_calls c W logs D (b # bs)
      (CallHandleBlock b # log_calls (b\<lparr>eb_ChainId := c\<rparr>) ls (map D ls) @ cs)"

inductive_simps index_calls_Nil [simp]: "index_calls c W logs D [] cs"
inductive_simps index_calls_Cons: "index_calls c W logs D (b # bs) cs"

lemma index_calls_handled: "index_calls c W logs D bs cs \<Longrightarrow> handled_blocks cs = bs"
  by (induction rule: index_calls.induct) simp_all

text \<open>The records a tick from \<open>k\<close> to \<open>m\<close> prunes, in closed form.\<close>

definition pruned :: "go_int \<Rightarrow> uint64 \<Rightarrow> uint64 \<Rightarrow> uint64 \<Rightarrow> bool" where
  "pruned H k m n \<longleftrightarrow>
     0 < sint H \<and> 0 < n \<and> unat k < unat n + unat H \<and> unat n + unat H \<le> unat m"

lemma spec_index_apply:
  assumes "eb_Number b = i"
  shows "spec_index H c b st n =
    (if 0 < sint H \<and> 0 < n \<and> unat n + unat H = unat i then None
     else if n = i then Some (record_of b c) else st n)"
proof -
  have "H < i \<and> n = i - H \<longleftrightarrow> 0 < n \<and> unat n + unat H = unat i"
  proof (cases "H < i")
    case True
    then have "unat (i - H) = unat i - unat H" "unat H < unat i"
      using unat_sub [OF less_imp_le [OF True]] by (simp_all add: word_less_nat_alt)
    then have "n = i - H \<longleftrightarrow> unat n + unat H = unat i" by (auto simp: word_unat_eq_iff)
    with True \<open>unat H < unat i\<close> show ?thesis by (auto simp: word_less_nat_alt)
  next
    case False
    then show ?thesis by (auto simp: word_less_nat_alt)
  qed
  with assms show ?thesis by (auto simp: spec_index_def Let_def)
qed

lemma index_history:
  assumes numbers: "\<And>n. eb_Number (chain n) = n"
  shows "k \<le> m \<Longrightarrow> fold (spec_index H c) (map chain (up k m)) st n =
    (if pruned H k m n then None
     else if k < n \<and> n \<le> m then Some (record_of (chain n) c) else st n)"
proof (induction "unat m - unat k" arbitrary: k st)
  case 0
  then have "k = m" by (simp add: word_le_nat_alt word_unat_eq_iff)
  then show ?case by (auto simp: pruned_def)
next
  case (Suc x)
  then have k: "k < m" by (auto simp: word_less_nat_alt)
  then have s: "unat (k + 1) = Suc (unat k)"
    using unat_max_uint64 unat_uint64_bound [of m]
    by (intro unat_Suc_word) (simp add: word_less_nat_alt)
  have "fold (spec_index H c) (map chain (up (k + 1) m)) (spec_index H c (chain (k + 1)) st) n =
    (if pruned H (k + 1) m n then None
     else if k + 1 < n \<and> n \<le> m then Some (record_of (chain n) c)
     else spec_index H c (chain (k + 1)) st n)"
    using Suc.hyps(2) s k by (intro Suc.hyps(1)) (simp_all add: word_le_nat_alt word_less_nat_alt)
  moreover have "pruned H k m n \<longleftrightarrow> pruned H (k + 1) m n \<or>
      (0 < sint H \<and> 0 < n \<and> unat n + unat H = unat (k + 1))"
    using k s by (auto simp: pruned_def word_less_nat_alt)
  moreover have "k < n \<longleftrightarrow> k + 1 < n \<or> n = k + 1"
    using s by (auto simp: word_less_nat_alt word_unat_eq_iff)
  moreover have "k + 1 \<le> m" using s k by (simp add: word_le_nat_alt word_less_nat_alt)
  moreover have "k + 1 < n \<Longrightarrow> unat n + unat H \<noteq> unat (k + 1)" by (simp add: word_less_nat_alt)
  ultimately show ?case
    by (auto simp: up_step [OF k] spec_index_apply [OF numbers])
qed

section \<open>A tick refines the specification\<close>

lemma record_of_on_chain [simp]: "record_of (b\<lparr>eb_ChainId := c'\<rparr>) c = record_of b c"
  by (simp add: record_of_def)

context persistence
begin

text \<open>Saving a block and pruning: the specification's step on the records of the chain.\<close>

lemma save_and_prune:
  assumes P: "ecp_store ecp = P" and c: "c = cfg_ChainId (ecp_config ecp)"
    and op: "opened (w_store w)" and r: "r = record_of b c"
  defines "w' \<equiv> prune_old ecp r (snd (on_store (SaveBlock (ecp_store ecp) (Some r)) w))"
  shows "opened (w_store w')"
    and "stored (w_store w') = (stored (w_store w))
      (c := spec_index (cfg_BlockHistorySize (ecp_config ecp)) c b (stored (w_store w) c))"
    and "cursor (w_store w') = (cursor (w_store w))(c \<mapsto> eb_Number b)"
    and "w_env w' = w_env w" and "w_calls w' = w_calls w"
proof -
  let ?H = "cfg_BlockHistorySize (ecp_config ecp)"
  obtain s1 where s1: "SaveBlock P (Some r) (w_store w) = (None, s1)" "opened s1"
    "stored s1 = (stored (w_store w))(c := (stored (w_store w) c)(eb_Number b \<mapsto> r))"
    "cursor s1 = (cursor (w_store w))(c \<mapsto> eb_Number b)"
    by (rule saveE [OF op, of r]) (auto simp: r record_of_def)
  obtain s2 where s2: "snd (DeleteBlock P c (eb_Number b - ?H) s1) = s2" "opened s2"
    "stored s2 = (stored s1)(c := (stored s1 c)(eb_Number b - ?H := None))" "cursor s2 = cursor s1"
    by (rule deleteE [OF s1(2), of c "eb_Number b - ?H"]) auto
  have w': "w_store w' = (if 0 < sint ?H \<and> ?H < eb_Number b then s2 else s1)"
    using s1(1) s2(1) unfolding w'_def
    by (auto simp add: prune_old_def Let_def P on_store_def r record_of_def split: prod.split simp flip: c)
  show "opened (w_store w')" "cursor (w_store w') = (cursor (w_store w))(c \<mapsto> eb_Number b)"
    using w' s1 s2 by simp_all
  show "stored (w_store w') = (stored (w_store w))(c := spec_index ?H c b (stored (w_store w) c))"
    using w' s1(3) s2(3) by (simp add: spec_index_def Let_def flip: r)
  show "w_env w' = w_env w" "w_calls w' = w_calls w" unfolding w'_def by simp_all
qed

lemma processBlockLogs_healthy:
  assumes P: "ecp_store ecp = P" and c: "c = cfg_ChainId (ecp_config ecp)"
    and h: "healthy ecp J chain logs D W m"
    and op: "opened (w_store w)" and J: "J (w_env w)" and b: "0 < eb_Number b" "eb_Number b \<le> m"
  obtains w' ls where
    "processBlockLogs ecp b w = (Ret (Inr (record_of b c)), w')" "opened (w_store w')" "J (w_env w')"
    "stored (w_store w') = (stored (w_store w))
      (c := spec_index (cfg_BlockHistorySize (ecp_config ecp)) c b (stored (w_store w) c))"
    "cursor (w_store w') = (cursor (w_store w))(c \<mapsto> eb_Number b)"
    "mset ls = mset (filter (\<lambda>l. log_address l \<in> W) (logs (eb_Number b)))"
    "w_calls w' = w_calls w @ log_calls (b\<lparr>eb_ChainId := c\<rparr>) ls (map D ls)"
proof -
  obtain ls e1 where f: "fetchLogsForInterestingContractsForBlock ecp (eb_Number b) (w_env w) =
      (Ret (Inr ls), e1)" "J e1" "mset ls = mset (filter (\<lambda>l. log_address l \<in> W) (logs (eb_Number b)))"
    using fetchLogs_serves [OF healthyD(4) [OF h] J healthyD(6) [OF h J]]
    unfolding healthyD(5) [OF h J] by blast
  let ?w1 = "w\<lparr>w_env := e1\<rparr>"
  have "set ls \<subseteq> {l \<in> set (logs (eb_Number b)). log_address l \<in> W}"
    using mset_eq_setD [OF f(3)] by auto
  then obtain w2 where p: "process_logs ecp (on_chain ecp b) ls ?w1 = (Ret None, w2)" "J (w_env w2)"
    and ds: "w_store w2 = w_store w" "w_calls w2 = w_calls w @ log_calls (on_chain ecp b) ls (map D ls)"
    using process_logs_healthy [OF h b, of ?w1 ls "on_chain ecp b"] f(2) by auto
  let ?r = "record_of b c"
  let ?w' = "prune_old ecp ?r (snd (on_store (SaveBlock (ecp_store ecp) (Some ?r)) w2))"
  have run: "processBlockLogs ecp b w = (Ret (Inr ?r), ?w')"
    using f(1) p(1) by (simp add: processBlockLogs_def on_env_def Let_def split_beta flip: c)
  note sp = save_and_prune [OF P c, of w2 ?r b, OF _ refl, unfolded ds(1), OF op]
  show thesis
    by (rule that [OF run sp(1) _ sp(2,3) f(3)])
      (use sp(4,5) p(2) ds(2) c in simp_all)
qed

text \<open>
  What a tick on a store with a last processed block comes to: nothing but a change of the
  environment, or the processing of the blocks up to some head.
\<close>

lemma processNextBlock_cases:
  assumes P: "ecp_store ecp = P" and c: "c = cfg_ChainId (ecp_config ecp)" and op: "opened (w_store w)"
    and last: "cursor (w_store w) c = Some k" "stored (w_store w) c k = Some r" "br_Number r = k"
    and run: "processNextBlock ecp w = Some (res, w')"
  obtains e1 where "w' = w\<lparr>w_env := e1\<rparr>"
    | e1 m where "k \<le> m" "process_blocks ecp r (up k m) (w\<lparr>w_env := e1\<rparr>) = (res, w')"
proof -
  obtain res1 e1 where e1: "GetLatestBlock (ecp_ethClient ecp) (w_env w) = (res1, e1)" by fastforce
  let ?w1 = "w\<lparr>w_env := e1\<rparr>"
  show thesis
  proof (cases res1)
    case (Inl e)
    then have "w' = ?w1" using run e1 last op
      by (simp add: processNextBlock_def go_defs last_law P flip: c)
    with that(1) show thesis .
  next
    case (Inr m)
    have pre: "(if k = m then Some (Ret (), ?w1)
        else Option.bind (if m > k then collect_blocks (k + 1) m else Some [])
          (\<lambda>ns. Some (process_blocks ecp r ns ?w1))) = Some (res, w')"
      using run e1 Inr last op
      by (simp add: processNextBlock_def go_defs last_law P cong: if_cong flip: c)
    show thesis
    proof (cases "k < m")
      case True
      then have "m < - 1"
        using pre collect_blocks_diverges by (cases "m = - 1") (auto simp: less_le)
      from collect_blocks_finite [OF this less_imp_le [OF True]]
      have "process_blocks ecp r (up k m) ?w1 = (res, w')"
        using pre True less_imp_neq [OF True] by simp
      with that(2) True show thesis by (blast intro: less_imp_le)
    next
      case False
      with pre have "w' = ?w1" by (auto split: if_splits)
      with that(1) show thesis .
    qed
  qed
qed

text \<open>What indexing the blocks above \<open>k\<close> up to \<open>m\<close> does to a world.\<close>

definition indexed ::
  "('s, 'e) EVMChainPoller \<Rightarrow> (uint64 \<Rightarrow> EthereumBlock) \<Rightarrow> (uint64 \<Rightarrow> EthereumEventLog option list)
     \<Rightarrow> (EthereumEventLog option \<Rightarrow> DecodedLog option) \<Rightarrow> string set \<Rightarrow> uint64 \<Rightarrow> uint64
     \<Rightarrow> ('s, 'e) world \<Rightarrow> ('s, 'e) world \<Rightarrow> bool" where
  "indexed ecp chain logs D W k m w w' \<longleftrightarrow>
     (let c = cfg_ChainId (ecp_config ecp); H = cfg_BlockHistorySize (ecp_config ecp) in
      opened (w_store w') \<and>
      stored (w_store w') = (stored (w_store w))
        (c := fold (spec_index H c) (map chain (up k m)) (stored (w_store w) c)) \<and>
      cursor (w_store w') = (if k = m then cursor (w_store w) else (cursor (w_store w))(c \<mapsto> m)) \<and>
      (\<exists>cs. w_calls w' = w_calls w @ cs \<and> index_calls c W logs D (map chain (up k m)) cs))"

lemma process_blocks_healthy:
  assumes P: "ecp_store ecp = P" and h: "healthy ecp J chain logs D W m"
  shows "k \<le> m \<Longrightarrow> opened (w_store w) \<Longrightarrow> J (w_env w) \<Longrightarrow>
    (k < m \<Longrightarrow> br_Hash r = eb_ParentHash (chain (k + 1))) \<Longrightarrow>
    \<exists>w'. process_blocks ecp r (up k m) w = (Ret (), w') \<and> J (w_env w') \<and>
      indexed ecp chain logs D W k m w w'"
proof (induction "unat m - unat k" arbitrary: k r w)
  case 0
  then have "k = m" by (simp add: word_le_nat_alt word_unat_eq_iff)
  with 0 show ?case by (intro exI [of _ w]) (simp add: indexed_def Let_def)
next
  case (Suc x)
  let ?c = "cfg_ChainId (ecp_config ecp)" and ?H = "cfg_BlockHistorySize (ecp_config ecp)"
  let ?b = "chain (k + 1)"
  from Suc.hyps(2) have k: "k < m" by (auto simp: word_less_nat_alt)
  then have s: "unat (k + 1) = Suc (unat k)"
    using unat_max_uint64 unat_uint64_bound [of m]
    by (intro unat_Suc_word) (simp add: word_less_nat_alt)
  have bounds: "0 < k + 1" "k + 1 \<le> m"
    using s k by (simp_all add: word_le_nat_alt word_less_nat_alt)
  have number: "eb_Number ?b = k + 1" using healthyD(1) [OF h] by (simp add: serves_blocks_def)
  obtain e1 where e1: "on_env (GetBlockByNumber (ecp_ethClient ecp) (k + 1)) w =
      (Inr (Some ?b), w\<lparr>w_env := e1\<rparr>)" "J e1"
    using serves_blocksE [OF healthyD(1) [OF h] Suc.prems(3) bounds] by blast
  obtain res w2 where w2: "call_HandleBlock ecp ?b (w\<lparr>w_env := e1\<rparr>) = (res, w2)" by fastforce
  then have w2s: "w_store w2 = w_store w" "w_calls w2 = w_calls w @ [CallHandleBlock ?b]" "J (w_env w2)"
    using call_HandleBlockD [OF w2] healthyD(8) [OF h e1(2), of ?b]
    by (auto simp: call_HandleBlock_def on_env_def split: prod.splits)
  obtain w3 ls where w3:
    "processBlockLogs ecp ?b w2 = (Ret (Inr (record_of ?b ?c)), w3)" "opened (w_store w3)" "J (w_env w3)"
    "stored (w_store w3) = (stored (w_store w))(?c := spec_index ?H ?c ?b (stored (w_store w) ?c))"
    "cursor (w_store w3) = (cursor (w_store w))(?c \<mapsto> k + 1)"
    "mset ls = mset (filter (\<lambda>l. log_address l \<in> W) (logs (eb_Number ?b)))"
    "w_calls w3 = w_calls w @ CallHandleBlock ?b # log_calls (?b\<lparr>eb_ChainId := ?c\<rparr>) ls (map D ls)"
    by (rule processBlockLogs_healthy [OF P refl h, of w2 ?b])
      (use Suc.prems(2) w2s number bounds in \<open>simp_all\<close>)
  have link: "br_Hash (record_of ?b ?c) = eb_ParentHash (chain (k + 1 + 1))" if "k + 1 < m"
    using healthyD(2) [OF h bounds(1) that] by (simp add: record_of_def)
  have x: "x = unat m - unat (k + 1)" using Suc.hyps(2) s by simp
  obtain w' where w': "process_blocks ecp (record_of ?b ?c) (up (k + 1) m) w3 = (Ret (), w')"
    "J (w_env w')" "indexed ecp chain logs D W (k + 1) m w3 w'"
    using Suc.hyps(1) [OF x bounds(2) w3(2,3) link] by auto
  have "process_blocks ecp r (up k m) w = (Ret (), w')"
    using e1(1) w2 w3(1) w'(1) Suc.prems(4) [OF k] by (simp add: up_step [OF k])
  moreover obtain cs where cs: "w_calls w' = w_calls w3 @ cs"
    "index_calls ?c W logs D (map chain (up (k + 1) m)) cs"
    using w'(3) by (auto simp: indexed_def Let_def)
  moreover have "indexed ecp chain logs D W k m w w'"
    using w'(3) w3(4,5,7) cs(1) index_more [OF w3(6) cs(2)] less_imp_neq [OF k]
    by (simp add: indexed_def Let_def up_step [OF k])
  ultimately show ?case using w'(2) by blast
qed

text \<open>A tick on a store whose last processed block is \<open>k\<close>.\<close>

lemma processNextBlock_healthy:
  assumes P: "ecp_store ecp = P" and h: "healthy ecp J chain logs D W m" and m: "m < - 1"
    and k: "k \<le> m" and op: "opened (w_store w)" and J: "J (w_env w)"
    and last: "cursor (w_store w) (cfg_ChainId (ecp_config ecp)) = Some k"
      "stored (w_store w) (cfg_ChainId (ecp_config ecp)) k = Some r" "br_Number r = k"
    and hash: "k < m \<Longrightarrow> br_Hash r = eb_ParentHash (chain (k + 1))"
  shows "\<exists>w'. processNextBlock ecp w = Some (Ret (), w') \<and> J (w_env w') \<and>
    indexed ecp chain logs D W k m w w'"
proof -
  obtain e1 where e1: "GetLatestBlock (ecp_ethClient ecp) (w_env w) = (Inr m, e1)" "J e1"
    using healthyD(3) [OF h J] by blast
  let ?w1 = "w\<lparr>w_env := e1\<rparr>"
  have pre: "processNextBlock ecp w =
      (if k = m then Some (Ret (), ?w1) else Some (process_blocks ecp r (up k m) ?w1))"
    using e1(1) last P op k collect_blocks_finite [OF m k]
    by (auto simp: processNextBlock_def go_defs last_law)
  have "opened (w_store ?w1)" "J (w_env ?w1)" using op e1(2) by simp_all
  from process_blocks_healthy [OF P h k this hash] obtain w' where
    "process_blocks ecp r (up k m) ?w1 = (Ret (), w')" "J (w_env w')"
    "indexed ecp chain logs D W k m ?w1 w'" by blast
  then show ?thesis
    unfolding pre by (intro exI [of _ w']) (auto simp: indexed_def)
qed

section \<open>Recovery from a reorganisation\<close>

text \<open>
  The tick that meets a new block whose parent is not the block processed last: nothing is
  handed over; what the reconciliation does is the effect of the tick.
\<close>

lemma processNextBlock_reorg:
  assumes P: "ecp_store ecp = P" and h: "healthy ecp J chain logs D W m" and m: "m < - 1"
    and k: "k < m" and op: "opened (w_store w)" and J: "J (w_env w)"
    and last: "cursor (w_store w) (cfg_ChainId (ecp_config ecp)) = Some k"
      "stored (w_store w) (cfg_ChainId (ecp_config ecp)) k = Some r" "br_Number r = k"
    and hash: "br_Hash r \<noteq> eb_ParentHash (chain (k + 1))"
  obtains e1 where "J e1"
    "processNextBlock ecp w =
       Some (Ret (), snd (reconcileReorg ecp (chain (k + 1)) (w\<lparr>w_env := e1\<rparr>)))"
proof -
  obtain e1 where e1: "GetLatestBlock (ecp_ethClient ecp) (w_env w) = (Inr m, e1)" "J e1"
    using healthyD(3) [OF h J] by blast
  let ?w1 = "w\<lparr>w_env := e1\<rparr>"
  have s: "unat (k + 1) = Suc (unat k)" using k m by (intro unat_Suc_less_max) (rule less_trans)
  have bounds: "0 < k + 1" "k + 1 \<le> m"
    using s k by (simp_all add: word_le_nat_alt word_less_nat_alt)
  have "J (w_env ?w1)" using e1(2) by simp
  from serves_blocksE [OF healthyD(1) [OF h] this bounds] obtain e2 where
    e2: "on_env (GetBlockByNumber (ecp_ethClient ecp) (k + 1)) ?w1 =
      (Inr (Some (chain (k + 1))), w\<lparr>w_env := e2\<rparr>)" "J e2" by auto
  have "processNextBlock ecp w = Some (process_blocks ecp r (up k m) ?w1)"
    using e1(1) last P op k collect_blocks_finite [OF m less_imp_le [OF k]]
    by (auto simp: processNextBlock_def go_defs last_law)
  also have "\<dots> = Some (Ret (), snd (reconcileReorg ecp (chain (k + 1)) (w\<lparr>w_env := e2\<rparr>)))"
    using e2(1) hash by (simp add: up_step [OF k] eq_commute)
  finally show thesis using that e2(2) by blast
qed

text \<open>The tick that meets a fork, whatever the search will find.\<close>

lemma orphan_tick:
  assumes P: "ecp_store ecp = P" and c: "c = cfg_ChainId (ecp_config ecp)"
    and h: "healthy ecp J chain logs D W m" and m: "m < - 1" and k: "k < m" and J: "J (w_env w)"
    and op: "opened (w_store w)" and wf: "records_wf stored (w_store w)"
    and last: "cursor (w_store w) c = Some k" and orph: "orphans (w_store w) c chain q k" "q < k"
  obtains e1 where "J e1" "serves_blocks (ecp_ethClient ecp) J chain k"
    "eb_Number (chain (k + 1)) = k + 1" "k < - 1"
    "processNextBlock ecp w =
       Some (Ret (), snd (reconcileReorg ecp (chain (k + 1)) (w\<lparr>w_env := e1\<rparr>)))"
proof -
  obtain rk where rk: "stored (w_store w) c k = Some rk" "br_Hash rk \<noteq> eb_Hash (chain k)"
    using orph unfolding orphans_def by blast
  have "0 < k" using orph(2) by (metis word_gt_0 word_not_simps(1))
  then have hash: "br_Hash rk \<noteq> eb_ParentHash (chain (k + 1))"
    using healthyD(2) [OF h _ k] rk(2) by metis
  have "br_Number rk = k" using wf rk(1) by (auto simp: records_wf_def)
  from processNextBlock_reorg [OF P h m k op J, folded c, OF last rk(1) this hash] obtain e1 where
    "J e1" "processNextBlock ecp w =
      Some (Ret (), snd (reconcileReorg ecp (chain (k + 1)) (w\<lparr>w_env := e1\<rparr>)))" by blast
  moreover have "serves_blocks (ecp_ethClient ecp) J chain k"
    using healthyD(1) [OF h] k unfolding serves_blocks_def by (meson order_trans less_imp_le)
  moreover from this have "eb_Number (chain (k + 1)) = k + 1" by (simp add: serves_blocks_def)
  moreover have "k < - 1" using k m by (rule less_trans)
  ultimately show thesis using that by blast
qed

text \<open>
  The store holds the records of a fork: they agree with the chain at \<open>a\<close> and disagree above, up
  to the block \<open>k\<close> processed last.
\<close>

definition forked :: "'s \<Rightarrow> ChainId \<Rightarrow> (uint64 \<Rightarrow> EthereumBlock) \<Rightarrow> uint64 \<Rightarrow> uint64 \<Rightarrow> bool" where
  "forked s c chain a k \<longleftrightarrow> opened s \<and> records_wf stored s \<and> cursor s c = Some k \<and>
     0 < a \<and> a < k \<and> orphans s c chain a k \<and>
     (\<exists>r. stored s c a = Some r \<and> br_Hash r = eb_Hash (chain a))"

lemma fork_tick:
  assumes P: "ecp_store ecp = P" and c: "c = cfg_ChainId (ecp_config ecp)"
    and h: "healthy ecp J chain logs D W m" and m: "m < - 1" and k: "k < m" and J: "J (w_env w)"
    and fork: "forked (w_store w) c chain a k"
    and depth: "k + 1 - a \<le> cfg_MaxReorgDepth (ecp_config ecp)"
  obtains w' where "processNextBlock ecp w = Some (Ret (), w')" "J (w_env w')"
    "dropped (w_store w) c a k (w_store w')" "cursor (w_store w') = (cursor (w_store w))(c \<mapsto> a)"
    "w_calls w' = w_calls w @ map CallHandleReorgBlock (down k a)"
proof -
  from fork obtain ra where f: "opened (w_store w)" "records_wf stored (w_store w)"
    "cursor (w_store w) c = Some k" "0 < a" "a < k" "orphans (w_store w) c chain a k"
    "stored (w_store w) c a = Some ra" "br_Hash ra = eb_Hash (chain a)"
    unfolding forked_def by blast
  obtain e1 where e1: "J e1" "serves_blocks (ecp_ethClient ecp) J chain k"
    "eb_Number (chain (k + 1)) = k + 1" "k < - 1" "processNextBlock ecp w =
       Some (Ret (), snd (reconcileReorg ecp (chain (k + 1)) (w\<lparr>w_env := e1\<rparr>)))"
    by (rule orphan_tick [OF P c h m k J f(1-3,6,5)])
  have "\<exists>s' e'. J e' \<and> dropped (w_store w) c a k s' \<and> cursor s' = (cursor (w_store w))(c \<mapsto> a) \<and>
    reconcileReorg ecp (chain (k + 1)) (w\<lparr>w_env := e1\<rparr>) = (None, \<lparr>w_store = s', w_env = e',
       w_calls = w_calls w @ map CallHandleReorgBlock (down k a)\<rparr>)"
    using reconcile_fork [OF P c e1(2) healthyD(10) [OF h], of "w\<lparr>w_env := e1\<rparr>"]
      f e1(1,3,4) depth by simp
  then show thesis using that e1(5) by fastforce
qed

lemma fork_recovery:
  assumes P: "ecp_store ecp = P" and c: "c = cfg_ChainId (ecp_config ecp)"
    and h: "healthy ecp J chain logs D W m" and m: "m < - 1" and k: "k < m" and J: "J (w_env w)"
    and fork: "forked (w_store w) c chain a k"
    and depth: "k + 1 - a \<le> cfg_MaxReorgDepth (ecp_config ecp)"
  obtains w1 w2 cs where
    "processNextBlock ecp w = Some (Ret (), w1)" "processNextBlock ecp w1 = Some (Ret (), w2)"
    "J (w_env w2)" "opened (w_store w2)" "cursor (w_store w2) c = Some m"
    "\<And>n. stored (w_store w2) c n =
      (if pruned (cfg_BlockHistorySize (ecp_config ecp)) a m n then None
       else if a < n \<and> n \<le> m then Some (record_of (chain n) c)
       else if a < n \<and> n \<le> k then None else stored (w_store w) c n)"
    "w_calls w2 = w_calls w @ map CallHandleReorgBlock (down k a) @ cs"
    "index_calls c W logs D (map chain (up a m)) cs"
    "dropped (w_store w) c a k (w_store w1)" "cursor (w_store w1) = (cursor (w_store w))(c \<mapsto> a)"
proof -
  obtain w1 where w1: "processNextBlock ecp w = Some (Ret (), w1)" "J (w_env w1)"
    "dropped (w_store w) c a k (w_store w1)" "cursor (w_store w1) = (cursor (w_store w))(c \<mapsto> a)"
    "w_calls w1 = w_calls w @ map CallHandleReorgBlock (down k a)"
    using fork_tick [OF assms] by blast
  from fork obtain r where f: "0 < a" "a < k" "stored (w_store w) c a = Some r"
    "br_Hash r = eb_Hash (chain a)" "br_Number r = a"
    unfolding forked_def records_wf_def by blast
  have a: "a < m" using f(2) k by (rule less_trans)
  have hash: "br_Hash r = eb_ParentHash (chain (a + 1))"
    using healthyD(2) [OF h f(1) a] f(4) by simp
  have "opened (w_store w1)" "stored (w_store w1) c a = Some r" "cursor (w_store w1) c = Some a"
    using w1(3,4) f(3) by (simp_all add: dropped_def)
  from processNextBlock_healthy [OF P h m less_imp_le [OF a] this(1) w1(2), folded c, OF this(3,2) f(5) hash]
  obtain w2 where w2: "processNextBlock ecp w1 = Some (Ret (), w2)" "J (w_env w2)"
    "indexed ecp chain logs D W a m w1 w2" by blast
  then obtain cs where cs: "w_calls w2 = w_calls w1 @ cs" "index_calls c W logs D (map chain (up a m)) cs"
    and op: "opened (w_store w2)" and cur: "cursor (w_store w2) c = Some m"
    and st: "stored (w_store w2) c = fold (spec_index (cfg_BlockHistorySize (ecp_config ecp)) c)
        (map chain (up a m)) (stored (w_store w1) c)"
    using less_imp_neq [OF a] c by (auto simp: indexed_def Let_def)
  have numbers: "\<And>n. eb_Number (chain n) = n" using healthyD(1) [OF h] by (simp add: serves_blocks_def)
  show thesis
    by (rule that [OF w1(1) w2(1,2) op cur _ _ cs(2) w1(3,4)])
      (use w1(3,5) cs(1) in \<open>simp_all add: st index_history [OF numbers less_imp_le [OF a]] dropped_def\<close>)
qed

section \<open>Reorganisations that stall the poller\<close>

text \<open>A fork below the depth limit, or down to block 1.\<close>

lemma deep_fork_stalls:
  assumes P: "ecp_store ecp = P" and c: "c = cfg_ChainId (ecp_config ecp)"
    and h: "healthy ecp J chain logs D W m" and m: "m < - 1" and k: "k < m" and J: "J (w_env w)"
    and op: "opened (w_store w)" and wf: "records_wf stored (w_store w)"
    and last: "cursor (w_store w) c = Some k" and orph: "orphans (w_store w) c chain q k" "q < k"
    and visited: "k - q \<le> cfg_MaxReorgDepth (ecp_config ecp)"
    and limit: "q = 0 \<or> cfg_MaxReorgDepth (ecp_config ecp) < k + 1 - q"
  obtains w' where "processNextBlock ecp w = Some (Ret (), w')" "dangling (w_store w') c"
    "w_calls w' = w_calls w @ map CallHandleReorgBlock (down k q)"
proof -
  obtain e1 where e1: "J e1" "serves_blocks (ecp_ethClient ecp) J chain k"
    "eb_Number (chain (k + 1)) = k + 1" "k < - 1" "processNextBlock ecp w =
       Some (Ret (), snd (reconcileReorg ecp (chain (k + 1)) (w\<lparr>w_env := e1\<rparr>)))"
    by (rule orphan_tick [OF assms(1-11)])
  have "\<exists>s' e'. J e' \<and> dropped (w_store w) c q k s' \<and> cursor s' = (cursor (w_store w))(c \<mapsto> q + 1) \<and>
    reconcileReorg ecp (chain (k + 1)) (w\<lparr>w_env := e1\<rparr>) = (None, \<lparr>w_store = s', w_env = e',
       w_calls = w_calls w @ map CallHandleReorgBlock (down k q)\<rparr>)"
    using reconcile_too_deep [OF P c e1(2) healthyD(10) [OF h], of "w\<lparr>w_env := e1\<rparr>"]
      op e1(1) wf orph e1(3,4) visited limit by simp
  then obtain s' e' where s': "dropped (w_store w) c q k s'"
    "cursor s' = (cursor (w_store w))(c \<mapsto> q + 1)"
    "reconcileReorg ecp (chain (k + 1)) (w\<lparr>w_env := e1\<rparr>) = (None, \<lparr>w_store = s', w_env = e',
       w_calls = w_calls w @ map CallHandleReorgBlock (down k q)\<rparr>)" by blast
  have "q < q + 1 \<and> q + 1 \<le> k"
    using orph(2) unat_Suc_less_max [OF less_trans [OF orph(2) e1(4)]]
    by (simp add: word_le_nat_alt word_less_nat_alt)
  then have "dangling s' c" using s'(1,2) by (simp add: dangling_def dropped_def)
  with s'(3) e1(5) that show thesis by simp
qed

text \<open>A record missing below the fork, when the client does not fill in the chain id.\<close>

lemma missing_record_stalls:
  assumes P: "ecp_store ecp = P" and c: "c = cfg_ChainId (ecp_config ecp)"
    and h: "healthy ecp J chain logs D W m" and m: "m < - 1" and k: "k < m" and J: "J (w_env w)"
    and op: "opened (w_store w)" and wf: "records_wf stored (w_store w)"
    and last: "cursor (w_store w) c = Some k" and orph: "orphans (w_store w) c chain q k" "q < k"
    and q: "0 < q" and missing: "stored (w_store w) c q = None" and other: "eb_ChainId (chain q) \<noteq> c"
    and depth: "k + 1 - q \<le> cfg_MaxReorgDepth (ecp_config ecp)"
  obtains w' where "processNextBlock ecp w = Some (Ret (), w')" "dangling (w_store w') c"
    "w_calls w' = w_calls w @ map CallHandleReorgBlock (down k q)"
proof -
  obtain e1 where e1: "J e1" "serves_blocks (ecp_ethClient ecp) J chain k"
    "eb_Number (chain (k + 1)) = k + 1" "k < - 1" "processNextBlock ecp w =
       Some (Ret (), snd (reconcileReorg ecp (chain (k + 1)) (w\<lparr>w_env := e1\<rparr>)))"
    by (rule orphan_tick [OF assms(1-11)])
  have "\<exists>s' e'. J e' \<and> opened s' \<and> cursor s' c = cursor (w_store w) c \<and> stored s' c k = None \<and>
    reconcileReorg ecp (chain (k + 1)) (w\<lparr>w_env := e1\<rparr>) = (None, \<lparr>w_store = s', w_env = e',
       w_calls = w_calls w @ map CallHandleReorgBlock (down k q)\<rparr>)"
    using reconcile_missing [OF P c e1(2) healthyD(10) [OF h], of "w\<lparr>w_env := e1\<rparr>"]
      op e1(1) wf orph q e1(3,4) missing other depth by simp
  then obtain s' e' where s': "opened s'" "cursor s' c = cursor (w_store w) c" "stored s' c k = None"
    "reconcileReorg ecp (chain (k + 1)) (w\<lparr>w_env := e1\<rparr>) = (None, \<lparr>w_store = s', w_env = e',
       w_calls = w_calls w @ map CallHandleReorgBlock (down k q)\<rparr>)" by blast
  then have "dangling s' c" using last by (simp add: dangling_def)
  with s'(4) e1(5) that show thesis by simp
qed

text \<open>A restart on a store with a last processed block changes nothing.\<close>

lemma Start_again:
  assumes "ecp_store ecp = P" and "opened (w_store w)"
    and "cursor (w_store w) (cfg_ChainId (ecp_config ecp)) = Some k"
    and "stored (w_store w) (cfg_ChainId (ecp_config ecp)) k = Some r"
  shows "Start ecp w = (Ret None, w)"
  using assms by (simp add: Start_def Let_def on_store_def last_law)

text \<open>
  A start that finds no last processed block: it records the start block, over whatever records there
  are, and calls the handler for nothing.
\<close>

lemma Start_reseeds:
  assumes P: "ecp_store ecp = P" and c: "c = cfg_ChainId (ecp_config ecp)"
    and works: "works ecp J chain logs W m" and J: "J (w_env w)" and op: "opened (w_store w)"
    and none: "Option.bind (cursor (w_store w) c) (stored (w_store w) c) = None"
    and n: "n = (if cfg_GenesisBlockNumber (ecp_config ecp) > 0
              then cfg_GenesisBlockNumber (ecp_config ecp) else m)" "0 < n" "n \<le> m"
  obtains w' where "Start ecp w = (Ret None, w')" "w_calls w' = w_calls w" "J (w_env w')"
    "opened (w_store w')" "cursor (w_store w') = (cursor (w_store w))(c \<mapsto> n)"
    "stored (w_store w') = (stored (w_store w))(c := (stored (w_store w) c)(n \<mapsto> record_of (chain n) c))"
proof -
  have first: "on_store (GetLastProcessedBlock (ecp_store ecp) c) w = (Inl ErrNotFound, w)"
    using none op P by (simp add: on_store_def last_law)
  define start where "start = (if cfg_GenesisBlockNumber (ecp_config ecp) > 0
    then (Inr (cfg_GenesisBlockNumber (ecp_config ecp)), w) else on_env (GetLatestBlock (ecp_ethClient ecp)) w)"
  obtain e1 where e1: "GetLatestBlock (ecp_ethClient ecp) (w_env w) = (Inr m, e1)" "J e1"
    using worksD(3) [OF works J] by blast
  obtain w1 where w1: "start = (Inr n, w1)" "J (w_env w1)" "w_store w1 = w_store w" "w_calls w1 = w_calls w"
    using e1 J n(1) by (cases "cfg_GenesisBlockNumber (ecp_config ecp) > 0") (auto simp: start_def on_env_def)
  obtain e2 where e2: "on_env (GetBlockByNumber (ecp_ethClient ecp) n) w1 = (Inr (Some (chain n)), w1\<lparr>w_env := e2\<rparr>)"
    "J e2"
    using serves_blocksE [OF worksD(1) [OF works] w1(2) n(2,3)] by blast
  let ?r = "record_of (chain n) c"
  have number: "br_Number ?r = n" "br_ChainId ?r = c"
    using worksD(1) [OF works] by (simp_all add: serves_blocks_def record_of_def)
  obtain s' where s': "SaveBlock P (Some ?r) (w_store w) = (None, s')" "opened s'"
    "stored s' = (stored (w_store w))(c := (stored (w_store w) c)(n \<mapsto> ?r))"
    "cursor s' = (cursor (w_store w))(c \<mapsto> n)"
    using saveE [OF op, of ?r] unfolding number by blast
  have "Start ecp w = (Ret None, w1\<lparr>w_env := e2, w_store := s'\<rparr>)"
    using w1 e2 s'(1) unfolding Start_def Let_def c [symmetric] first
    by (simp add: start_def P on_store_def)
  then show thesis by (rule that) (use w1 e2(2) s' in simp_all)
qed

end

end
