(* ===== verification/Poller_Invariant.thy ===== *)
theory Poller_Invariant
  imports Poller_Index
begin

text \<open>
  An invariant of the store that holds in every state of the poll loop, whatever the handler
  and the parser do and whenever calls on the node fail: the records of the chain form one
  hash-linked history without gaps, none above the block processed last. The node is only trusted to answer a
  request for block \<open>n\<close> with a block numbered \<open>n\<close>, and to leave the chain id of the block unset.
\<close>

definition numbered_client :: "'e Client \<Rightarrow> ChainId \<Rightarrow> bool" where
  "numbered_client C c \<longleftrightarrow>
     (\<forall>n e b e'. GetBlockByNumber C n e = (Inr (Some b), e') \<longrightarrow>
        eb_Number b = n \<and> eb_ChainId b \<noteq> c)"

lemma numbered_clientD:
  assumes "numbered_client C c" "on_env (GetBlockByNumber C n) w = (Inr (Some b), w')"
  shows "eb_Number b = n" "eb_ChainId b \<noteq> c"
  using assms unfolding numbered_client_def on_env_def by (auto split: prod.splits)

context persistence
begin

text \<open>
  The records of chain \<open>c\<close> are kept under their own numbers, none lies above the block processed
  last, consecutive ones are linked by hash, with a positive history size \<open>H\<close> those from block 1 on lie
  less than \<open>H\<close> blocks below it, and between two records from block 1 on no block is missing. (The record of
  block 0 is never pruned.)
\<close>

definition history_inv :: "go_int \<Rightarrow> ChainId \<Rightarrow> 's \<Rightarrow> bool" where
  "history_inv H c s \<longleftrightarrow> opened s \<and>
     (\<forall>n r. stored s c n = Some r \<longrightarrow> br_Number r = n \<and> br_ChainId r = c) \<and>
     (\<forall>n r. stored s c n = Some r \<longrightarrow> (\<exists>k. cursor s c = Some k \<and> n \<le> k)) \<and>
     (\<forall>n r r'. stored s c n = Some r \<longrightarrow> stored s c (n + 1) = Some r' \<longrightarrow> n < n + 1 \<longrightarrow>
        br_ParentHash r' = br_Hash r) \<and>
     (\<forall>n r k. stored s c n = Some r \<longrightarrow> cursor s c = Some k \<longrightarrow> 0 < n \<longrightarrow> 0 < sint H \<longrightarrow>
        unat k < unat n + unat H) \<and>
     (\<forall>n n'. stored s c n \<noteq> None \<longrightarrow> stored s c n' \<noteq> None \<longrightarrow> 0 < n \<longrightarrow> n < n' \<longrightarrow>
        stored s c (n + 1) \<noteq> None)"

lemma history_invD:
  assumes "history_inv H c s"
  shows "opened s"
    and "stored s c n = Some r \<Longrightarrow> br_Number r = n \<and> br_ChainId r = c"
    and "stored s c n = Some r \<Longrightarrow> cursor s c = Some k \<Longrightarrow> n \<le> k"
    and "stored s c n = Some r \<Longrightarrow> stored s c (n + 1) = Some r' \<Longrightarrow> n < n + 1 \<Longrightarrow>
      br_ParentHash r' = br_Hash r"
    and "stored s c n = Some r \<Longrightarrow> cursor s c = Some k \<Longrightarrow> 0 < n \<Longrightarrow> 0 < sint H \<Longrightarrow>
      unat k < unat n + unat H"
    and "stored s c n \<noteq> None \<Longrightarrow> stored s c n' \<noteq> None \<Longrightarrow> 0 < n \<Longrightarrow> n < n' \<Longrightarrow>
      stored s c (n + 1) \<noteq> None"
proof -
  show "opened s" "stored s c n = Some r \<Longrightarrow> br_Number r = n \<and> br_ChainId r = c"
    "stored s c n = Some r \<Longrightarrow> stored s c (n + 1) = Some r' \<Longrightarrow> n < n + 1 \<Longrightarrow>
      br_ParentHash r' = br_Hash r"
    "stored s c n = Some r \<Longrightarrow> cursor s c = Some k \<Longrightarrow> 0 < n \<Longrightarrow> 0 < sint H \<Longrightarrow>
      unat k < unat n + unat H"
    "stored s c n \<noteq> None \<Longrightarrow> stored s c n' \<noteq> None \<Longrightarrow> 0 < n \<Longrightarrow> n < n' \<Longrightarrow>
      stored s c (n + 1) \<noteq> None"
    using assms unfolding history_inv_def by blast+
  assume "stored s c n = Some r" "cursor s c = Some k"
  then show "n \<le> k" using assms unfolding history_inv_def by fastforce
qed

text \<open>There are at most \<open>H\<close> records from block 1 on.\<close>

lemma history_inv_card:
  assumes inv: "history_inv H c s" and H: "0 < sint H"
  shows "card {n. 0 < n \<and> stored s c n \<noteq> None} \<le> unat H"
proof (cases "cursor s c")
  case None
  then have "{n. 0 < n \<and> stored s c n \<noteq> None} = {}" using inv unfolding history_inv_def by fastforce
  then show ?thesis by (simp only: card.empty)
next
  case (Some k)
  let ?S = "{n. 0 < n \<and> stored s c n \<noteq> None}"
  have "unat ` ?S \<subseteq> {Suc (unat k) - unat H..<Suc (unat k)}"
    using history_invD(3) [OF inv _ Some] history_invD(5) [OF inv _ Some _ H]
    by (fastforce simp: word_le_nat_alt)
  then have "card (unat ` ?S) \<le> card {Suc (unat k) - unat H..<Suc (unat k)}" by (rule card_mono [rotated]) simp
  moreover have "card (unat ` ?S) = card ?S" by (rule card_image) (auto intro!: inj_onI simp: word_unat_eq_iff)
  ultimately show ?thesis by simp
qed

text \<open>
  Dropping the records above some block keeps the invariant, if none is left above the cursor and the
  cursor does not move up.
\<close>

lemma history_inv_drop:
  assumes "history_inv H c s" "opened s'"
    and st: "\<And>n. stored s' c n = (if q < n then None else stored s c n)"
    and "\<And>n r. stored s' c n = Some r \<Longrightarrow>
      \<exists>k k0. cursor s' c = Some k \<and> cursor s c = Some k0 \<and> n \<le> k \<and> k \<le> k0"
  shows "history_inv H c s'"
proof -
  have old: "stored s c n = Some r" if "stored s' c n = Some r" for n r
    using that st by (auto split: if_splits)
  have "unat k < unat n + unat H"
    if n: "stored s' c n = Some r" and k: "cursor s' c = Some k" and pos: "0 < n" "0 < sint H" for n r k
  proof -
    obtain k0 where k0: "cursor s c = Some k0" "k \<le> k0" using assms(4) [OF n] k by auto
    have "unat k0 < unat n + unat H"
      by (rule history_invD(5) [OF assms(1) old [OF n] k0(1) pos])
    with k0(2) show ?thesis by (simp add: word_le_nat_alt)
  qed
  moreover have "\<exists>k. cursor s' c = Some k \<and> n \<le> k" if "stored s' c n = Some r" for n r
    using assms(4) [OF that] by blast
  moreover have "br_Number r = n \<and> br_ChainId r = c" if "stored s' c n = Some r" for n r
    by (rule history_invD(2) [OF assms(1) old [OF that]])
  moreover have "br_ParentHash r' = br_Hash r"
    if "stored s' c n = Some r" "stored s' c (n + 1) = Some r'" "n < n + 1" for n r r'
    by (rule history_invD(4) [OF assms(1) old [OF that(1)] old [OF that(2)] that(3)])
  moreover have "stored s' c (n + 1) \<noteq> None"
    if "stored s' c n \<noteq> None" "stored s' c n' \<noteq> None" "0 < n" "n < n'" for n n'
  proof -
    have "n' \<le> q" "stored s c n \<noteq> None" "stored s c n' \<noteq> None"
      using that(1,2) st by (auto split: if_splits)
    moreover have "n + 1 \<le> n'" using that(4) by (simp add: inc_le)
    ultimately show ?thesis using history_invD(6) [OF assms(1) _ _ that(3,4)] st [of "n + 1"] by auto
  qed
  ultimately show ?thesis using assms(2) unfolding history_inv_def by blast
qed

text \<open>Adding the successor of the block processed last keeps it.\<close>

lemma history_inv_extend:
  assumes inv: "history_inv H c s" and op: "opened s'"
    and last: "cursor s c = Some k" "stored s c k = Some rk" and k: "k < k + 1"
    and r: "br_Number r = k + 1" "br_ChainId r = c" "br_ParentHash r = br_Hash rk"
    and eq: "\<And>n. stored s' c n = (if 0 < sint H \<and> 0 < n \<and> unat n + unat H = unat (k + 1) then None
      else if n = k + 1 then Some r else stored s c n)"
    and cur: "cursor s' c = Some (k + 1)"
  shows "history_inv H c s'"
proof -
  have st: "((stored s c)(k + 1 \<mapsto> r)) n = Some x" if "stored s' c n = Some x" for n x
    using that eq by (auto split: if_splits)
  have above: "n \<le> k" if "stored s c n = Some x" for n x
    using history_invD(3) [OF inv that last(1)] .
  have below: "n = k + 1 \<or> n \<le> k" if "stored s' c n = Some x" for n x
    using st [OF that] above by (auto split: if_splits)
  have rec: "br_Number x = n \<and> br_ChainId x = c" if "stored s' c n = Some x" for n x
    using st [OF that] history_invD(2) [OF inv] r(1,2) by (auto split: if_splits)
  have link: "br_ParentHash y = br_Hash x"
    if x: "stored s' c n = Some x" and y: "stored s' c (n + 1) = Some y" and n: "n < n + 1" for n x y
  proof (cases "n = k")
    case True
    then have "x = rk" "y = r" using st [OF x] st [OF y] last(2) k by (auto split: if_splits)
    with r(3) show ?thesis by simp
  next
    case False
    then have "n + 1 \<noteq> k + 1" by simp
    moreover have "n \<noteq> k + 1"
    proof
      assume eq: "n = k + 1"
      from below [OF y] have "n + 1 \<le> k + 1" using k by auto
      with n eq show False by simp
    qed
    ultimately have "stored s c n = Some x" "stored s c (n + 1) = Some y"
      using st [OF x] st [OF y] by (auto split: if_splits)
    with n show ?thesis using history_invD(4) [OF inv] by blast
  qed
  have "\<exists>j. cursor s' c = Some j \<and> n \<le> j" if "stored s' c n = Some x" for n x
    using below [OF that] k cur by auto
  moreover have "unat j < unat n + unat H"
    if x: "stored s' c n = Some x" and j: "cursor s' c = Some j" and pos: "0 < n" "0 < sint H" for n x j
  proof (cases "n = k + 1")
    case True
    have "0 < unat H" by (rule sint_pos_unat [OF pos(2)])
    with True j cur show ?thesis by simp
  next
    case False
    with st [OF x] have "stored s c n = Some x" by simp
    from history_invD(5) [OF inv this last(1) pos] have "unat k < unat n + unat H" .
    moreover have "unat (k + 1) = Suc (unat k)" by (rule unat_Suc_no_wrap [OF k])
    moreover have "unat n + unat H \<noteq> unat (k + 1)" using eq [of n] pos x by auto
    ultimately show ?thesis using j cur by simp
  qed
  moreover have "stored s' c (n + 1) \<noteq> None"
    if x: "stored s' c n \<noteq> None" and y: "stored s' c n' \<noteq> None" and pos: "0 < n" and n: "n < n'" for n n'
  proof -
    have s: "unat (k + 1) = Suc (unat k)" by (rule unat_Suc_no_wrap [OF k])
    have "n' = k + 1 \<or> n' \<le> k" using below y by auto
    with n k have nk: "n \<le> k" using inc_le s by (auto simp: word_less_nat_alt word_le_nat_alt)
    with k have old: "stored s c n \<noteq> None" using x eq [of n] by (auto split: if_splits)
    have s1: "unat (n + 1) = Suc (unat n)"
      using nk k s unat_uint64_bound [of "k + 1"] by (intro unat_Suc_word) (simp add: word_le_nat_alt)
    have "n + 1 = k + 1 \<or> stored s c (n + 1) \<noteq> None"
    proof (cases "n = k")
      case False
      with nk have "n < k" by simp
      then show ?thesis using history_invD(6) [OF inv old _ pos, of k] last(2) by simp
    qed simp
    moreover have "\<not> (0 < sint H \<and> unat (n + 1) + unat H = unat (k + 1))"
    proof
      assume H: "0 < sint H \<and> unat (n + 1) + unat H = unat (k + 1)"
      obtain x' where "stored s c n = Some x'" using old by auto
      from history_invD(5) [OF inv this last(1) pos] H s s1 show False by simp
    qed
    ultimately show ?thesis using eq [of "n + 1"] by auto
  qed
  ultimately show ?thesis using op rec link unfolding history_inv_def by blast
qed

section \<open>Reconciliation keeps the invariant\<close>

text \<open>
  The state of the search: every record above \<open>p\<close> is among the orphaned ones found so far, which
  are records of the store; the current record, if there is one, is the one just above \<open>p\<close>.
\<close>

definition search_inv ::
  "ChainId \<Rightarrow> 's \<Rightarrow> uint64 \<Rightarrow> BlockRecord option \<Rightarrow> BlockRecord list \<Rightarrow> bool" where
  "search_inv c s p prev acc \<longleftrightarrow> opened s \<and>
     (\<forall>n x. stored s c n = Some x \<longrightarrow> br_Number x = n \<and> br_ChainId x = c) \<and>
     (\<forall>n x. p < n \<longrightarrow> stored s c n = Some x \<longrightarrow> x \<in> set acc) \<and>
     (\<forall>x \<in> set acc. br_ChainId x = c \<and> stored s c (br_Number x) = Some x \<and> p < br_Number x) \<and>
     (\<forall>x. prev = Some x \<longrightarrow> x \<in> set acc \<and> br_Number x = p + 1 \<and> p < p + 1)"

text \<open>What the search leaves: the records of the chain as they were, and a cursor with no record
  above it but the ones found, if it has moved. Those found are the records above some block \<open>q\<close>.\<close>

definition searched ::
  "ChainId \<Rightarrow> 's \<Rightarrow> BlockRecord list \<times> error option \<Rightarrow> 's \<Rightarrow> bool" where
  "searched c s res s' \<longleftrightarrow> opened s' \<and> stored s' c = stored s c \<and>
     (\<forall>x \<in> set (fst res). br_ChainId x = c \<and> stored s c (br_Number x) = Some x) \<and>
     (\<exists>q. \<forall>n x. stored s c n = Some x \<longrightarrow> (x \<in> set (fst res) \<longleftrightarrow> q < n)) \<and>
     (cursor s' c = cursor s c \<or>
      snd res = None \<and>
      (\<exists>a. cursor s' c = Some a \<and> stored s c a \<noteq> None \<and> (\<forall>n x. a < n \<longrightarrow> stored s c n = Some x \<longrightarrow> x \<in> set (fst res))))"

lemma search_inv_upper:
  assumes "search_inv c s p prev acc" "stored s c n = Some x"
  shows "x \<in> set acc \<longleftrightarrow> p < n"
proof
  have "br_Number x = n" using assms unfolding search_inv_def by blast
  then show "p < n" if "x \<in> set acc" using assms(1) that unfolding search_inv_def by blast
  show "x \<in> set acc" if "p < n" using assms that unfolding search_inv_def by blast
qed

lemma searched_same:
  "opened s' \<Longrightarrow> stored s' c = stored s c \<Longrightarrow> cursor s' c = cursor s c \<Longrightarrow>
    search_inv c s p prev acc \<Longrightarrow> rs = acc \<or> rs = [] \<Longrightarrow> searched c s (rs, e) s'"
proof -
  assume inv: "search_inv c s p prev acc" and rs: "rs = acc \<or> rs = []"
    and s': "opened s'" "stored s' c = stored s c" "cursor s' c = cursor s c"
  have "\<exists>q. \<forall>n x. stored s c n = Some x \<longrightarrow> (x \<in> set rs \<longleftrightarrow> q < n)"
    using rs search_inv_upper [OF inv] by (cases "rs = []") (auto intro: exI [of _ "- 1"])
  with inv rs s' show ?thesis by (auto simp: searched_def search_inv_def)
qed

lemma searched_saved:
  assumes "search_inv c s p prev acc" "stored s c a = Some x" "p \<le> a" "SaveBlock P (Some x) s = (e, s')"
  shows "searched c s (acc, e) s'"
proof -
  have x: "br_Number x = a" "br_ChainId x = c" and op: "opened s"
    using assms(1,2) by (auto simp: search_inv_def)
  note s' = saveD [OF op assms(4)]
  have "stored s' c = stored s c" "cursor s' c = Some a"
    using s'(3,4) x assms(2) by (simp_all add: fun_upd_idem)
  moreover have "y \<in> set acc" if "a < n" "stored s c n = Some y" for n y
    using search_inv_upper [OF assms(1) that(2)] that(1) assms(3) by auto
  moreover have "\<forall>y \<in> set acc. br_ChainId y = c \<and> stored s c (br_Number y) = Some y"
    using assms(1) unfolding search_inv_def by blast
  moreover have "\<exists>q. \<forall>n y. stored s c n = Some y \<longrightarrow> (y \<in> set acc \<longleftrightarrow> q < n)"
    using search_inv_upper [OF assms(1)] by blast
  ultimately show ?thesis using s'(1,2) assms(2) unfolding searched_def by simp
qed

lemma search_inv_step:
  assumes "search_inv c s p prev acc" "stored s c p = Some x" "0 < p"
  shows "search_inv c s (p - 1) (Some x) (acc @ [x])"
proof -
  have above: "n = p \<or> p < n" if "p - 1 < n" for n
    using that unat_pred_of_less [OF assms(3)]
    by (auto simp: word_less_nat_alt word_unat_eq_iff)
  have "p - 1 < p - 1 + 1" using unat_minus_one_less [OF assms(3)] by (simp add: word_less_nat_alt)
  moreover have "xa \<in> set (acc @ [x])" if "p - 1 < n" "stored s c n = Some xa" for n xa
    using above [OF that(1)] that(2) assms(1,2) by (auto simp: search_inv_def)
  moreover have "br_ChainId y = c \<and> stored s c (br_Number y) = Some y \<and> p - 1 < br_Number y"
    if "y \<in> set (acc @ [x])" for y
  proof (cases "y = x")
    case True
    have "br_Number x = p \<and> br_ChainId x = c" using assms(1,2) unfolding search_inv_def by blast
    with True assms(2,3) show ?thesis using unat_minus_one_less [OF assms(3)] by (simp add: word_less_nat_alt)
  next
    case False
    then have "y \<in> set acc" using that by simp
    then have "br_ChainId y = c \<and> stored s c (br_Number y) = Some y \<and> p < br_Number y"
      using assms(1) unfolding search_inv_def by blast
    moreover have "p - 1 < p" using unat_minus_one_less [OF assms(3)] by (simp add: word_less_nat_alt)
    ultimately show ?thesis by (auto intro: less_trans)
  qed
  moreover have "opened s" "\<forall>n y. stored s c n = Some y \<longrightarrow> br_Number y = n \<and> br_ChainId y = c"
    using assms(1) unfolding search_inv_def by blast+
  ultimately show ?thesis using assms(2) unfolding search_inv_def by simp
qed

lemma findOrphaned_searched:
  assumes P: "ecp_store ecp = P" and c: "c = cfg_ChainId (ecp_config ecp)"
    and client: "numbered_client (ecp_ethClient ecp) c"
  shows "search_inv c (w_store w) p prev acc \<Longrightarrow>
    findOrphaned_loop ecp st d p prev acc w = (res, w') \<Longrightarrow> searched c (w_store w) res (w_store w')"
proof (induction "unat p" arbitrary: p prev acc w rule: less_induct)
  case less
  have op: "opened (w_store w)"
    and acc: "\<And>x. x \<in> set acc \<Longrightarrow> br_ChainId x = c \<and> stored (w_store w) c (br_Number x) = Some x"
    using less.prems(1) by (auto simp: search_inv_def)
  show ?case
  proof (cases "st - p \<le> d \<and> p > 0")
    case False
    then have run: "(let (e, w1) = on_store (SaveBlock P prev) w in ((acc, e), w1)) = (res, w')"
      using less.prems(2) by (subst (asm) findOrphaned_loop.simps) (simp only: False if_False P)
    show ?thesis
    proof (cases prev)
      case None
      obtain err where err: "SaveBlock P None (w_store w) = (Some err, w_store w)"
        using save_nil_law [OF op] by blast
      with run None have "res = (acc, Some err)" "w' = w" by (simp_all add: on_store_def)
      with op show ?thesis by (auto intro: searched_same [OF _ _ _ less.prems(1)])
    next
      case (Some x)
      obtain e s1 where s1: "SaveBlock P (Some x) (w_store w) = (e, s1)" by fastforce
      from less.prems(1) Some have x: "x \<in> set acc" "br_Number x = p + 1" "p < p + 1"
        by (simp_all add: search_inv_def)
      have "stored (w_store w) c (p + 1) = Some x" "p \<le> p + 1"
        using acc [OF x(1)] x(2,3) by (simp_all add: less_imp_le)
      from searched_saved [OF less.prems(1) this s1] show ?thesis
        using run s1 Some by (auto simp: on_store_def)
    qed
  next
    case True
    obtain res1 w1 where w1: "on_env (GetBlockByNumber (ecp_ethClient ecp) p) w = (res1, w1)" by fastforce
    have st1: "w_store w1 = w_store w" using on_envD [OF w1] by simp
    then have same: "w1\<lparr>w_store := w_store w\<rparr> = w1" by (cases w1) simp
    show ?thesis
    proof (cases "\<exists>b. res1 = Inr (Some b)")
      case False
      with less.prems(2) True w1 have "w' = w1" "fst res = []"
        by (subst (asm) findOrphaned_loop.simps; auto split: sum.splits option.splits)+
      then show ?thesis using op st1 by (cases res) (auto intro: searched_same [OF _ _ _ less.prems(1)])
    next
      case b: True
      then obtain b where b: "res1 = Inr (Some b)" ..
      show ?thesis
      proof (cases "stored (w_store w) c p")
        case (Some x)
        have "findOrphaned_loop ecp st d p prev acc w =
          (if eb_Hash b \<noteq> br_Hash x then findOrphaned_loop ecp st d (p - 1) (Some x) (acc @ [x]) w1
           else let (e, w2) = on_store (SaveBlock P (Some x)) w1 in ((acc, e), w2))"
          using True w1 b Some op st1
          by (subst findOrphaned_loop.simps) (simp add: P on_store_def get_law same flip: c)
        then have x: "eb_Hash b \<noteq> br_Hash x \<Longrightarrow>
            findOrphaned_loop ecp st d (p - 1) (Some x) (acc @ [x]) w1 = (res, w')"
          "eb_Hash b = br_Hash x \<Longrightarrow>
            (let (e, w2) = on_store (SaveBlock P (Some x)) w1 in ((acc, e), w2)) = (res, w')"
          using less.prems(2) by simp_all
        show ?thesis
        proof (cases "eb_Hash b = br_Hash x")
          case True
          obtain e s1 where s1: "SaveBlock P (Some x) (w_store w) = (e, s1)" by fastforce
          from searched_saved [OF less.prems(1) Some order_refl s1] show ?thesis
            using x(2) [OF True] s1 st1 by (auto simp: on_store_def)
        next
          case False
          have "search_inv c (w_store w1) (p - 1) (Some x) (acc @ [x])"
            using search_inv_step [OF less.prems(1) Some] True st1 by simp
          from less.hyps [OF _ this x(1) [OF False]] show ?thesis
            using True st1 by (auto intro: unat_minus_one_less)
        qed
      next
        case None
        let ?r = "record_of b (eb_ChainId b)"
        have other: "br_ChainId ?r \<noteq> c"
          using numbered_clientD(2) [OF client w1 [unfolded b]] by (simp add: record_of_def)
        obtain e1 s1 where s1: "SaveBlock P (Some ?r) (w_store w) = (e1, s1)" by fastforce
        note s1s = saveD [OF op s1]
        obtain e2 s2 where s2: "SaveBlock P (Some ?r) s1 = (e2, s2)" by fastforce
        note s2s = saveD [OF s1s(2) s2]
        have "res = (acc, e2)" "w_store w' = s2"
          using less.prems(2) True w1 b None op st1 s1 s2
          by (subst (asm) findOrphaned_loop.simps; auto simp: P on_store_def get_law record_of_def simp flip: c)+
        then show ?thesis
          using s1s s2s other by (auto intro!: searched_same [OF _ _ _ less.prems(1)])
      qed
    qed
  qed
qed

text \<open>
  Deleting the records found: what reconciliation leaves are the records up to some block, none above
  the cursor, which has not moved up.
\<close>

definition reconciled :: "ChainId \<Rightarrow> 's \<Rightarrow> 's \<Rightarrow> bool" where
  "reconciled c s s' \<longleftrightarrow> opened s' \<and>
     (\<exists>q. \<forall>n. stored s' c n = (if q < n then None else stored s c n)) \<and>
     (\<forall>n r. stored s' c n = Some r \<longrightarrow>
        (\<exists>k k0. cursor s' c = Some k \<and> cursor s c = Some k0 \<and> n \<le> k \<and> k \<le> k0))"

lemma reconcile_reconciled:
  assumes P: "ecp_store ecp = P" and c: "c = cfg_ChainId (ecp_config ecp)"
    and client: "numbered_client (ecp_ethClient ecp) c"
    and inv: "history_inv H c (w_store w)" and last: "cursor (w_store w) c = Some k"
    and b: "eb_Number b = k + 1"
  shows "reconciled c (w_store w) (w_store (snd (reconcileReorg ecp b w)))"
proof -
  let ?s = "w_store w"
  note above = history_invD(3) [OF inv _ last]
  have start: "search_inv c ?s k None []"
    using history_invD(1,2) [OF inv] above
    unfolding search_inv_def by (fastforce simp: linorder_not_less [symmetric])
  obtain rs e w1 where f: "findOrphaned_loop ecp (k + 1) (cfg_MaxReorgDepth (ecp_config ecp)) k None [] w =
      ((rs, e), w1)" by (metis surj_pair)
  have found: "searched c ?s (rs, e) (w_store w1)" by (rule findOrphaned_searched [OF P c client start f])
  then have op1: "opened (w_store w1)" and st1: "stored (w_store w1) c = stored ?s c"
    and rs: "\<forall>x \<in> set rs. br_ChainId x = c" by (auto simp: searched_def)
  show ?thesis
  proof (cases "e = None \<and> rs \<noteq> []")
    case False
    then have "snd (reconcileReorg ecp b w) = w1"
      using f b by (auto simp: reconcileReorg_def findOrphanedBlocks_def split: option.split)
    moreover have "\<exists>k k0. cursor (w_store w1) c = Some k \<and> cursor ?s c = Some k0 \<and> n \<le> k \<and> k \<le> k0"
      if n: "stored ?s c n = Some r" for n r
    proof (cases "cursor (w_store w1) c = cursor ?s c")
      case True
      with last above [OF n] show ?thesis by auto
    next
      case moved: False
      then have "rs = []" using found False by (auto simp: searched_def)
      with found n last above [OF n] above show ?thesis
        by (auto simp: searched_def linorder_not_less [symmetric])
    qed
    ultimately show ?thesis
      using op1 st1 by (auto simp: reconciled_def intro!: exI [of _ "- 1"])
  next
    case True
    from delete_orphaned_eq [OF P op1 rs, of "\<lambda>_. True"] obtain s' e' where
      s': "deletes_all (w_store w1) c (br_Number ` set rs) s'"
      "snd (delete_orphaned ecp rs w1) = \<lparr>w_store = s', w_env = e',
        w_calls = w_calls w1 @ map (\<lambda>r. CallHandleReorgBlock (br_Number r)) rs\<rparr>" by auto
    then have st': "stored s' c = (\<lambda>n. if n \<in> br_Number ` set rs then None else stored ?s c n)"
      and cur': "cursor s' = cursor (w_store w1)" and op': "opened s'"
      using st1 by (auto simp: deletes_all_def)
    have "\<exists>k k0. cursor s' c = Some k \<and> cursor ?s c = Some k0 \<and> n \<le> k \<and> k \<le> k0"
      if n: "stored s' c n = Some r" for n r
    proof -
      have nr: "stored ?s c n = Some r" and "n \<notin> br_Number ` set rs"
        using n st' by (auto split: if_splits)
      moreover have "br_Number r = n" using history_invD(2) [OF inv nr] by simp
      ultimately have "r \<notin> set rs" by auto
      then show ?thesis
        using found nr cur' last above [OF nr] above
        by (auto simp: searched_def linorder_not_less [symmetric])
    qed
    moreover have "\<exists>q. \<forall>n. stored s' c n = (if q < n then None else stored ?s c n)"
    proof -
      obtain q where q: "\<And>n x. stored ?s c n = Some x \<Longrightarrow> x \<in> set rs \<longleftrightarrow> q < n"
        using found unfolding searched_def by auto
      have own: "stored ?s c (br_Number y) = Some y" if "y \<in> set rs" for y
        using found that unfolding searched_def by auto
      have "stored s' c n = (if q < n then None else stored ?s c n)" for n
      proof (cases "stored ?s c n")
        case (Some x)
        have "n \<in> br_Number ` set rs \<longleftrightarrow> x \<in> set rs"
          using own history_invD(2) [OF inv Some] Some by (metis image_iff option.inject)
        with q [OF Some] st' show ?thesis by simp
      qed (simp add: st')
      then show ?thesis by blast
    qed
    moreover have "snd (reconcileReorg ecp b w) = snd (delete_orphaned ecp rs w1)"
      using f b True by (simp add: reconcileReorg_def findOrphanedBlocks_def)
    ultimately show ?thesis using s'(2) op' by (auto simp: reconciled_def)
  qed
qed

lemma reconcile_inv:
  assumes "ecp_store ecp = P" and "c = cfg_ChainId (ecp_config ecp)"
    and "numbered_client (ecp_ethClient ecp) c"
    and "history_inv H c (w_store w)" and "cursor (w_store w) c = Some k" and "eb_Number b = k + 1"
  shows "history_inv H c (w_store (snd (reconcileReorg ecp b w)))"
proof -
  obtain q where "\<And>n. stored (w_store (snd (reconcileReorg ecp b w))) c n =
      (if q < n then None else stored (w_store w) c n)"
    using reconcile_reconciled [OF assms] unfolding reconciled_def by blast
  with reconcile_reconciled [OF assms] show ?thesis
    unfolding reconciled_def by (intro history_inv_drop [OF assms(4)]) blast+
qed

section \<open>Every step keeps the invariant\<close>

text \<open>
  A record is \<open>delivered\<close> when the calls have the announcement of its block followed at once by all
  logs that a fetch for the block gave. The invariant of a run: the history is as above, and
  every record but the given one, that of the start block, is delivered.
\<close>

definition run_inv ::
  "go_int \<Rightarrow> ChainId \<Rightarrow> ('s, 'e) EVMChainPoller \<Rightarrow> BlockRecord \<Rightarrow> ('s, 'e) world \<Rightarrow> bool" where
  "run_inv H c ecp r0 w \<longleftrightarrow> history_inv H c (w_store w) \<and>
     (\<forall>n x. stored (w_store w) c n = Some x \<longrightarrow> x = r0 \<or> delivered ecp (w_calls w) x)"

lemma run_invD: "run_inv H c ecp r0 w \<Longrightarrow> history_inv H c (w_store w)"
  by (simp add: run_inv_def)

lemma run_inv_env:
  "run_inv H c ecp r0 w \<Longrightarrow> w_store w' = w_store w \<Longrightarrow> w_calls w' = w_calls w @ cs \<Longrightarrow>
     run_inv H c ecp r0 w'"
  by (simp add: run_inv_def) (blast intro: delivered_append)

lemma run_inv_reconcile:
  assumes P: "ecp_store ecp = P" and c: "c = cfg_ChainId (ecp_config ecp)"
    and client: "numbered_client (ecp_ethClient ecp) c"
    and inv: "run_inv H c ecp r0 w" and last: "cursor (w_store w) c = Some k" and b: "eb_Number b = k + 1"
  shows "run_inv H c ecp r0 (snd (reconcileReorg ecp b w))"
proof -
  let ?w' = "snd (reconcileReorg ecp b w)"
  have "stored (w_store w) c n = Some x" if "stored (w_store ?w') c n = Some x" for n x
    using reconcile_reconciled [OF P c client run_invD [OF inv] last b] that
    unfolding reconciled_def by (metis option.distinct(1))
  moreover obtain ns where "w_calls ?w' = w_calls w @ map CallHandleReorgBlock ns"
    using reconcileReorg_calls [of ecp b w] by blast
  ultimately show ?thesis
    using inv reconcile_inv [OF P c client run_invD [OF inv] last b] delivered_append
    unfolding run_inv_def by metis
qed

text \<open>A block that was recorded extends the history; one that was not leaves it alone.\<close>

lemma run_inv_block:
  assumes P: "ecp_store ecp = P" and c: "c = cfg_ChainId (ecp_config ecp)"
    and H: "H = cfg_BlockHistorySize (ecp_config ecp)"
    and inv: "run_inv H c ecp r0 w" and last: "cursor (w_store w) c = Some k"
      "stored (w_store w) c k = Some r" and k: "k < k + 1"
    and b: "eb_Number b = k + 1" "eb_ParentHash b = br_Hash r"
    and hb: "call_HandleBlock ecp b w = (e, w1)"
    and run: "processBlockLogs ecp b w1 = (Ret (Inr r'), w')"
  shows "run_inv H c ecp r0 w' \<and> cursor (w_store w') c = Some (k + 1) \<and>
    stored (w_store w') c (k + 1) = Some r'"
proof -
  note hist = run_invD [OF inv] and first = call_HandleBlockD [OF hb]
  from run obtain logs e1 ds w2 where
    f: "fetchLogsForInterestingContractsForBlock ecp (eb_Number b) (w_env w1) = (Ret (Inr logs), e1)"
    "length ds = length logs" "w_calls w2 = w_calls w1 @ log_calls (on_chain ecp b) logs ds" and
    w2: "w_store w2 = w_store w" "r' = record_of b c"
    "w' = prune_old ecp r' (snd (on_store (SaveBlock (ecp_store ecp) (Some r')) w2))"
    by (rule processBlockLogs_saved) (auto simp: c first)
  have op: "opened (w_store w2)" using history_invD(1) [OF hist] w2(1) by simp
  note sp = save_and_prune [OF P c op w2(2), folded w2(3), unfolded w2(1) b(1), folded H]
  have st: "stored (w_store w') c n = (if 0 < sint H \<and> 0 < n \<and> unat n + unat H = unat (k + 1) then None
      else if n = k + 1 then Some r' else stored (w_store w) c n)" for n
    using sp(2) spec_index_apply [OF b(1)] w2(2) by simp
  have "unat (k + 1) + unat H \<noteq> unat (k + 1)" if "0 < sint H"
    using that by (auto simp: unat_eq_zero)
  then have new: "stored (w_store w') c (k + 1) = Some r'" using st by simp
  have cur: "cursor (w_store w') c = Some (k + 1)" using sp(3) by simp
  have "history_inv H c (w_store w')"
    by (rule history_inv_extend [OF hist sp(1) last k, of r'])
      (use w2(2) b cur st in \<open>auto simp: record_of_def split: if_splits\<close>)
  moreover have calls: "w_calls w' = w_calls w @ CallHandleBlock b # log_calls (on_chain ecp b) logs ds"
    using sp(5) f(3) first by simp
  moreover have "delivered ecp (w_calls w') r'"
    unfolding calls by (rule deliveredI [OF w2(2) [unfolded c] f(1,2)])
  ultimately have "run_inv H c ecp r0 w'"
    using inv st delivered_append unfolding run_inv_def by (metis option.distinct(1) option.inject)
  with new cur show ?thesis by blast
qed

lemma process_blocks_inv:
  assumes P: "ecp_store ecp = P" and c: "c = cfg_ChainId (ecp_config ecp)"
    and H: "H = cfg_BlockHistorySize (ecp_config ecp)"
    and client: "numbered_client (ecp_ethClient ecp) c"
  shows "k \<le> m \<Longrightarrow> run_inv H c ecp r0 w \<Longrightarrow> cursor (w_store w) c = Some k \<Longrightarrow>
    stored (w_store w) c k = Some r \<Longrightarrow> process_blocks ecp r (up k m) w = (res, w') \<Longrightarrow>
    run_inv H c ecp r0 w'"
proof (induction "unat m - unat k" arbitrary: k r w)
  case 0
  then have "k = m" by (simp add: word_le_nat_alt word_unat_eq_iff)
  with 0 show ?case by simp
next
  case (Suc x)
  from Suc.hyps(2) have k: "k < m" by (auto simp: word_less_nat_alt)
  then have s: "unat (k + 1) = Suc (unat k)"
    using unat_max_uint64 unat_uint64_bound [of m]
    by (intro unat_Suc_word) (simp add: word_less_nat_alt)
  have bounds: "k < k + 1" "k + 1 \<le> m" "x = unat m - unat (k + 1)"
    using s k Suc.hyps(2) by (simp_all add: word_le_nat_alt word_less_nat_alt)
  obtain res1 w1 where w1: "on_env (GetBlockByNumber (ecp_ethClient ecp) (k + 1)) w = (res1, w1)" by fastforce
  have st1: "w_store w1 = w_store w" and inv1: "run_inv H c ecp r0 w1"
    using on_envD [OF w1] run_inv_env [OF Suc.prems(2), of w1 "[]"] by simp_all
  note run = Suc.prems(5) [unfolded up_step [OF k]]
  show ?case
  proof (cases "\<exists>b. res1 = Inr (Some b)")
    case False
    then have "w' = w1" using run w1 by (auto split: sum.splits option.splits)
    with inv1 show ?thesis by simp
  next
    case True
    then obtain b where b: "res1 = Inr (Some b)" ..
    have number: "eb_Number b = k + 1" using numbered_clientD(1) [OF client w1 [unfolded b]] .
    show ?thesis
    proof (cases "eb_ParentHash b = br_Hash r")
      case False
      then have "w' = snd (reconcileReorg ecp b w1)" using run w1 b by simp
      with run_inv_reconcile [OF P c client inv1 _ number] Suc.prems(3) st1 show ?thesis by simp
    next
      case parent: True
      obtain e2 w2 where w2: "call_HandleBlock ecp b w1 = (e2, w2)" by fastforce
      obtain res3 w3 where w3: "processBlockLogs ecp b w2 = (res3, w3)" by fastforce
      show ?thesis
      proof (cases "\<exists>r'. res3 = Ret (Inr r')")
        case False
        then have "w' = w3" using run w1 b parent w2 w3 by (auto split: go.splits sum.splits)
        moreover obtain cs where "w_calls w3 = w_calls w1 @ cs"
          using processBlockLogs_calls(3) [OF w3] call_HandleBlockD [OF w2] by auto
        ultimately show ?thesis
          using run_inv_env [OF inv1] processBlockLogs_calls(2) [OF w3 False] call_HandleBlockD [OF w2] by simp
      next
        case True
        then obtain r' where r': "res3 = Ret (Inr r')" ..
        have "run_inv H c ecp r0 w3 \<and> cursor (w_store w3) c = Some (k + 1) \<and>
            stored (w_store w3) c (k + 1) = Some r'"
          using run_inv_block [OF P c H inv1 _ _ bounds(1) number parent w2 w3 [unfolded r']] st1 Suc.prems(3,4)
          by simp
        moreover have "process_blocks ecp r' (up (k + 1) m) w3 = (res, w')"
          using run w1 b parent w2 w3 r' by simp
        ultimately show ?thesis using Suc.hyps(1) [OF bounds(3,2)] by blast
      qed
    qed
  qed
qed

lemma processNextBlock_inv:
  assumes P: "ecp_store ecp = P" and c: "c = cfg_ChainId (ecp_config ecp)"
    and H: "H = cfg_BlockHistorySize (ecp_config ecp)"
    and client: "numbered_client (ecp_ethClient ecp) c"
    and inv: "run_inv H c ecp r0 w" and run: "processNextBlock ecp w = Some (res, w')"
  shows "run_inv H c ecp r0 w'"
proof (cases "Option.bind (cursor (w_store w) c) (stored (w_store w) c)")
  case None
  have "w' = w"
    using None run history_invD(1) [OF run_invD [OF inv]]
    by (simp add: processNextBlock_def on_store_def last_law P flip: c)
  with inv show ?thesis by simp
next
  case (Some r)
  then obtain k where last: "cursor (w_store w) c = Some k" "stored (w_store w) c k = Some r"
    by (auto simp: bind_eq_Some_conv)
  have number: "br_Number r = k" using history_invD(2) [OF run_invD [OF inv] last(2)] by simp
  have inv1: "run_inv H c ecp r0 (w\<lparr>w_env := e\<rparr>)" for e
    by (rule run_inv_env [OF inv, of _ "[]"]) simp_all
  show ?thesis
  proof (rule processNextBlock_cases [OF P c history_invD(1) [OF run_invD [OF inv]] last number run], goal_cases)
    case (1 e1)
    with inv1 show ?thesis by simp
  next
    case (2 e1 m)
    from process_blocks_inv [OF P c H client 2(1) inv1 _ _ 2(2)] last show ?thesis by simp
  qed
qed

lemma polls_run_inv:
  assumes P: "ecp_store ecp = P" and c: "c = cfg_ChainId (ecp_config ecp)"
    and H: "H = cfg_BlockHistorySize (ecp_config ecp)"
    and client: "numbered_client (ecp_ethClient ecp) c"
    and "polls ecp (st, w) t" and "run_inv H c ecp r0 w"
  shows "run_inv H c ecp r0 (snd t)"
proof (rule polls_preserves [OF assms(5)], goal_cases)
  case 1
  with assms(6) show ?case by simp
next
  case (2 w res w')
  then show ?case by (rule processNextBlock_inv [OF P c H client])
next
  case (3 w e)
  then show ?case by (rule run_inv_env [where cs = "[]"]) simp_all
qed

section \<open>Starting\<close>

text \<open>A start on a chain without records saves the start block, and hands nothing over.\<close>

lemma Start_fresh:
  assumes P: "ecp_store ecp = P" and c: "c = cfg_ChainId (ecp_config ecp)"
    and op: "opened (w_store w)" and fresh: "stored (w_store w) c = Map.empty"
    and run: "Start ecp w = (Ret None, w')"
  obtains b where "run_inv H c ecp (record_of b c) w'" "cursor (w_store w') c = Some (eb_Number b)"
    "stored (w_store w') c = [eb_Number b \<mapsto> record_of b c]" "w_calls w' = w_calls w"
proof -
  have none: "Option.bind (cursor (w_store w) c) (stored (w_store w) c) = None"
    by (cases "cursor (w_store w) c") (simp_all add: fresh)
  define start where "start = (if cfg_GenesisBlockNumber (ecp_config ecp) > 0
    then (Inr (cfg_GenesisBlockNumber (ecp_config ecp)), w) else on_env (GetLatestBlock (ecp_ethClient ecp)) w)"
  have first: "on_store (GetLastProcessedBlock (ecp_store ecp) c) w = (Inl ErrNotFound, w)"
    using none op P by (simp add: on_store_def last_law)
  from run obtain n w2 where w2: "start = (Inr n, w2)"
    unfolding Start_def Let_def c [symmetric] first
    by (auto simp: start_def split: prod.splits sum.splits)
  have st2: "w_store w2 = w_store w" "w_calls w2 = w_calls w"
    using w2 on_envD [of "GetLatestBlock (ecp_ethClient ecp)" w "Inr n" w2]
    by (auto simp: start_def split: if_splits)
  from run w2 obtain b w3 where w3: "on_env (GetBlockByNumber (ecp_ethClient ecp) n) w2 = (Inr (Some b), w3)"
    unfolding Start_def Let_def c [symmetric] first
    by (auto simp: start_def split: prod.splits sum.splits option.splits)
  let ?r = "record_of b c"
  from run w2 w3 have save: "on_store (SaveBlock P (Some ?r)) w3 = (None, w')"
    unfolding Start_def Let_def c [symmetric] first
    by (auto simp: start_def P split: prod.splits option.splits)
  have st3: "w_store w3 = w_store w" "w_calls w3 = w_calls w" using on_envD [OF w3] st2 by simp_all
  obtain s' where s': "SaveBlock P (Some ?r) (w_store w) = (None, s')" "w' = w3\<lparr>w_store := s'\<rparr>"
    using save st3(1) by (auto simp: on_store_def split: prod.splits)
  note sd = saveD [OF op s'(1)]
  have st: "stored s' c = [eb_Number b \<mapsto> ?r]" "cursor s' c = Some (eb_Number b)"
    using sd(3,4) fresh by (simp_all add: record_of_def)
  have "history_inv H c s'"
    using sd(2) st sint_pos_unat [of H] unfolding history_inv_def
    by (auto simp: record_of_def split: if_splits)
  then have "run_inv H c ecp ?r w'" using st(1) s'(2) by (simp add: run_inv_def)
  with st st3 s'(2) that [of b] show thesis by simp
qed

end

end
