(* ===== verification/Poller_Progress.thy ===== *)
theory Poller_Progress
  imports Poller_Index
begin

text \<open>
  What a run leaves when anything but the content of the chain may fail: calls on the node, the
  parser and the handler may give errors or panic at any time, and the poller may be stopped and started again, but a block
  that the node does return is the one of a fixed hash-linked chain. Then the store always holds what the
  specification gives for the blocks up to some block, each of them was delivered, and a working
  environment takes the run up from there.
\<close>

definition truthful :: "'e Client \<Rightarrow> (uint64 \<Rightarrow> EthereumBlock) \<Rightarrow> bool" where
  "truthful C chain \<longleftrightarrow>
     (\<forall>n e b e'. GetBlockByNumber C n e = (Inr (Some b), e') \<longrightarrow> b = chain n)"

lemma truthfulD:
  assumes "truthful C chain" "on_env (GetBlockByNumber C n) w = (Inr (Some b), w')"
  shows "b = chain n"
  using assms unfolding truthful_def on_env_def by (auto split: prod.splits)

definition linked_from :: "(uint64 \<Rightarrow> EthereumBlock) \<Rightarrow> uint64 \<Rightarrow> bool" where
  "linked_from chain k \<longleftrightarrow> (\<forall>n. eb_Number (chain n) = n) \<and>
     (\<forall>n. k \<le> n \<longrightarrow> n < n + 1 \<longrightarrow> eb_ParentHash (chain (n + 1)) = eb_Hash (chain n))"

lemma linked_fromD:
  assumes "linked_from chain k"
  shows "eb_Number (chain n) = n"
    and "k \<le> n \<Longrightarrow> n < n + 1 \<Longrightarrow> eb_ParentHash (chain (n + 1)) = eb_Hash (chain n)"
  using assms unfolding linked_from_def by blast+

lemma up_snoc: "k \<le> j \<Longrightarrow> j < j + 1 \<Longrightarrow> up k (j + 1) = up k j @ [j + 1]"
proof -
  assume "k \<le> j" "j < j + 1"
  then have "unat (j + 1) = Suc (unat j)" "Suc (unat k) \<le> Suc (unat j)"
    by (simp_all add: unat_Suc_no_wrap word_le_nat_alt)
  moreover have "word_of_nat (Suc (unat j)) = j + 1" by (simp add: add.commute)
  ultimately show ?thesis by (simp add: up_def)
qed

lemma up_append: "k \<le> j \<Longrightarrow> j \<le> m \<Longrightarrow> up k m = up k j @ up j m"
  using upt_add_eq_append [of "Suc (unat k)" "Suc (unat j)" "unat m - unat j"]
  by (simp add: up_def word_le_nat_alt del: upt_Suc flip: map_append)

text \<open>
  The states that runs of the poller reach, one after the other, within one process: a run whose context
  is cancelled leaves the store in memory, and the next begins with \<^verbatim>\<open>Start\<close> in the state it left, but for
  the environment, which has moved on. A panic ends the process, and the store in memory with it: no run
  follows. A new process begins on an empty store, and so with the start block.
\<close>

inductive restarts ::
  "('s, 'e) EVMChainPoller \<Rightarrow> ('s, 'e) world \<Rightarrow> poll_status \<times> ('s, 'e) world \<Rightarrow> bool"
  for ecp :: "('s, 'e) EVMChainPoller" where
  first_run: "polls ecp (Running, w) t \<Longrightarrow> restarts ecp w t"
| next_run: "restarts ecp w (Stopped, w1) \<Longrightarrow> Start ecp (w1\<lparr>w_env := e\<rparr>) = (Ret None, w2) \<Longrightarrow>
    polls ecp (Running, w2) t \<Longrightarrow> restarts ecp w t"

context persistence
begin

text \<open>
  The store \<open>s\<close> holds, on chain \<open>c\<close>, what indexing the blocks above \<open>k\<close> up to \<open>j\<close> makes of the records
  \<open>st\<close>.
\<close>

definition indexed_to ::
  "go_int \<Rightarrow> ChainId \<Rightarrow> (uint64 \<Rightarrow> EthereumBlock) \<Rightarrow> uint64 \<Rightarrow> history \<Rightarrow> uint64 \<Rightarrow> 's \<Rightarrow> bool" where
  "indexed_to H c chain k st j s \<longleftrightarrow> opened s \<and> k \<le> j \<and> cursor s c = Some j \<and>
     stored s c = fold (spec_index H c) (map chain (up k j)) st"

lemma indexed_to_last:
  assumes "indexed_to H c chain k st j s" "linked_from chain k"
    and "st k = Some r" "br_Number r = k" "br_Hash r = eb_Hash (chain k)"
  obtains rj where "stored s c j = Some rj" "br_Number rj = j" "br_Hash rj = eb_Hash (chain j)"
proof -
  have le: "k \<le> j" and st: "stored s c j = fold (spec_index H c) (map chain (up k j)) st j"
    using assms(1) by (simp_all add: indexed_to_def)
  have "\<not> pruned H k j j" using sint_pos_unat [of H] by (auto simp: pruned_def)
  then have "stored s c j = (if k < j then Some (record_of (chain j) c) else st j)"
    unfolding st using index_history [OF linked_fromD(1) [OF assms(2)] le] by simp
  with that assms(3-5) le linked_fromD(1) [OF assms(2)] show thesis
    by (cases "k < j") (auto simp: record_of_def)
qed

text \<open>
  A run that has got to block \<open>j\<close>: in addition each block above \<open>k\<close> up to \<open>j\<close> was handed over together with all
  logs of a fetch for it.
\<close>

definition progress_to ::
  "('s, 'e) EVMChainPoller \<Rightarrow> go_int \<Rightarrow> ChainId \<Rightarrow> (uint64 \<Rightarrow> EthereumBlock) \<Rightarrow> uint64 \<Rightarrow> history \<Rightarrow> uint64
     \<Rightarrow> ('s, 'e) world \<Rightarrow> bool" where
  "progress_to ecp H c chain k st j w \<longleftrightarrow> indexed_to H c chain k st j (w_store w) \<and>
     (\<forall>n. k < n \<longrightarrow> n \<le> j \<longrightarrow> delivered ecp (w_calls w) (record_of (chain n) c))"

lemma progress_toD:
  assumes "progress_to ecp H c chain k st j w"
  shows "indexed_to H c chain k st j (w_store w)" "opened (w_store w)" "k \<le> j" "cursor (w_store w) c = Some j"
    "stored (w_store w) c = fold (spec_index H c) (map chain (up k j)) st"
  using assms by (simp_all add: progress_to_def indexed_to_def)

lemma progress_to_env:
  "progress_to ecp H c chain k st j w \<Longrightarrow> w_store w' = w_store w \<Longrightarrow> w_calls w' = w_calls w @ cs \<Longrightarrow>
     progress_to ecp H c chain k st j w'"
  by (simp add: progress_to_def delivered_append)

lemma progress_to_env_update [simp]:
  "progress_to ecp H c chain k st j (w\<lparr>w_env := e\<rparr>) = progress_to ecp H c chain k st j w"
  by (simp add: progress_to_def)

lemma progress_to_start:
  "opened (w_store w) \<Longrightarrow> cursor (w_store w) c = Some k \<Longrightarrow>
     progress_to ecp H c chain k (stored (w_store w) c) k w"
  by (auto simp: progress_to_def indexed_to_def)

lemma progress_to_block:
  assumes P: "ecp_store ecp = P" and c: "c = cfg_ChainId (ecp_config ecp)"
    and H: "H = cfg_BlockHistorySize (ecp_config ecp)" and link: "linked_from chain k"
    and inv: "progress_to ecp H c chain k st j w" and j: "j < j + 1"
    and hb: "call_HandleBlock ecp (chain (j + 1)) w = (e, w1)"
    and run: "processBlockLogs ecp (chain (j + 1)) w1 = (Ret (Inr r), w')"
  shows "progress_to ecp H c chain k st (j + 1) w' \<and> r = record_of (chain (j + 1)) c"
proof -
  note first = call_HandleBlockD [OF hb]
  from run obtain logs e1 ds w2 where
    f: "fetchLogsForInterestingContractsForBlock ecp (eb_Number (chain (j + 1))) (w_env w1) = (Ret (Inr logs), e1)"
    "length ds = length logs" "w_calls w2 = w_calls w1 @ log_calls (on_chain ecp (chain (j + 1))) logs ds" and
    w2: "w_store w2 = w_store w" "r = record_of (chain (j + 1)) c"
    "w' = prune_old ecp r (snd (on_store (SaveBlock (ecp_store ecp) (Some r)) w2))"
    by (rule processBlockLogs_saved) (auto simp: c first)
  have op: "opened (w_store w2)" using progress_toD(2) [OF inv] w2(1) by simp
  note sp = save_and_prune [OF P c op w2(2), folded w2(3) H, unfolded w2(1)]
  have "k \<le> j + 1" using progress_toD(3) [OF inv] j by simp
  then have stored: "indexed_to H c chain k st (j + 1) (w_store w')"
    using sp(1-3) w2(2) progress_toD [OF inv]
    by (simp add: indexed_to_def up_snoc [OF _ j] linked_fromD(1) [OF link])
  have calls: "w_calls w' = w_calls w @ CallHandleBlock (chain (j + 1)) #
      log_calls (on_chain ecp (chain (j + 1))) logs ds"
    using sp(5) f(3) first by simp
  have new: "delivered ecp (w_calls w') r"
    unfolding calls by (rule deliveredI [OF w2(2) [unfolded c] f(1,2)])
  have old: "delivered ecp (w_calls w') (record_of (chain n) c)" if "k < n" "n \<le> j" for n
    unfolding calls using inv that by (intro delivered_append) (simp add: progress_to_def)
  have "n \<le> j \<or> n = j + 1" if "n \<le> j + 1" for n
    using that unat_Suc_no_wrap [OF j] by (auto simp: word_le_nat_alt word_unat_eq_iff)
  with stored new old w2(2) show ?thesis unfolding progress_to_def by blast
qed

lemma process_blocks_progress:
  assumes P: "ecp_store ecp = P" and c: "c = cfg_ChainId (ecp_config ecp)"
    and H: "H = cfg_BlockHistorySize (ecp_config ecp)"
    and client: "truthful (ecp_ethClient ecp) chain" and link: "linked_from chain k"
  shows "j \<le> m \<Longrightarrow> progress_to ecp H c chain k st j w \<Longrightarrow> br_Hash r = eb_Hash (chain j) \<Longrightarrow>
    process_blocks ecp r (up j m) w = (res, w') \<Longrightarrow> \<exists>i. j \<le> i \<and> progress_to ecp H c chain k st i w'"
proof (induction "unat m - unat j" arbitrary: j r w)
  case 0
  then have "j = m" by (simp add: word_le_nat_alt word_unat_eq_iff)
  with 0 show ?case by auto
next
  case (Suc x)
  from Suc.hyps(2) have jm: "j < m" by (auto simp: word_less_nat_alt)
  then have s: "unat (j + 1) = Suc (unat j)"
    using unat_max_uint64 unat_uint64_bound [of m]
    by (intro unat_Suc_word) (simp add: word_less_nat_alt)
  have bounds: "j < j + 1" "j + 1 \<le> m" "x = unat m - unat (j + 1)"
    using s jm Suc.hyps(2) by (simp_all add: word_le_nat_alt word_less_nat_alt)
  obtain res1 w1 where w1: "on_env (GetBlockByNumber (ecp_ethClient ecp) (j + 1)) w = (res1, w1)" by fastforce
  have st1: "w_store w1 = w_store w" "w_calls w1 = w_calls w" using on_envD [OF w1] by simp_all
  have inv1: "progress_to ecp H c chain k st j w1"
    using progress_to_env [OF Suc.prems(2) st1(1), of "[]"] st1(2) by simp
  note run = Suc.prems(4) [unfolded up_step [OF jm]]
  show ?case
  proof (cases "\<exists>b. res1 = Inr (Some b)")
    case False
    then have "w' = w1" using run w1 by (auto split: sum.splits option.splits)
    with inv1 show ?thesis by auto
  next
    case True
    then have b: "res1 = Inr (Some (chain (j + 1)))" using truthfulD [OF client] w1 by blast
    have "k \<le> j" using progress_toD(3) [OF Suc.prems(2)] .
    then have parent: "eb_ParentHash (chain (j + 1)) = br_Hash r"
      using linked_fromD(2) [OF link _ bounds(1)] Suc.prems(3) by simp
    obtain e2 w2 where w2: "call_HandleBlock ecp (chain (j + 1)) w1 = (e2, w2)" by fastforce
    have inv2: "progress_to ecp H c chain k st j w2"
      using progress_to_env [OF inv1] call_HandleBlockD [OF w2] by blast
    obtain res3 w3 where w3: "processBlockLogs ecp (chain (j + 1)) w2 = (res3, w3)" by fastforce
    show ?thesis
    proof (cases "\<exists>r'. res3 = Ret (Inr r')")
      case False
      then have "w' = w3" using run w1 b parent w2 w3 by (auto split: go.splits sum.splits)
      with processBlockLogs_calls(2) [OF w3 False] processBlockLogs_calls(3) [OF w3] progress_to_env [OF inv2]
      show ?thesis by blast
    next
      case True
      then obtain r' where r': "res3 = Ret (Inr r')" ..
      have next_inv: "progress_to ecp H c chain k st (j + 1) w3 \<and> r' = record_of (chain (j + 1)) c"
        using progress_to_block [OF P c H link inv1 bounds(1) w2 w3 [unfolded r']] .
      then have "br_Hash r' = eb_Hash (chain (j + 1))" by (simp add: record_of_def)
      moreover have "process_blocks ecp r' (up (j + 1) m) w3 = (res, w')"
        using run w1 b parent w2 w3 r' by simp
      ultimately obtain i where "j + 1 \<le> i" "progress_to ecp H c chain k st i w'"
        using Suc.hyps(1) [OF bounds(3,2)] next_inv by blast
      with bounds(1) show ?thesis by (meson less_imp_le order_trans)
    qed
  qed
qed

lemma tick_progress:
  assumes P: "ecp_store ecp = P" and c: "c = cfg_ChainId (ecp_config ecp)"
    and H: "H = cfg_BlockHistorySize (ecp_config ecp)"
    and client: "truthful (ecp_ethClient ecp) chain" and link: "linked_from chain k"
    and first: "st k = Some r" "br_Number r = k" "br_Hash r = eb_Hash (chain k)"
    and inv: "progress_to ecp H c chain k st j w" and run: "processNextBlock ecp w = Some (res, w')"
  shows "\<exists>i. j \<le> i \<and> progress_to ecp H c chain k st i w'"
proof -
  obtain rj where rj: "stored (w_store w) c j = Some rj" "br_Number rj = j" "br_Hash rj = eb_Hash (chain j)"
    by (rule indexed_to_last [OF progress_toD(1) [OF inv] link first])
  have op: "opened (w_store w)" and last: "cursor (w_store w) c = Some j"
    using progress_toD [OF inv] by simp_all
  show ?thesis
  proof (rule processNextBlock_cases [OF P c op last rj(1,2) run], goal_cases)
    case (1 e1)
    with inv show ?thesis by auto
  next
    case (2 e1 m)
    with process_blocks_progress [OF P c H client link 2(1) _ rj(3) 2(2)] inv show ?thesis by simp
  qed
qed

lemma polls_progress:
  assumes P: "ecp_store ecp = P" and c: "c = cfg_ChainId (ecp_config ecp)"
    and H: "H = cfg_BlockHistorySize (ecp_config ecp)"
    and client: "truthful (ecp_ethClient ecp) chain" and link: "linked_from chain k"
    and first: "st k = Some r" "br_Number r = k" "br_Hash r = eb_Hash (chain k)"
    and "polls ecp (s, w) t" and "progress_to ecp H c chain k st j w"
  shows "\<exists>i. j \<le> i \<and> progress_to ecp H c chain k st i (snd t)"
proof (rule polls_preserves [OF assms(9)], goal_cases)
  case 1
  with assms(10) show ?case by auto
next
  case (2 w res w')
  then obtain i where i: "j \<le> i" "progress_to ecp H c chain k st i w" by blast
  from tick_progress [where st = st and k = k and chain = chain, OF P c H client link first i(2) 2(2)] i(1)
  show ?case by (auto intro: order_trans)
qed auto

lemma Start_indexed_to:
  assumes "ecp_store ecp = P" and "c = cfg_ChainId (ecp_config ecp)" and "linked_from chain k"
    and "st k = Some r" "br_Number r = k" "br_Hash r = eb_Hash (chain k)"
    and inv: "indexed_to H c chain k st j (w_store w)"
  shows "Start ecp w = (Ret None, w)"
proof -
  obtain rj where "stored (w_store w) c j = Some rj"
    by (rule indexed_to_last [OF inv assms(3-6)])
  with assms(1,2) inv show ?thesis by (intro Start_again [where k = j]) (simp_all add: indexed_to_def)
qed

lemma restarts_progress:
  assumes P: "ecp_store ecp = P" and c: "c = cfg_ChainId (ecp_config ecp)"
    and H: "H = cfg_BlockHistorySize (ecp_config ecp)"
    and client: "truthful (ecp_ethClient ecp) chain" and link: "linked_from chain k"
    and first: "st k = Some r" "br_Number r = k" "br_Hash r = eb_Hash (chain k)"
    and "restarts ecp w t" and "progress_to ecp H c chain k st j w"
  shows "\<exists>i. j \<le> i \<and> progress_to ecp H c chain k st i (snd t)"
  using assms(9,10)
proof (induction w t rule: restarts.induct)
  case (first_run w t)
  from polls_progress [where st = st and k = k and chain = chain, OF P c H client link first first_run(1,2)]
  show ?case by auto
next
  case (next_run w w1 e w2 t)
  then obtain i where i: "j \<le> i" "progress_to ecp H c chain k st i w1" by auto
  then have "w2 = w1\<lparr>w_env := e\<rparr>"
    using Start_indexed_to [where st = st and k = k and chain = chain, OF P c link first, of H i "w1\<lparr>w_env := e\<rparr>"]
      next_run.hyps(2) progress_toD(1) [OF i(2)] by simp
  with i(2) have "progress_to ecp H c chain k st i w2" by simp
  from polls_progress [where st = st and k = k and chain = chain, OF P c H client link first next_run.hyps(3) this]
  show ?case using i(1) by (auto intro: order_trans)
qed

text \<open>A working environment finishes what the failures interrupted.\<close>

lemma resume_indexed_to:
  assumes P: "ecp_store ecp = P" and c: "c = cfg_ChainId (ecp_config ecp)"
    and H: "H = cfg_BlockHistorySize (ecp_config ecp)" and link: "linked_from chain k"
    and first: "st k = Some r" "br_Number r = k" "br_Hash r = eb_Hash (chain k)"
    and inv: "indexed_to H c chain k st j (w_store w)"
    and healthy: "healthy ecp J chain logs D W m" and m: "m < - 1" "j \<le> m" and J: "J (w_env w)"
  obtains w' cs where "processNextBlock ecp w = Some (Ret (), w')"
    "indexed_to H c chain k st m (w_store w')" "w_calls w' = w_calls w @ cs"
    "index_calls c W logs D (map chain (up j m)) cs"
proof -
  obtain rj where rj: "stored (w_store w) c j = Some rj" "br_Number rj = j" "br_Hash rj = eb_Hash (chain j)"
    by (rule indexed_to_last [OF inv link first])
  have op: "opened (w_store w)" "k \<le> j" "cursor (w_store w) c = Some j"
    "stored (w_store w) c = fold (spec_index H c) (map chain (up k j)) st"
    using inv by (simp_all add: indexed_to_def)
  have parent: "j < m \<Longrightarrow> br_Hash rj = eb_ParentHash (chain (j + 1))"
    using linked_fromD(2) [OF link op(2)] rj(3) unat_Suc_less_max [OF less_trans [OF _ m(1)], of j]
    by (simp add: word_less_nat_alt)
  obtain w' where w': "processNextBlock ecp w = Some (Ret (), w')" "indexed ecp chain logs D W j m w w'"
    using processNextBlock_healthy [OF P healthy m op(1) J, folded c, OF op(3) rj(1,2)] parent by blast
  then obtain cs where cs: "w_calls w' = w_calls w @ cs" "index_calls c W logs D (map chain (up j m)) cs"
    by (auto simp: indexed_def Let_def c)
  have "indexed_to H c chain k st m (w_store w')"
    using w'(2) op m(2) by (auto simp: indexed_to_def indexed_def Let_def c H up_append [OF op(2) m(2)])
  with that w'(1) cs show thesis by blast
qed

end

end
