(* ===== verification/Poller_Isolation.thy ===== *)
theory Poller_Isolation
  imports Poller_Index
begin

text \<open>
  Pollers of several chains on one store: whatever the environment does, the steps of a poller change the
  records of its own chain and of the chain ids that the client's blocks carry, and no others.
\<close>

definition labels_blocks :: "'e Client \<Rightarrow> ChainId set \<Rightarrow> bool" where
  "labels_blocks C A \<longleftrightarrow> (\<forall>n e b e'. GetBlockByNumber C n e = (Inr (Some b), e') \<longrightarrow> eb_ChainId b \<in> A)"

lemma labels_blocksD:
  assumes "labels_blocks C A" "on_env (GetBlockByNumber C n) w = (Inr (Some b), w')"
  shows "eb_ChainId b \<in> A"
  using assms unfolding labels_blocks_def on_env_def by (auto split: prod.splits)

lemma record_of_chain [simp]: "br_ChainId (record_of b c) = c"
  by (simp add: record_of_def)

lemma on_store_result [simp]:
  "w_store (snd (on_store f w)) = snd (f (w_store w))" "fst (on_store f w) = fst (f (w_store w))"
  by (simp_all add: on_store_def split: prod.split)

context persistence
begin

text \<open>Between the states only records of the chains in \<open>A\<close> may have changed.\<close>

definition touches :: "ChainId set \<Rightarrow> 's \<Rightarrow> 's \<Rightarrow> bool" where
  "touches A s s' \<longleftrightarrow> (opened s \<and> records_wf stored s \<longrightarrow> opened s' \<and> records_wf stored s' \<and>
     (\<forall>c. c \<notin> A \<longrightarrow> stored s' c = stored s c \<and> cursor s' c = cursor s c))"

lemma touches_refl [simp, intro]: "touches A s s"
  by (simp add: touches_def)

lemma touches_trans [trans]: "touches A s t \<Longrightarrow> touches A t u \<Longrightarrow> touches A s u"
  by (simp add: touches_def)

lemma touches_save: "br_ChainId r \<in> A \<Longrightarrow> touches A s (snd (SaveBlock P (Some r) s))"
proof (cases "opened s")
  case True
  assume r: "br_ChainId r \<in> A"
  from saveE [OF True, of r] obtain s' where "SaveBlock P (Some r) s = (None, s')" "opened s'"
    "stored s' = (stored s)(br_ChainId r := (stored s (br_ChainId r))(br_Number r \<mapsto> r))"
    "cursor s' = (cursor s)(br_ChainId r \<mapsto> br_Number r)" .
  with r show ?thesis by (auto simp: touches_def records_wf_def)
qed (simp add: touches_def)

lemma touches_save_nil: "touches A s (snd (SaveBlock P None s))"
  using save_nil_law [of s] by (cases "opened s") (auto simp: touches_def)

lemma touches_save_option: "(\<And>r. ob = Some r \<Longrightarrow> br_ChainId r \<in> A) \<Longrightarrow> touches A s (snd (SaveBlock P ob s))"
  by (cases ob) (simp_all add: touches_save touches_save_nil)

lemma touches_delete: "c \<in> A \<Longrightarrow> touches A s (snd (DeleteBlock P c n s))"
proof (cases "opened s")
  case True
  assume c: "c \<in> A"
  from delete_law [OF True, of c n] obtain s' where "snd (DeleteBlock P c n s) = s'" "opened s'"
    "stored s' = (stored s)(c := (stored s c)(n := None))" "cursor s' = cursor s" by auto
  with c show ?thesis by (auto simp: touches_def records_wf_def split: if_splits)
qed (simp add: touches_def)

lemma touches_prune:
  assumes "ecp_store ecp = P" and "cfg_ChainId (ecp_config ecp) \<in> A"
  shows "touches A (w_store w) (w_store (prune_old ecp r w))"
  using touches_delete [OF assms(2)] assms(1) by (simp add: prune_old_def Let_def)

lemma touches_processBlockLogs:
  assumes P: "ecp_store ecp = P" and c: "cfg_ChainId (ecp_config ecp) \<in> A"
    and run: "processBlockLogs ecp b w = (res, w')"
  shows "touches A (w_store w) (w_store w')"
proof (cases "\<exists>r. res = Ret (Inr r)")
  case False
  with processBlockLogs_calls(2) [OF run] show ?thesis by simp
next
  case True
  then obtain r where "processBlockLogs ecp b w = (Ret (Inr r), w')" using run by blast
  then obtain w2 where w2: "w_store w2 = w_store w" "br_ChainId r \<in> A"
    "w' = prune_old ecp r (snd (on_store (SaveBlock (ecp_store ecp) (Some r)) w2))"
    by (rule processBlockLogs_saved) (auto simp: c)
  have "touches A (w_store w) (w_store (snd (on_store (SaveBlock (ecp_store ecp) (Some r)) w2)))"
    using touches_save [OF w2(2), of "w_store w"] w2(1) P by simp
  also have "touches A \<dots> (w_store w')"
    unfolding w2(3) by (rule touches_prune [OF P c])
  finally show ?thesis .
qed

text \<open>The search keeps to the chain of the poller and those of the client's blocks, and so do its orphans.\<close>

lemma touches_findOrphaned:
  assumes P: "ecp_store ecp = P" and c: "cfg_ChainId (ecp_config ecp) \<in> A"
    and client: "labels_blocks (ecp_ethClient ecp) A"
  shows "opened (w_store w) \<Longrightarrow> records_wf stored (w_store w) \<Longrightarrow> (\<And>r. prev = Some r \<Longrightarrow> br_ChainId r \<in> A) \<Longrightarrow>
    \<forall>r \<in> set acc. br_ChainId r \<in> A \<Longrightarrow> findOrphaned_loop ecp start d p prev acc w = ((rs, e), w') \<Longrightarrow>
    touches A (w_store w) (w_store w') \<and> (\<forall>r \<in> set rs. br_ChainId r \<in> A)"
proof (induction "unat p" arbitrary: p prev acc w rule: less_induct)
  case less
  note run = less.prems(5) [unfolded findOrphaned_loop.simps [of ecp start d p]]
  show ?case
  proof (cases "start - p \<le> d \<and> p > 0")
    case False
    then have "rs = acc" "w' = snd (on_store (SaveBlock P prev) w)"
      using run P by (auto split: prod.splits)
    with touches_save_option [OF less.prems(3)] less.prems(4) show ?thesis by simp
  next
    case True
    then have smaller: "unat (p - 1) < unat p" by (intro unat_minus_one_less) simp
    obtain res w1 where w1: "on_env (GetBlockByNumber (ecp_ethClient ecp) p) w = (res, w1)" by fastforce
    then have st1: "w_store w1 = w_store w" by (auto dest: on_envD)
    show ?thesis
    proof (cases "\<exists>b. res = Inr (Some b)")
      case False
      then have "rs = []" "w' = w1" using run True w1 by (auto split: sum.splits option.splits)
      with st1 show ?thesis by simp
    next
      case found: True
      then obtain b where b: "res = Inr (Some b)" ..
      have label: "eb_ChainId b \<in> A" using labels_blocksD [OF client] w1 b by blast
      have get: "on_store (GetBlock (ecp_store ecp) (cfg_ChainId (ecp_config ecp)) p) w1 =
          (case stored (w_store w) (cfg_ChainId (ecp_config ecp)) p of
             None \<Rightarrow> Inl ErrNotFound | Some r \<Rightarrow> Inr (Some r), w1)"
        using get_law [OF less.prems(1)] st1 by (simp add: on_store_def P)
      show ?thesis
      proof (cases "stored (w_store w) (cfg_ChainId (ecp_config ecp)) p")
        case None
        let ?r = "record_of b (eb_ChainId b)"
        have "br_Hash ?r = eb_Hash b" by (simp add: record_of_def)
        then have "rs = acc" and w': "w' = snd (on_store (SaveBlock P (Some ?r)) (snd (on_store (SaveBlock P (Some ?r)) w1)))"
          using run True w1 b get None P by (auto simp: Let_def split: prod.splits)
        moreover have "touches A (w_store w) (w_store w')"
          unfolding w' on_store_result st1
          by (rule touches_trans [OF touches_save touches_save]) (simp_all add: label)
        ultimately show ?thesis using less.prems(4) by simp
      next
        case (Some r)
        have r: "br_ChainId r \<in> A" using less.prems(2) Some c by (simp add: records_wf_def)
        show ?thesis
        proof (cases "eb_Hash b = br_Hash r")
          case False
          then have "findOrphaned_loop ecp start d (p - 1) (Some r) (acc @ [r]) w1 = ((rs, e), w')"
            using run True w1 b get Some by simp
          from less.hyps [OF smaller _ _ _ _ this] show ?thesis
            using less.prems(1,2,4) r st1 by simp
        next
          case eq: True
          then have "rs = acc" "w' = snd (on_store (SaveBlock P (Some r)) w1)"
            using run True w1 b get Some P by (auto split: prod.splits)
          with touches_save [OF r, of "w_store w"] less.prems(4) st1 show ?thesis by simp
        qed
      qed
    qed
  qed
qed

lemma touches_delete_orphaned:
  assumes P: "ecp_store ecp = P"
  shows "\<forall>r \<in> set rs. br_ChainId r \<in> A \<Longrightarrow> touches A (w_store w) (w_store (snd (delete_orphaned ecp rs w)))"
proof (induction rs arbitrary: w)
  case Nil
  then show ?case by simp
next
  case (Cons r rs)
  let ?w1 = "snd (on_store (DeleteBlock P (br_ChainId r) (br_Number r)) (call_HandleReorgBlock ecp (br_Number r) w))"
  have first: "touches A (w_store w) (w_store ?w1)"
    using touches_delete [of "br_ChainId r" A "w_store w" "br_Number r"] Cons.prems
    by (simp add: call_HandleReorgBlock_def)
  have "snd (delete_orphaned ecp (r # rs) w) = ?w1 \<or>
      snd (delete_orphaned ecp (r # rs) w) = snd (delete_orphaned ecp rs ?w1)"
    using P by (auto split: prod.split option.split)
  with first touches_trans [OF first Cons.IH] Cons.prems show ?case by auto
qed

lemma touches_reconcile:
  assumes P: "ecp_store ecp = P" and c: "cfg_ChainId (ecp_config ecp) \<in> A"
    and client: "labels_blocks (ecp_ethClient ecp) A"
  shows "touches A (w_store w) (w_store (snd (reconcileReorg ecp b w)))"
proof (cases "opened (w_store w) \<and> records_wf stored (w_store w)")
  case False
  then show ?thesis by (auto simp: touches_def)
next
  case True
  obtain rs e w1 where w1: "findOrphanedBlocks ecp b (cfg_MaxReorgDepth (ecp_config ecp)) w = ((rs, e), w1)"
    by (metis prod.exhaust)
  then have found: "touches A (w_store w) (w_store w1)" "\<forall>r \<in> set rs. br_ChainId r \<in> A"
    using touches_findOrphaned [OF P c client] True unfolding findOrphanedBlocks_def by force+
  with w1 touches_trans [OF found(1) touches_delete_orphaned [OF P found(2)]] show ?thesis
    by (auto simp: reconcileReorg_def split: option.split)
qed

lemma touches_process_blocks:
  assumes P: "ecp_store ecp = P" and c: "cfg_ChainId (ecp_config ecp) \<in> A"
    and client: "labels_blocks (ecp_ethClient ecp) A"
  shows "process_blocks ecp r ns w = (res, w') \<Longrightarrow> touches A (w_store w) (w_store w')"
proof (induction ns arbitrary: r w)
  case Nil
  then show ?case by simp
next
  case (Cons n ns)
  obtain res1 w1 where w1: "on_env (GetBlockByNumber (ecp_ethClient ecp) n) w = (res1, w1)" by fastforce
  then have st1: "w_store w1 = w_store w" by (auto dest: on_envD)
  show ?case
  proof (cases "\<exists>b. res1 = Inr (Some b)")
    case False
    then have "w' = w1" using Cons.prems w1 by (auto split: sum.splits option.splits)
    with st1 show ?thesis by simp
  next
    case True
    then obtain b where b: "res1 = Inr (Some b)" ..
    show ?thesis
    proof (cases "eb_ParentHash b = br_Hash r")
      case False
      then have "w' = snd (reconcileReorg ecp b w1)" using Cons.prems w1 b by auto
      with touches_reconcile [OF P c client, of w1 b] st1 show ?thesis by simp
    next
      case eq: True
      obtain e2 w2 where w2: "call_HandleBlock ecp b w1 = (e2, w2)" by fastforce
      then have st2: "w_store w2 = w_store w" using call_HandleBlockD st1 by metis
      obtain res3 w3 where w3: "processBlockLogs ecp b w2 = (res3, w3)" by fastforce
      have step: "touches A (w_store w) (w_store w3)"
        using touches_processBlockLogs [OF P c w3] st2 by simp
      consider "w' = w3" | r' where "process_blocks ecp r' ns w3 = (res, w')"
        using Cons.prems w1 b eq w2 w3 by (auto split: go.splits sum.splits)
      then show ?thesis using step touches_trans [OF step Cons.IH] by cases auto
    qed
  qed
qed

lemma touches_tick:
  assumes P: "ecp_store ecp = P" and c: "cfg_ChainId (ecp_config ecp) \<in> A"
    and client: "labels_blocks (ecp_ethClient ecp) A" and run: "processNextBlock ecp w = Some (res, w')"
  shows "touches A (w_store w) (w_store w')"
proof (cases "opened (w_store w)")
  case False
  then show ?thesis by (simp add: touches_def)
next
  case True
  obtain res1 e1 where e1: "GetLatestBlock (ecp_ethClient ecp) (w_env w) = (res1, e1)" by fastforce
  have last: "on_store (GetLastProcessedBlock (ecp_store ecp) (cfg_ChainId (ecp_config ecp))) w =
      (case Option.bind (cursor (w_store w) (cfg_ChainId (ecp_config ecp)))
          (stored (w_store w) (cfg_ChainId (ecp_config ecp))) of
         None \<Rightarrow> Inl ErrNotFound | Some b \<Rightarrow> Inr (Some b), w)"
    using last_law [OF True] by (simp add: on_store_def P)
  consider "w_store w' = w_store w" | r ns where "process_blocks ecp r ns (w\<lparr>w_env := e1\<rparr>) = (res, w')"
    using run e1 last
    by (auto simp: processNextBlock_def on_env_def bind_eq_Some_conv split: sum.splits if_splits option.splits)
  then show ?thesis using touches_process_blocks [OF P c client] by cases fastforce+
qed

lemma touches_polls:
  assumes P: "ecp_store ecp = P" and c: "cfg_ChainId (ecp_config ecp) \<in> A"
    and client: "labels_blocks (ecp_ethClient ecp) A" and run: "polls ecp s t"
  shows "touches A (w_store (snd s)) (w_store (snd t))"
  by (rule polls_preserves [OF run]) (auto intro: touches_trans touches_tick [OF P c client])

end

end
