(* ===== verification/Ethereum_Handlers.thy ===== *)
theory Ethereum_Handlers
  imports Ethereum_Types
begin

text \<open>
  The JSON-RPC messages of \<^verbatim>\<open>pkg/clients/ethereum/client.go\<close> and the request builders and
  response parsers of \<^verbatim>\<open>pkg/clients/ethereum/handlers.go\<close>.
\<close>

section \<open>Messages\<close>

record RequestMethod =
  rm_Name :: string
  rm_Timeout :: go_int

text \<open>
  \<^verbatim>\<open>Params\<close> is an \<^verbatim>\<open>any\<close>; every builder fills it with strings, booleans, lists and maps of
  those, whose JSON value is kept here. \<open>None\<close> is the nil interface.
\<close>

record RPCRequest =
  rq_JSONRPC :: string
  rq_Method :: string
  rq_Params :: "json option"
  rq_ID :: go_uint

record RPCError =
  re_Code :: "64 word"
  re_Message :: string

text \<open>\<^verbatim>\<open>Result\<close> keeps the raw JSON value, a null included; \<open>None\<close> when the member is absent.\<close>

record RPCResponse =
  rs_JSONRPC :: string
  rs_ID :: "go_uint option"
  rs_Result :: "json option"
  rs_Error :: "RPCError option"

record GetBlockByNumberResponse =
  bn_JSONRPC :: string
  bn_ID :: go_uint
  bn_Result :: "EthereumBlock option"

definition jsonRPCVersion :: string where
  "jsonRPCVersion = ''2.0''"

definition json_uint :: "go_uint \<Rightarrow> json" where
  "json_uint n = JNum (show_nat (unat n))"

text \<open>\<^verbatim>\<open>json.Marshal\<close> of a request: nil params are omitted.\<close>

definition marshal_request :: "RPCRequest \<Rightarrow> json" where
  "marshal_request r =
     JObj ([(''jsonrpc'', JStr (rq_JSONRPC r)), (''method'', JStr (rq_Method r))] @
           (case rq_Params r of None \<Rightarrow> [] | Some p \<Rightarrow> [(''params'', p)]) @
           [(''id'', json_uint (rq_ID r))])"

section \<open>Decoding responses\<close>

text \<open>A plain \<^verbatim>\<open>string\<close> field: null keeps its value.\<close>

definition string_field :: "((string \<Rightarrow> string) \<Rightarrow> 'r \<Rightarrow> 'r) \<Rightarrow> 'r field_decoder" where
  "string_field upd j r =
     (case j of
        JNull \<Rightarrow> Inr r | JStr s \<Rightarrow> Inr (upd (\<lambda>_. s) r) | _ \<Rightarrow> Inl unmarshal_type_error)"

text \<open>A number literal as an \<^verbatim>\<open>int64\<close> (\<^verbatim>\<open>strconv.ParseInt\<close>).\<close>

definition parse_int64 :: "string \<Rightarrow> 64 word option" where
  "parse_int64 t =
     (let (neg, ds) = (case t of [] \<Rightarrow> (False, [])
                       | c # cs \<Rightarrow> if c = CHR ''-'' then (True, cs) else (False, t));
          v = (if neg then - int (read_digits ds) else int (read_digits ds))
      in if ds \<noteq> [] \<and> (\<forall>c \<in> set ds. is_digit c) \<and> - (2 ^ 63) \<le> v \<and> v < 2 ^ 63
         then Some (word_of_int v) else None)"

definition int64_field :: "((64 word \<Rightarrow> 64 word) \<Rightarrow> 'r \<Rightarrow> 'r) \<Rightarrow> 'r field_decoder" where
  "int64_field upd j r =
     (case j of
        JNull \<Rightarrow> Inr r
      | JNum t \<Rightarrow> (case parse_int64 t of None \<Rightarrow> Inl unmarshal_type_error
                 | Some v \<Rightarrow> Inr (upd (\<lambda>_. v) r))
      | _ \<Rightarrow> Inl unmarshal_type_error)"

definition decode_rpc_error :: "json \<Rightarrow> error + RPCError" where
  "decode_rpc_error =
     decode_struct [(''code'', int64_field re_Code_update), (''message'', string_field re_Message_update)]
       \<lparr>re_Code = 0, re_Message = []\<rparr>"

definition zero_response :: RPCResponse where
  "zero_response = \<lparr>rs_JSONRPC = [], rs_ID = None, rs_Result = None, rs_Error = None\<rparr>"

definition response_fields :: "(string \<times> RPCResponse field_decoder) list" where
  "response_fields =
     [(''jsonrpc'', string_field rs_JSONRPC_update),
      (''id'', field (decode_ptr unmarshal_uint64) rs_ID_update),
      (''result'', field (\<lambda>j. Inr (Some j)) rs_Result_update),
      (''error'', field (decode_ptr decode_rpc_error) rs_Error_update)]"

definition decode_response :: "json \<Rightarrow> error + RPCResponse" where
  "decode_response = decode_struct response_fields zero_response"

section \<open>Response parsers\<close>

record 'a RequestResponseHandler =
  rh_RequestMethod :: RequestMethod
  rh_ResponseParser :: "json option \<Rightarrow> error + 'a"

text \<open>\<^verbatim>\<open>time.Second\<close>, in nanoseconds\<close>

definition time_Second :: go_int where
  "time_Second = 1000000000"

text \<open>\<^verbatim>\<open>json.Unmarshal\<close> of a raw message: an absent one is not JSON.\<close>

definition unmarshal_raw :: "(json \<Rightarrow> error + 'a) \<Rightarrow> json option \<Rightarrow> error + 'a" where
  "unmarshal_raw dec res =
     (case res of None \<Rightarrow> Inl (Errorf ''unexpected end of JSON input'' None) | Some j \<Rightarrow> dec j)"

text \<open>
  The text of a raw message, for values written compactly and without escapes, as nodes write
  quantities.
\<close>

definition comma_separated :: "string list \<Rightarrow> string" where
  "comma_separated ss =
     (case ss of [] \<Rightarrow> [] | s # rest \<Rightarrow> s @ concat (map (\<lambda>x. CHR '','' # x) rest))"

fun json_text :: "json \<Rightarrow> string" where
  "json_text JNull = ''null''"
| "json_text (JBool b) = (if b then ''true'' else ''false'')"
| "json_text (JNum t) = t"
| "json_text (JStr s) = quoted s"
| "json_text (JArr js) = ''['' @ comma_separated (map json_text js) @ '']''"
| "json_text (JObj ms) =
     ''{'' @ comma_separated (map (\<lambda>(k, v). quoted k @ '':'' @ json_text v) ms) @ ''}''"

text \<open>\<^verbatim>\<open>strings.ReplaceAll(string(res), "\"", "")\<close>\<close>

definition unquoted_text :: "json option \<Rightarrow> string" where
  "unquoted_text res =
     filter (\<lambda>c. c \<noteq> CHR 0x22) (case res of None \<Rightarrow> [] | Some j \<Rightarrow> json_text j)"

definition RPCMethod_GetBlock :: "string RequestResponseHandler" where
  "RPCMethod_GetBlock =
     \<lparr>rh_RequestMethod = \<lparr>rm_Name = ''eth_blockNumber'', rm_Timeout = time_Second * 5\<rparr>,
      rh_ResponseParser = (\<lambda>res. Inr (unquoted_text res))\<rparr>"

definition RPCMethod_getBlockByNumber :: "hexutil \<Rightarrow> EthereumBlock RequestResponseHandler" where
  "RPCMethod_getBlockByNumber hx =
     \<lparr>rh_RequestMethod = \<lparr>rm_Name = ''eth_getBlockByNumber'', rm_Timeout = time_Second * 5\<rparr>,
      rh_ResponseParser = unmarshal_raw (decode_block hx)\<rparr>"

definition RPCMethod_getTransactionByHash ::
  "hexutil \<Rightarrow> EthereumTransaction RequestResponseHandler" where
  "RPCMethod_getTransactionByHash hx =
     \<lparr>rh_RequestMethod = \<lparr>rm_Name = ''eth_getTransactionByHash'', rm_Timeout = time_Second * 5\<rparr>,
      rh_ResponseParser = unmarshal_raw (decode_transaction hx)\<rparr>"

definition RPCMethod_getTransactionReceipt ::
  "hexutil \<Rightarrow> EthereumTransactionReceipt RequestResponseHandler" where
  "RPCMethod_getTransactionReceipt hx =
     \<lparr>rh_RequestMethod = \<lparr>rm_Name = ''eth_getTransactionReceipt'', rm_Timeout = time_Second * 5\<rparr>,
      rh_ResponseParser = unmarshal_raw (decode_receipt hx)\<rparr>"

definition RPCMethod_getBlockReceipts ::
  "hexutil \<Rightarrow> EthereumTransactionReceipt option list RequestResponseHandler" where
  "RPCMethod_getBlockReceipts hx =
     \<lparr>rh_RequestMethod = \<lparr>rm_Name = ''eth_getBlockReceipts'', rm_Timeout = time_Second * 5\<rparr>,
      rh_ResponseParser = unmarshal_raw (decode_slice (decode_ptr (decode_receipt hx)))\<rparr>"

definition RPCMethod_getLogs :: "hexutil \<Rightarrow> EthereumEventLog option list RequestResponseHandler" where
  "RPCMethod_getLogs hx =
     \<lparr>rh_RequestMethod = \<lparr>rm_Name = ''eth_getLogs'', rm_Timeout = time_Second * 30\<rparr>,
      rh_ResponseParser = unmarshal_raw (decode_slice (decode_ptr (decode_log hx)))\<rparr>"

section \<open>Request builders\<close>

text \<open>The method name of a handler.\<close>

abbreviation method_name :: "'a RequestResponseHandler \<Rightarrow> string" where
  "method_name h \<equiv> rm_Name (rh_RequestMethod h)"

definition GetBlockRequest :: "go_uint \<Rightarrow> RPCRequest" where
  "GetBlockRequest rid =
     \<lparr>rq_JSONRPC = jsonRPCVersion, rq_Method = method_name RPCMethod_GetBlock,
      rq_Params = None, rq_ID = rid\<rparr>"

definition GetBlockByNumberRequest :: "hexutil \<Rightarrow> uint64 \<Rightarrow> go_uint \<Rightarrow> RPCRequest" where
  "GetBlockByNumberRequest hx blockNumber rid =
     \<lparr>rq_JSONRPC = jsonRPCVersion, rq_Method = method_name (RPCMethod_getBlockByNumber hx),
      rq_Params = Some (JArr [JStr (EncodeUint64 hx blockNumber), JBool True]), rq_ID = rid\<rparr>"

definition GetSafeBlockRequest :: "hexutil \<Rightarrow> go_uint \<Rightarrow> RPCRequest" where
  "GetSafeBlockRequest hx rid =
     \<lparr>rq_JSONRPC = jsonRPCVersion, rq_Method = method_name (RPCMethod_getBlockByNumber hx),
      rq_Params = Some (JArr [JStr ''safe'', JBool True]), rq_ID = rid\<rparr>"

definition GetFinalizedBlockRequest :: "hexutil \<Rightarrow> go_uint \<Rightarrow> RPCRequest" where
  "GetFinalizedBlockRequest hx rid =
     \<lparr>rq_JSONRPC = jsonRPCVersion, rq_Method = method_name (RPCMethod_getBlockByNumber hx),
      rq_Params = Some (JArr [JStr ''finalized'', JBool True]), rq_ID = rid\<rparr>"

definition GetLatestBlockRequest :: "hexutil \<Rightarrow> go_uint \<Rightarrow> RPCRequest" where
  "GetLatestBlockRequest hx rid =
     \<lparr>rq_JSONRPC = jsonRPCVersion, rq_Method = method_name (RPCMethod_getBlockByNumber hx),
      rq_Params = Some (JArr [JStr ''latest'', JBool True]), rq_ID = rid\<rparr>"

definition GetTransactionByHashRequest :: "hexutil \<Rightarrow> string \<Rightarrow> go_uint \<Rightarrow> RPCRequest" where
  "GetTransactionByHashRequest hx txHash rid =
     \<lparr>rq_JSONRPC = jsonRPCVersion, rq_Method = method_name (RPCMethod_getTransactionByHash hx),
      rq_Params = Some (JArr [JStr txHash]), rq_ID = rid\<rparr>"

definition GetTransactionReceiptRequest :: "hexutil \<Rightarrow> string \<Rightarrow> go_uint \<Rightarrow> RPCRequest" where
  "GetTransactionReceiptRequest hx txHash rid =
     \<lparr>rq_JSONRPC = jsonRPCVersion, rq_Method = method_name (RPCMethod_getTransactionReceipt hx),
      rq_Params = Some (JArr [JStr txHash]), rq_ID = rid\<rparr>"

definition GetBlockReceiptsRequest :: "hexutil \<Rightarrow> uint64 \<Rightarrow> go_uint \<Rightarrow> RPCRequest" where
  "GetBlockReceiptsRequest hx blockNumber rid =
     \<lparr>rq_JSONRPC = jsonRPCVersion, rq_Method = method_name (RPCMethod_getBlockReceipts hx),
      rq_Params = Some (JArr [JStr (EncodeUint64 hx blockNumber)]), rq_ID = rid\<rparr>"

text \<open>The filter map is marshalled with its keys in order.\<close>

definition GetLogsRequest :: "hexutil \<Rightarrow> string \<Rightarrow> uint64 \<Rightarrow> uint64 \<Rightarrow> go_uint \<Rightarrow> RPCRequest" where
  "GetLogsRequest hx address fromBlock toBlock rid =
     \<lparr>rq_JSONRPC = jsonRPCVersion, rq_Method = method_name (RPCMethod_getLogs hx),
      rq_Params = Some (JArr [JObj
        [(''address'', JStr address),
         (''fromBlock'', JStr (EncodeUint64 hx fromBlock)),
         (''toBlock'', JStr (EncodeUint64 hx toBlock))]]), rq_ID = rid\<rparr>"

definition GetLogsForAddressesRequest ::
  "hexutil \<Rightarrow> string list \<Rightarrow> uint64 \<Rightarrow> uint64 \<Rightarrow> go_uint \<Rightarrow> RPCRequest" where
  "GetLogsForAddressesRequest hx addresses fromBlock toBlock rid =
     \<lparr>rq_JSONRPC = jsonRPCVersion, rq_Method = method_name (RPCMethod_getLogs hx),
      rq_Params = Some (JArr [JObj
        [(''address'', JArr (map JStr addresses)),
         (''fromBlock'', JStr (EncodeUint64 hx fromBlock)),
         (''toBlock'', JStr (EncodeUint64 hx toBlock))]]), rq_ID = rid\<rparr>"

end
