(* ===== verification/Ethereum_Client.thy ===== *)
theory Ethereum_Client
  imports Ethereum_Handlers Poller_Interfaces
begin

text \<open>
  The JSON-RPC client of \<^verbatim>\<open>pkg/clients/ethereum/client.go\<close>: one HTTP call, the retrying
  \<^verbatim>\<open>Call\<close>, the typed queries, the batch calls and the head subscription. HTTP itself is
  \<^verbatim>\<open>net/http\<close> and the node behind it: an operation on a network state \<open>'n\<close>.
\<close>

section \<open>The transport\<close>

text \<open>
  A response body: whether it starts with an opening brace, and the JSON value it holds,
  \<open>None\<close> when it is not JSON.
\<close>

record http_body =
  body_brace :: bool
  body_json :: "json option"

text \<open>
  What an attempt to post comes to: no request can be built, the request fails (the timeout
  included), the body cannot be read, or a response with its status code; the last flag says
  whether closing the body fails.
\<close>

datatype http_result =
    HttpNoRequest
  | HttpFailed
  | HttpUnreadable
  | HttpResponse nat http_body bool

datatype BlockType = BlockType_Safe | BlockType_Latest | BlockType_Finalized | BlockType_Other string

record EthereumClientConfig =
  ecc_BaseUrl :: string
  ecc_BlockType :: BlockType

text \<open>
  \<open>ec_Do\<close> posts a JSON value to a URL under a timeout; \<open>ec_schedule\<close> is the order in which
  concurrent calls complete.
\<close>

record 'n EthereumClient =
  ec_Do :: "string \<Rightarrow> go_int \<Rightarrow> json \<Rightarrow> 'n \<Rightarrow> http_result \<times> 'n"
  ec_config :: EthereumClientConfig
  ec_hexutil :: hexutil
  ec_schedule :: "'n \<Rightarrow> nat list"

definition DefaultNativeCallEthereumClientConfig :: EthereumClientConfig where
  "DefaultNativeCallEthereumClientConfig = \<lparr>ecc_BaseUrl = [], ecc_BlockType = BlockType_Safe\<rparr>"

definition DefaultChunkedCallEthereumClientConfig :: EthereumClientConfig where
  "DefaultChunkedCallEthereumClientConfig = \<lparr>ecc_BaseUrl = [], ecc_BlockType = BlockType_Safe\<rparr>"

text \<open>\<^verbatim>\<open>NewEthereumClient\<close> over a transport; \<^verbatim>\<open>SetHttpClient\<close> replaces the transport.\<close>

definition NewEthereumClient ::
  "(string \<Rightarrow> go_int \<Rightarrow> json \<Rightarrow> 'n \<Rightarrow> http_result \<times> 'n) \<Rightarrow> hexutil \<Rightarrow> ('n \<Rightarrow> nat list)
     \<Rightarrow> EthereumClientConfig \<Rightarrow> 'n EthereumClient" where
  "NewEthereumClient do hx sched cfg =
     \<lparr>ec_Do = do, ec_config = cfg, ec_hexutil = hx, ec_schedule = sched\<rparr>"

definition SetHttpClient ::
  "(string \<Rightarrow> go_int \<Rightarrow> json \<Rightarrow> 'n \<Rightarrow> http_result \<times> 'n) \<Rightarrow> 'n EthereumClient \<Rightarrow> 'n EthereumClient" where
  "SetHttpClient do c = c\<lparr>ec_Do := do\<rparr>"

text \<open>
  Connections of \<^verbatim>\<open>ethclient\<close> for other uses: its \<^verbatim>\<open>Dial\<close> is a parameter, \<open>'c\<close> the type
  of connections.
\<close>

definition GetWebsocketConnection ::
  "(string \<Rightarrow> 'n \<Rightarrow> (error + 'c) \<times> 'n) \<Rightarrow> string \<Rightarrow> 'n \<Rightarrow> (error + 'c) \<times> 'n" where
  "GetWebsocketConnection Dial wsUrl n =
     (case Dial wsUrl n of (Inl err, n') \<Rightarrow> (Inl err, n') | (Inr d, n') \<Rightarrow> (Inr d, n'))"

definition GetEthereumContractCaller ::
  "(string \<Rightarrow> 'n \<Rightarrow> (error + 'c) \<times> 'n) \<Rightarrow> 'n EthereumClient \<Rightarrow> 'n \<Rightarrow> (error + 'c) \<times> 'n" where
  "GetEthereumContractCaller Dial c n =
     (case Dial (ecc_BaseUrl (ec_config c)) n of
        (Inl err, n') \<Rightarrow> (Inl err, n') | (Inr d, n') \<Rightarrow> (Inr d, n'))"

section \<open>One call\<close>

definition call :: "'n EthereumClient \<Rightarrow> RPCRequest \<Rightarrow> 'n \<Rightarrow> (error + RPCResponse) \<times> 'n" where
  "call c rpcRequest n =
     (case ec_Do c (ecc_BaseUrl (ec_config c)) (rm_Timeout (rh_RequestMethod RPCMethod_GetBlock))
             (marshal_request rpcRequest) n of
        (HttpNoRequest, n') \<Rightarrow> (Inl (Errorf ''failed to make request %s'' None), n')
      | (HttpFailed, n') \<Rightarrow> (Inl (Errorf ''request failed %s'' None), n')
      | (HttpUnreadable, n') \<Rightarrow> (Inl (Errorf ''failed to read body %s'' None), n')
      | (HttpResponse status body closeFails, n') \<Rightarrow>
          (if status \<noteq> 200 then (Inl (Errorf ''received http error code %+v'' None), n')
           else case unmarshal_raw decode_response (body_json body) of
             Inl e \<Rightarrow> (Inl (Errorf ''failed to unmarshal response: %s'' None), n')
           | Inr destination \<Rightarrow>
               (if rs_Error destination \<noteq> None
                then (Inl (Errorf ''received error response: %+v'' None), n')
                else if closeFails then (Inl (Errorf ''close'' None), n')
                else (Inr destination, n'))))"

section \<open>Retrying\<close>

definition backoffs :: "nat list" where
  "backoffs = [1, 3, 5, 10, 20, 30, 60]"

text \<open>The loop of \<^verbatim>\<open>Call\<close>; the number is the time slept, in seconds.\<close>

fun Call_loop ::
  "'n EthereumClient \<Rightarrow> RPCRequest \<Rightarrow> nat list \<Rightarrow> 'n \<Rightarrow> (error + RPCResponse) \<times> nat \<times> 'n" where
  "Call_loop c rpcRequest [] n = (Inl (Errorf ''exceeded retries for Call'' None), 0, n)"
| "Call_loop c rpcRequest (backoff # bs) n =
     (case call c rpcRequest n of
        (Inr res, n') \<Rightarrow> (Inr res, 0, n')
      | (Inl err, n') \<Rightarrow>
          (let (r, slept, n'') = Call_loop c rpcRequest bs n' in (r, backoff + slept, n'')))"

definition Call :: "'n EthereumClient \<Rightarrow> RPCRequest \<Rightarrow> 'n \<Rightarrow> (error + RPCResponse) \<times> nat \<times> 'n" where
  "Call c rpcRequest n = Call_loop c rpcRequest backoffs n"

section \<open>Queries\<close>

text \<open>The shape the typed queries share: call, then parse the result.\<close>

definition query ::
  "'n EthereumClient \<Rightarrow> RPCRequest \<Rightarrow> 'a RequestResponseHandler \<Rightarrow> 'n \<Rightarrow> (error + 'a) \<times> 'n" where
  "query c rpcRequest h n =
     (case Call c rpcRequest n of
        (Inl err, _, n') \<Rightarrow> (Inl err, n')
      | (Inr res, _, n') \<Rightarrow> (rh_ResponseParser h (rs_Result res), n'))"

definition GetBlockNumber :: "'n EthereumClient \<Rightarrow> 'n \<Rightarrow> (error + string) \<times> 'n" where
  "GetBlockNumber c n =
     (case Call c (GetBlockRequest 1) n of
        (Inl err, _, n') \<Rightarrow> (Inl err, n')
      | (Inr res, _, n') \<Rightarrow> (Inr (unquoted_text (rs_Result res)), n'))"

definition GetBlockNumberUint64 :: "'n EthereumClient \<Rightarrow> 'n \<Rightarrow> (error + uint64) \<times> 'n" where
  "GetBlockNumberUint64 c n =
     (case GetBlockNumber c n of
        (Inl err, n') \<Rightarrow> (Inl err, n')
      | (Inr blockNumber, n') \<Rightarrow> (DecodeUint64 (ec_hexutil c) blockNumber, n'))"

definition Client_GetLatestBlock :: "'n EthereumClient \<Rightarrow> 'n \<Rightarrow> (error + uint64) \<times> 'n" where
  "Client_GetLatestBlock c n =
     (let hx = ec_hexutil c;
          rpcRequest = (case ecc_BlockType (ec_config c) of
                          BlockType_Safe \<Rightarrow> GetSafeBlockRequest hx 1
                        | BlockType_Finalized \<Rightarrow> GetFinalizedBlockRequest hx 1
                        | _ \<Rightarrow> GetLatestBlockRequest hx 1)
      in case query c rpcRequest (RPCMethod_getBlockByNumber hx) n of
           (Inl err, n') \<Rightarrow> (Inl err, n')
         | (Inr ethBlock, n') \<Rightarrow> (Inr (eb_Number ethBlock), n'))"

text \<open>The parser returns a non-nil pointer with a nil error.\<close>

definition Client_GetBlockByNumber ::
  "'n EthereumClient \<Rightarrow> uint64 \<Rightarrow> 'n \<Rightarrow> (error + EthereumBlock option) \<times> 'n" where
  "Client_GetBlockByNumber c blockNumber n =
     (case query c (GetBlockByNumberRequest (ec_hexutil c) blockNumber 1)
             (RPCMethod_getBlockByNumber (ec_hexutil c)) n of
        (Inl err, n') \<Rightarrow> (Inl err, n')
      | (Inr ethBlock, n') \<Rightarrow> (Inr (Some ethBlock), n'))"

definition GetTransactionByHash ::
  "'n EthereumClient \<Rightarrow> string \<Rightarrow> 'n \<Rightarrow> (error + EthereumTransaction) \<times> 'n" where
  "GetTransactionByHash c txHash =
     query c (GetTransactionByHashRequest (ec_hexutil c) txHash 1)
       (RPCMethod_getTransactionByHash (ec_hexutil c))"

definition GetTransactionReceipt ::
  "'n EthereumClient \<Rightarrow> string \<Rightarrow> 'n \<Rightarrow> (error + EthereumTransactionReceipt) \<times> 'n" where
  "GetTransactionReceipt c txHash =
     query c (GetTransactionReceiptRequest (ec_hexutil c) txHash 1)
       (RPCMethod_getTransactionReceipt (ec_hexutil c))"

definition GetBlockTransactionReceipts ::
  "'n EthereumClient \<Rightarrow> uint64 \<Rightarrow> 'n \<Rightarrow> (error + EthereumTransactionReceipt option list) \<times> 'n" where
  "GetBlockTransactionReceipts c blockNumber =
     query c (GetBlockReceiptsRequest (ec_hexutil c) blockNumber 1)
       (RPCMethod_getBlockReceipts (ec_hexutil c))"

definition Client_GetLogs ::
  "'n EthereumClient \<Rightarrow> string \<Rightarrow> uint64 \<Rightarrow> uint64 \<Rightarrow> 'n
     \<Rightarrow> (error + EthereumEventLog option list) \<times> 'n" where
  "Client_GetLogs c address fromBlock toBlock =
     query c (GetLogsRequest (ec_hexutil c) address fromBlock toBlock 1)
       (RPCMethod_getLogs (ec_hexutil c))"

definition Client_GetLogsForAddresses ::
  "'n EthereumClient \<Rightarrow> string list \<Rightarrow> uint64 \<Rightarrow> uint64 \<Rightarrow> 'n
     \<Rightarrow> (error + EthereumEventLog option list) \<times> 'n" where
  "Client_GetLogsForAddresses c addresses fromBlock toBlock n =
     (if addresses = [] then (Inr [], n)
      else query c (GetLogsForAddressesRequest (ec_hexutil c) addresses fromBlock toBlock 1)
             (RPCMethod_getLogs (ec_hexutil c)) n)"

text \<open>The client as a value of the interface the poller uses.\<close>

definition ethereum_client :: "'n EthereumClient \<Rightarrow> 'n Client" where
  "ethereum_client c =
     \<lparr>GetLatestBlock = Client_GetLatestBlock c,
      GetBlockByNumber = Client_GetBlockByNumber c,
      GetLogs = Client_GetLogs c,
      GetLogsForAddresses = Client_GetLogsForAddresses c\<rparr>"

section \<open>Batch calls\<close>

text \<open>A request with the parser of its response.\<close>

record 'a BatchRPCRequest =
  bq_Request :: RPCRequest
  bq_Handler :: "json option \<Rightarrow> error + 'a"

text \<open>
  \<^verbatim>\<open>batchCall\<close> under a timeout of 20 seconds. A body that starts with a brace is an error payload; without an
  \<^verbatim>\<open>error\<close> member the code dereferences nil.
\<close>

definition batchCall ::
  "'n EthereumClient \<Rightarrow> RPCRequest list \<Rightarrow> 'n \<Rightarrow> (error + RPCResponse option list) go \<times> 'n" where
  "batchCall c requests n =
     (if requests = [] then (Ret (Inr []), n)
      else case ec_Do c (ecc_BaseUrl (ec_config c)) (time_Second * 20)
                  (JArr (map marshal_request requests)) n of
        (HttpNoRequest, n') \<Rightarrow> (Ret (Inl (Errorf ''failed to make request: %s'' None)), n')
      | (HttpFailed, n') \<Rightarrow> (Ret (Inl (Errorf ''request failed %v'' None)), n')
      | (HttpUnreadable, n') \<Rightarrow> (Ret (Inl (Errorf ''failed to read body %v'' None)), n')
      | (HttpResponse status body closeFails, n') \<Rightarrow>
          (if status \<noteq> 200 then (Ret (Inl (Errorf ''received http error code %+v'' None)), n')
           else
             (case (if body_brace body
                    then (case unmarshal_raw decode_response (body_json body) of
                            Inl e \<Rightarrow> Ret (Inl (Errorf ''failed to unmarshal error response: %s'' None))
                          | Inr errorResponse \<Rightarrow>
                              (case rs_Error errorResponse of
                                 None \<Rightarrow> Panic nil_dereference
                               | Some err \<Rightarrow>
                                   if re_Message err \<noteq> ''empty batch''
                                   then Ret (Inl (Errorf ''error payload returned from batch call: %s'' None))
                                   else Ret (Inr [])))
                    else (case unmarshal_raw (decode_slice (decode_ptr decode_response)) (body_json body) of
                            Inl e \<Rightarrow> Ret (Inl (Errorf ''failed to unmarshal response: %s'' None))
                          | Inr destination \<Rightarrow> Ret (Inr destination))) of
                Panic p \<Rightarrow> (Panic p, n')
              | Ret (Inl e) \<Rightarrow> (Ret (Inl e), n')
              | Ret (Inr destination) \<Rightarrow>
                  (if closeFails then (Ret (Inl (Errorf ''close'' None)), n')
                   else (Ret (Inr destination), n')))))"

definition NativeBatchCallSize :: nat where
  "NativeBatchCallSize = 100"

definition ChunkedBatchCallSize :: nat where
  "ChunkedBatchCallSize = 100"

text \<open>
  The splitting loop both batch calls have: it always makes one batch and tests after each. The
  indices stay far below the 64-bit bound. A size of 0 would never end; the sizes are constants.
\<close>

function batch_loop :: "nat \<Rightarrow> 'a list \<Rightarrow> nat \<Rightarrow> 'a list list" where
  "batch_loop batchSize requests currentIndex =
     (let endIndex = (if currentIndex + batchSize \<ge> length requests then length requests
                      else currentIndex + batchSize);
          batch = take (endIndex - currentIndex) (drop currentIndex requests);
          next = currentIndex + batchSize
      in if next \<ge> length requests \<or> batchSize = 0 then [batch]
         else batch # batch_loop batchSize requests next)"
  by pat_completeness auto
termination
  by (relation "measure (\<lambda>(batchSize, requests, i). length requests - i)") auto

declare batch_loop.simps [simp del]

text \<open>
  The goroutines of \<^verbatim>\<open>chunkedNativeBatchCall\<close>, in the order in which they complete: a failed batch
  sends nothing; a panic ends the process.
\<close>

fun native_batches ::
  "'n EthereumClient \<Rightarrow> RPCRequest list list \<Rightarrow> nat list \<Rightarrow> 'n \<Rightarrow> RPCResponse option list list go \<times> 'n" where
  "native_batches c batches [] n = (Ret [], n)"
| "native_batches c batches (i # is) n =
     (case batchCall c (batches ! i) n of
        (Panic p, n') \<Rightarrow> (Panic p, n')
      | (Ret (Inl err), n') \<Rightarrow> native_batches c batches is n'
      | (Ret (Inr res), n') \<Rightarrow>
          (case native_batches c batches is n' of
             (Panic p, n'') \<Rightarrow> (Panic p, n'')
           | (Ret rs, n'') \<Rightarrow> (Ret (res # rs), n'')))"

text \<open>
  \<^verbatim>\<open>slices.SortFunc\<close> by \<^verbatim>\<open>int(*i.ID - *j.ID)\<close>, here by insertion: the order of responses with
  equal ids is unspecified in Go. Sorting two or more elements compares each of them, so a nil
  response or a nil id among them panics.
\<close>

definition id_less :: "RPCResponse option \<Rightarrow> RPCResponse option \<Rightarrow> bool" where
  "id_less i j \<longleftrightarrow> sint (the (rs_ID (the i)) - the (rs_ID (the j))) < 0"

fun insert_by_id :: "RPCResponse option \<Rightarrow> RPCResponse option list \<Rightarrow> RPCResponse option list" where
  "insert_by_id x [] = [x]"
| "insert_by_id x (y # ys) = (if id_less y x then y # insert_by_id x ys else x # y # ys)"

definition has_id :: "RPCResponse option \<Rightarrow> bool" where
  "has_id r = (case r of None \<Rightarrow> False | Some x \<Rightarrow> rs_ID x \<noteq> None)"

definition sort_by_id :: "RPCResponse option list \<Rightarrow> RPCResponse option list go" where
  "sort_by_id rs =
     (if length rs \<ge> 2 \<and> \<not> list_all has_id rs then Panic nil_dereference
      else Ret (foldr insert_by_id rs []))"

definition chunkedNativeBatchCall ::
  "'n EthereumClient \<Rightarrow> RPCRequest list \<Rightarrow> 'n \<Rightarrow> (error + RPCResponse option list) go \<times> 'n" where
  "chunkedNativeBatchCall c requests n =
     (if requests = [] then (Ret (Inr []), n)
      else
        (let batches = batch_loop NativeBatchCallSize requests 0 in
         case native_batches c batches (completion_order (length batches) (ec_schedule c n)) n of
           (Panic p, n') \<Rightarrow> (Panic p, n')
         | (Ret results, n') \<Rightarrow>
             (case sort_by_id (concat results) of
                Panic p \<Rightarrow> (Panic p, n')
              | Ret rs \<Rightarrow> (Ret (Inr rs), n'))))"

text \<open>
  \<^verbatim>\<open>chunkedBatchCall\<close>: the requests of a batch are called concurrently, each whole \<^verbatim>\<open>Call\<close> taken to happen when
  it completes; a successful one sends its response with the index of its request.
\<close>

record IndexedRpcRequestResponse =
  ix_Index :: nat
  ix_Request :: RPCRequest
  ix_Response :: "RPCResponse option"

fun batch_responses ::
  "'n EthereumClient \<Rightarrow> IndexedRpcRequestResponse list \<Rightarrow> nat list \<Rightarrow> 'n \<Rightarrow> (nat \<times> RPCResponse) list \<times> 'n" where
  "batch_responses c batch [] n = ([], n)"
| "batch_responses c batch (j # js) n =
     (case Call c (ix_Request (batch ! j)) n of
        (Inl err, _, n') \<Rightarrow> batch_responses c batch js n'
      | (Inr res, _, n') \<Rightarrow>
          (let (rs, n'') = batch_responses c batch js n' in ((ix_Index (batch ! j), res) # rs, n'')))"

definition set_response ::
  "nat \<times> RPCResponse \<Rightarrow> IndexedRpcRequestResponse list \<Rightarrow> IndexedRpcRequestResponse list" where
  "set_response ir xs = xs[fst ir := (xs ! fst ir)\<lparr>ix_Response := Some (snd ir)\<rparr>]"

fun run_batches ::
  "'n EthereumClient \<Rightarrow> IndexedRpcRequestResponse list list \<Rightarrow> IndexedRpcRequestResponse list \<Rightarrow> 'n
     \<Rightarrow> IndexedRpcRequestResponse list \<times> 'n" where
  "run_batches c [] ordered n = (ordered, n)"
| "run_batches c (batch # batches) ordered n =
     (let (rs, n') = batch_responses c batch (completion_order (length batch) (ec_schedule c n)) n
      in run_batches c batches (fold set_response rs ordered) n')"

definition chunkedBatchCall ::
  "'n EthereumClient \<Rightarrow> RPCRequest list \<Rightarrow> 'n \<Rightarrow> (error + RPCResponse option list) \<times> 'n" where
  "chunkedBatchCall c requests n =
     (if requests = [] then (Inr [], n)
      else
        (let ordered = map (\<lambda>(i, req). \<lparr>ix_Index = i, ix_Request = req, ix_Response = None\<rparr>)
                         (enumerate 0 requests);
             (ordered', n') = run_batches c (batch_loop ChunkedBatchCallSize ordered 0) ordered n;
             allResults = map ix_Response ordered'
         in if length allResults \<noteq> length requests
            then (Inl (Errorf ''failed to fetch results for all requests. Expected %d, got %d'' None), n')
            else (Inr allResults, n')))"

definition BatchCall ::
  "'n EthereumClient \<Rightarrow> RPCRequest list \<Rightarrow> 'n \<Rightarrow> (error + RPCResponse option list) \<times> 'n" where
  "BatchCall c requests n = (if requests = [] then (Inr [], n) else chunkedBatchCall c requests n)"

section \<open>Listening for new heads\<close>

text \<open>
  The loop of \<^verbatim>\<open>ListenForNewBlocks\<close> over the events its \<^verbatim>\<open>select\<close> picks, until the quit signal;
  \<open>None\<close> as long as it has not come. Errors of the subscription and of the handler are logged; a
  subscription that has ended delivers nil errors. Returning closes the channel of heads (a deferred
  \<^verbatim>\<open>close\<close>); the subscription is not cancelled.
\<close>

datatype head_channel = ChannelOpen | ChannelClosed

datatype 'h listen_event = SubscriptionError "error option" | NewHead 'h | Quit

fun listen_loop ::
  "('h \<Rightarrow> 'e \<Rightarrow> error option \<times> 'e) \<Rightarrow> 'h listen_event list \<Rightarrow> 'e
     \<Rightarrow> (error option \<times> head_channel \<times> 'e) option" where
  "listen_loop recv [] e = None"
| "listen_loop recv (SubscriptionError err # evs) e = listen_loop recv evs e"
| "listen_loop recv (NewHead header # evs) e = listen_loop recv evs (snd (recv header e))"
| "listen_loop recv (Quit # evs) e = Some (None, ChannelClosed, e)"

definition ListenForNewBlocks ::
  "error option \<Rightarrow> 'h listen_event list \<Rightarrow> ('h \<Rightarrow> 'e \<Rightarrow> error option \<times> 'e) \<Rightarrow> 'e
     \<Rightarrow> (error option \<times> head_channel \<times> 'e) option" where
  "ListenForNewBlocks subscribeErr evs recvBlockHandler e =
     (case subscribeErr of
        Some err \<Rightarrow> Some (Some err, ChannelOpen, e)
      | None \<Rightarrow> listen_loop recvBlockHandler evs e)"

end
