(* ===== verification/Type_Laws.thy ===== *)
theory Type_Laws
  imports Ethereum_Types
begin

text \<open>
  Round trips of the wire types: what \<^verbatim>\<open>json.Marshal\<close> writes for a block, a transaction, a log
  or a receipt (by the struct tags, from the bytes that the \<^verbatim>\<open>MarshalJSON\<close> methods return), the decoders
  read back, with hex strings in lower case and without quotes and backslashes.
\<close>

section \<open>What is relied on of hexutil\<close>

text \<open>Printable ASCII without quotes and backslashes: what needs no escape in a JSON string.\<close>

definition plain :: "string \<Rightarrow> bool" where
  "plain s \<longleftrightarrow> (\<forall>c \<in> set s. 32 \<le> (of_char c :: nat) \<and> (of_char c :: nat) < 127 \<and> c \<noteq> CHR 0x22 \<and> c \<noteq> CHR 0x5C)"

text \<open>The decoders invert the encoders, and an encoding is a plain text that is not empty.\<close>

definition hexutil_ok :: "hexutil \<Rightarrow> bool" where
  "hexutil_ok hx \<longleftrightarrow>
     (\<forall>n. EncodeUint64 hx n \<noteq> [] \<and> plain (EncodeUint64 hx n) \<and> DecodeUint64 hx (EncodeUint64 hx n) = Inr n) \<and>
     (\<forall>i. 0 \<le> i \<longrightarrow> i < 2 ^ 256 \<longrightarrow>
        EncodeBig hx i \<noteq> [] \<and> plain (EncodeBig hx i) \<and> DecodeBig hx (EncodeBig hx i) = Inr i)"

section \<open>Decoding the members of a struct in order\<close>

fun apply_decoders :: "'r field_decoder list \<Rightarrow> json list \<Rightarrow> 'r \<Rightarrow> error + 'r" where
  "apply_decoders (d # ds) (v # vs) r =
     (case d v r of Inl e \<Rightarrow> Inl e | Inr r' \<Rightarrow> apply_decoders ds vs r')"
| "apply_decoders _ _ r = Inr r"

text \<open>A member list, by the names of the fields.\<close>

definition members :: "(string \<times> 'r field_decoder) list \<Rightarrow> json list \<Rightarrow> (string \<times> json) list" where
  "members flds vs = zip (map fst flds) vs"

lemma find_field:
  assumes "distinct (map (ToLower \<circ> fst) (pre @ f # rest))"
  shows "List.find (\<lambda>(name, _). EqualFold name (fst f)) (pre @ f # rest) = Some f"
  using assms
  by (induction pre) (auto simp: EqualFold_def split: prod.splits)

lemma decode_fields_members:
  "distinct (map (ToLower \<circ> fst) (pre @ flds)) \<Longrightarrow> length vs = length flds \<Longrightarrow>
     decode_fields (pre @ flds) (members flds vs) r = apply_decoders (map snd flds) vs r"
proof (induction flds arbitrary: pre vs r)
  case Nil
  then show ?case by (simp add: members_def)
next
  case (Cons f flds)
  then obtain v vs' where vs: "vs = v # vs'" by (cases vs) auto
  have "decode_fields (pre @ f # flds) (members flds vs') r' = apply_decoders (map snd flds) vs' r'" for r'
    using Cons.IH [of "pre @ [f]" vs' r'] Cons.prems vs by simp
  then show ?case
    using find_field [OF Cons.prems(1)] vs
    by (cases f) (simp add: members_def split: sum.split)
qed

lemma decode_struct_members:
  assumes "distinct (map ToLower (map fst flds))" "length vs = length flds"
  shows "decode_struct flds zero (JObj (members flds vs)) = apply_decoders (map snd flds) vs zero"
  using decode_fields_members [of "[]" flds vs zero] assms by (simp add: decode_struct_def)

section \<open>The trees of the wire types\<close>

text \<open>The JSON a node has for a value, by the struct tags: the members in field order.\<close>

definition json_qty :: "hexutil \<Rightarrow> uint64 \<Rightarrow> json" where
  "json_qty hx n = JStr (EncodeUint64 hx n)"

definition json_big :: "hexutil \<Rightarrow> int \<Rightarrow> json" where
  "json_big hx i = JStr (EncodeBig hx i)"

definition json_ptr :: "('a \<Rightarrow> json) \<Rightarrow> 'a option \<Rightarrow> json" where
  "json_ptr enc p = (case p of None \<Rightarrow> JNull | Some x \<Rightarrow> enc x)"

definition transaction_json :: "hexutil \<Rightarrow> EthereumTransaction \<Rightarrow> json" where
  "transaction_json hx t = JObj (members (transaction_fields hx)
     [JStr (et_BlockHash t), json_qty hx (et_BlockNumber t), JStr (et_From t), json_qty hx (et_Gas t),
      json_big hx (et_GasPrice t), JStr (et_Hash t), JStr (et_Input t), JStr (et_To t),
      json_qty hx (et_Index t), json_big hx (et_Value t), json_qty hx (et_Nonce t), JStr (et_V t),
      JStr (et_R t), JStr (et_S t), json_ptr (json_qty hx) (et_ChainId t), json_qty hx (et_Type t)])"

definition block_json :: "hexutil \<Rightarrow> EthereumBlock \<Rightarrow> json" where
  "block_json hx b = JObj (members (block_fields hx)
     [JStr (eb_Hash b), JStr (eb_ParentHash b), json_qty hx (eb_Number b), json_qty hx (eb_Timestamp b),
      JArr (map (json_ptr (transaction_json hx)) (eb_Transactions b)), JStr (eb_Nonce b),
      JNum (show_nat (unat (eb_ChainId b)))])"

definition log_json :: "hexutil \<Rightarrow> EthereumEventLog \<Rightarrow> json" where
  "log_json hx l = JObj (members (log_fields hx)
     [JBool (el_Removed l), json_qty hx (el_LogIndex l), JStr (el_TransactionHash l),
      json_qty hx (el_TransactionIndex l), JStr (el_BlockHash l), json_qty hx (el_BlockNumber l),
      JStr (el_Address l), JStr (el_Data l), JArr (map JStr (el_Topics l))])"

definition receipt_json :: "hexutil \<Rightarrow> EthereumTransactionReceipt \<Rightarrow> json" where
  "receipt_json hx r = JObj (members (receipt_fields hx)
     [JStr (er_TransactionHash r), json_qty hx (er_TransactionIndex r), JStr (er_BlockHash r),
      json_qty hx (er_BlockNumber r), JStr (er_From r), JStr (er_To r),
      json_qty hx (er_CumulativeGasUsed r), json_qty hx (er_GasUsed r), JStr (er_ContractAddress r),
      JArr (map (json_ptr (log_json hx)) (er_Logs r)), JStr (er_LogsBloom r), JStr (er_Root r),
      json_ptr (json_qty hx) (er_Status r), json_qty hx (er_Type r),
      json_ptr (json_qty hx) (er_EffectiveGasPrice r), JStr (er_ContractBytecode r)])"

section \<open>Marshalling\<close>

text \<open>
  \<^verbatim>\<open>json.Marshal\<close> takes the bytes that a \<^verbatim>\<open>MarshalJSON\<close> method returns into its output after checking
  that they are one JSON value, and fails otherwise. The methods of this package return a text between quotes,
  which they do not escape; whether that is a string literal, and of which string, depends on the quotes, backslashes
  and control characters in the text. The literal is read as the scanner and the decoder of \<^verbatim>\<open>encoding/json\<close>
  do, but for bytes that are not UTF-8, which are kept.
\<close>

definition json_syntax_error :: error where
  "json_syntax_error = Errorf ''json: error calling MarshalJSON: invalid character'' None"

definition json_hex_digit :: "char \<Rightarrow> nat option" where
  "json_hex_digit c =
     (let n = (of_char c :: nat) in
      if 48 \<le> n \<and> n \<le> 57 then Some (n - 48)
      else if 65 \<le> n \<and> n \<le> 70 then Some (n - 55)
      else if 97 \<le> n \<and> n \<le> 102 then Some (n - 87)
      else None)"

definition hex4 :: "string \<Rightarrow> nat option" where
  "hex4 cs = (if length cs < 4 then None
     else foldl (\<lambda>a c. Option.bind a (\<lambda>n. map_option (\<lambda>d. 16 * n + d) (json_hex_digit c))) (Some 0) (take 4 cs))"

definition utf8 :: "nat \<Rightarrow> string" where
  "utf8 n =
     map char_of
       (if n < 0x80 then [n]
        else if n < 0x800 then [0xC0 + n div 64, 0x80 + n mod 64]
        else if n < 0x10000 then [0xE0 + n div 4096, 0x80 + n div 64 mod 64, 0x80 + n mod 64]
        else [0xF0 + n div 262144, 0x80 + n div 4096 mod 64, 0x80 + n div 64 mod 64, 0x80 + n mod 64])"

text \<open>
  What follows a \<open>\u\<close>: the characters it stands for and how many are read. Half of a surrogate pair on its own
  stands for the replacement character.
\<close>

definition unicode_escape :: "string \<Rightarrow> (string \<times> nat) option" where
  "unicode_escape cs =
     (case hex4 cs of
        None \<Rightarrow> None
      | Some n \<Rightarrow>
          (if n < 0xD800 \<or> 0xE000 \<le> n then Some (utf8 n, 4)
           else
             (case (if n < 0xDC00 \<and> take 2 (drop 4 cs) = [CHR 0x5C, CHR ''u''] then hex4 (drop 6 cs) else None) of
                Some m \<Rightarrow>
                  (if 0xDC00 \<le> m \<and> m < 0xE000
                   then Some (utf8 (0x10000 + (n - 0xD800) * 1024 + (m - 0xDC00)), 10)
                   else Some (utf8 0xFFFD, 4))
              | None \<Rightarrow> Some (utf8 0xFFFD, 4))))"

definition simple_escapes :: "(char \<times> char) list" where
  "simple_escapes =
     [(CHR 0x22, CHR 0x22), (CHR 0x5C, CHR 0x5C), (CHR ''/'', CHR ''/''), (CHR ''b'', CHR 0x08),
      (CHR ''f'', CHR 0x0C), (CHR ''n'', CHR 0x0A), (CHR ''r'', CHR 0x0D), (CHR ''t'', CHR 0x09)]"

text \<open>The text after the opening quote, up to the closing one, which must be the last character.\<close>

fun string_literal :: "string \<Rightarrow> error + string" where
  "string_literal [] = Inl json_syntax_error"
| "string_literal (c # cs) =
     (if c = CHR 0x22 then (if cs = [] then Inr [] else Inl json_syntax_error)
      else if c = CHR 0x5C then
        (case cs of
           [] \<Rightarrow> Inl json_syntax_error
         | d # rest \<Rightarrow>
             (case (if d = CHR ''u'' then unicode_escape rest
                    else map_option (\<lambda>x. ([x], 0)) (map_of simple_escapes d)) of
                None \<Rightarrow> Inl json_syntax_error
              | Some (xs, k) \<Rightarrow>
                  (case string_literal (drop k rest) of Inl e \<Rightarrow> Inl e | Inr s \<Rightarrow> Inr (xs @ s))))
      else if (of_char c :: nat) < 32 then Inl json_syntax_error
      else (case string_literal cs of Inl e \<Rightarrow> Inl e | Inr s \<Rightarrow> Inr (c # s)))"

definition marshaled :: "string \<Rightarrow> error + json" where
  "marshaled raw =
     (case raw of
        c # cs \<Rightarrow>
          (if c = CHR 0x22 then (case string_literal cs of Inl e \<Rightarrow> Inl e | Inr s \<Rightarrow> Inr (JStr s))
           else Inl json_syntax_error)
      | [] \<Rightarrow> Inl json_syntax_error)"

abbreviation marshal_hex :: "EthereumHexString \<Rightarrow> error + json" where
  "marshal_hex s \<equiv> marshaled (HexString_MarshalJSON s)"

abbreviation marshal_qty :: "hexutil \<Rightarrow> EthereumQuantity \<Rightarrow> error + json" where
  "marshal_qty hx n \<equiv> marshaled (Quantity_MarshalJSON hx n)"

abbreviation marshal_big :: "hexutil \<Rightarrow> EthereumBigQuantity \<Rightarrow> error + json" where
  "marshal_big hx i \<equiv> marshaled (BigQuantity_MarshalJSON hx i)"

text \<open>Pointers, slices and structs; the first error ends the marshalling. A nil pointer is null.\<close>

fun marshal_all :: "(error + json) list \<Rightarrow> error + json list" where
  "marshal_all [] = Inr []"
| "marshal_all (v # vs) =
     (case v of
        Inl e \<Rightarrow> Inl e
      | Inr j \<Rightarrow> (case marshal_all vs of Inl e \<Rightarrow> Inl e | Inr js \<Rightarrow> Inr (j # js)))"

definition marshal_ptr :: "('a \<Rightarrow> error + json) \<Rightarrow> 'a option \<Rightarrow> error + json" where
  "marshal_ptr enc p = (case p of None \<Rightarrow> Inr JNull | Some x \<Rightarrow> enc x)"

definition marshal_slice :: "('a \<Rightarrow> error + json) \<Rightarrow> 'a list \<Rightarrow> error + json" where
  "marshal_slice enc xs = (case marshal_all (map enc xs) of Inl e \<Rightarrow> Inl e | Inr js \<Rightarrow> Inr (JArr js))"

definition marshal_struct :: "(string \<times> 'r field_decoder) list \<Rightarrow> (error + json) list \<Rightarrow> error + json" where
  "marshal_struct flds vs =
     (case marshal_all vs of Inl e \<Rightarrow> Inl e | Inr js \<Rightarrow> Inr (JObj (members flds js)))"

definition encode_transaction :: "hexutil \<Rightarrow> EthereumTransaction \<Rightarrow> error + json" where
  "encode_transaction hx t = marshal_struct (transaction_fields hx)
     [marshal_hex (et_BlockHash t), marshal_qty hx (et_BlockNumber t), marshal_hex (et_From t),
      marshal_qty hx (et_Gas t), marshal_big hx (et_GasPrice t), marshal_hex (et_Hash t),
      marshal_hex (et_Input t), marshal_hex (et_To t), marshal_qty hx (et_Index t), marshal_big hx (et_Value t),
      marshal_qty hx (et_Nonce t), marshal_hex (et_V t), marshal_hex (et_R t), marshal_hex (et_S t),
      marshal_ptr (\<lambda>n. marshal_qty hx n) (et_ChainId t), marshal_qty hx (et_Type t)]"

definition encode_block :: "hexutil \<Rightarrow> EthereumBlock \<Rightarrow> error + json" where
  "encode_block hx b = marshal_struct (block_fields hx)
     [marshal_hex (eb_Hash b), marshal_hex (eb_ParentHash b), marshal_qty hx (eb_Number b),
      marshal_qty hx (eb_Timestamp b), marshal_slice (marshal_ptr (encode_transaction hx)) (eb_Transactions b),
      marshal_hex (eb_Nonce b), Inr (JNum (show_nat (unat (eb_ChainId b))))]"

definition encode_log :: "hexutil \<Rightarrow> EthereumEventLog \<Rightarrow> error + json" where
  "encode_log hx l = marshal_struct (log_fields hx)
     [Inr (JBool (el_Removed l)), marshal_qty hx (el_LogIndex l), marshal_hex (el_TransactionHash l),
      marshal_qty hx (el_TransactionIndex l), marshal_hex (el_BlockHash l), marshal_qty hx (el_BlockNumber l),
      marshal_hex (el_Address l), marshal_hex (el_Data l), marshal_slice (\<lambda>s. marshal_hex s) (el_Topics l)]"

definition encode_receipt :: "hexutil \<Rightarrow> EthereumTransactionReceipt \<Rightarrow> error + json" where
  "encode_receipt hx r = marshal_struct (receipt_fields hx)
     [marshal_hex (er_TransactionHash r), marshal_qty hx (er_TransactionIndex r), marshal_hex (er_BlockHash r),
      marshal_qty hx (er_BlockNumber r), marshal_hex (er_From r), marshal_hex (er_To r),
      marshal_qty hx (er_CumulativeGasUsed r), marshal_qty hx (er_GasUsed r), marshal_hex (er_ContractAddress r),
      marshal_slice (marshal_ptr (encode_log hx)) (er_Logs r), marshal_hex (er_LogsBloom r), marshal_hex (er_Root r),
      marshal_ptr (\<lambda>n. marshal_qty hx n) (er_Status r), marshal_qty hx (er_Type r),
      marshal_ptr (\<lambda>n. marshal_qty hx n) (er_EffectiveGasPrice r), marshal_hex (er_ContractBytecode r)]"

section \<open>Values that survive the round trip\<close>

text \<open>Plain hex strings in lower case, gas prices and values that fit 256 bits.\<close>

definition lower :: "string \<Rightarrow> bool" where
  "lower s \<longleftrightarrow> plain s \<and> ToLower s = s"

definition wire_transaction :: "EthereumTransaction \<Rightarrow> bool" where
  "wire_transaction t \<longleftrightarrow>
     list_all lower [et_BlockHash t, et_From t, et_Hash t, et_Input t, et_To t, et_V t, et_R t, et_S t] \<and>
     list_all (\<lambda>i. 0 \<le> i \<and> i < 2 ^ 256) [et_GasPrice t, et_Value t]"

definition wire_block :: "EthereumBlock \<Rightarrow> bool" where
  "wire_block b \<longleftrightarrow>
     list_all lower [eb_Hash b, eb_ParentHash b, eb_Nonce b] \<and>
     list_all (\<lambda>p. case p of None \<Rightarrow> True | Some t \<Rightarrow> wire_transaction t) (eb_Transactions b)"

definition wire_log :: "EthereumEventLog \<Rightarrow> bool" where
  "wire_log l \<longleftrightarrow>
     list_all lower ([el_TransactionHash l, el_BlockHash l, el_Address l, el_Data l] @ el_Topics l)"

definition wire_receipt :: "EthereumTransactionReceipt \<Rightarrow> bool" where
  "wire_receipt r \<longleftrightarrow>
     list_all lower [er_TransactionHash r, er_BlockHash r, er_From r, er_To r, er_ContractAddress r,
       er_LogsBloom r, er_Root r, er_ContractBytecode r] \<and>
     list_all (\<lambda>p. case p of None \<Rightarrow> True | Some l \<Rightarrow> wire_log l) (er_Logs r)"

section \<open>Marshalling values in wire form\<close>

lemma literal_plain: "plain s \<Longrightarrow> string_literal (s @ [CHR 0x22]) = Inr s"
  by (induction s) (auto simp: plain_def)

lemma literal_quote: "plain s \<Longrightarrow> t \<noteq> [] \<Longrightarrow> string_literal (s @ CHR 0x22 # t) = Inl json_syntax_error"
  by (induction s) (auto simp: plain_def)

text \<open>
  The methods escape nothing: a quote within the text ends the literal there, and the marshalling fails.
\<close>

lemma marshal_hex_quote: "plain s \<Longrightarrow> marshal_hex (s @ CHR 0x22 # t) = Inl json_syntax_error"
  by (simp add: marshaled_def HexString_MarshalJSON_def quoted_def literal_quote)

lemma marshal_plain:
  "plain s \<Longrightarrow> marshal_hex s = Inr (JStr s)"
  "hexutil_ok hx \<Longrightarrow> marshal_qty hx n = Inr (json_qty hx n)"
  "hexutil_ok hx \<Longrightarrow> 0 \<le> i \<Longrightarrow> i < 2 ^ 256 \<Longrightarrow> marshal_big hx i = Inr (json_big hx i)"
  by (simp_all add: marshaled_def HexString_MarshalJSON_def Quantity_MarshalJSON_def BigQuantity_MarshalJSON_def
      quoted_def literal_plain hexutil_ok_def json_qty_def json_big_def)

lemma lower_plain: "lower s \<Longrightarrow> marshal_hex s = Inr (JStr s)"
  by (simp add: lower_def marshal_plain)

lemma marshal_all_Inr: "marshal_all (map (\<lambda>x. Inr (f x)) xs) = Inr (map f xs)"
  by (induction xs) simp_all

lemma marshal_slice_eq:
  "(\<And>x. x \<in> set xs \<Longrightarrow> enc x = Inr (f x)) \<Longrightarrow> marshal_slice enc xs = Inr (JArr (map f xs))"
  using marshal_all_Inr [of f xs] by (simp add: marshal_slice_def cong: map_cong)

lemma marshal_ptr_eq:
  "(\<And>x. p = Some x \<Longrightarrow> enc x = Inr (f x)) \<Longrightarrow> marshal_ptr enc p = Inr (json_ptr f p)"
  by (simp add: marshal_ptr_def json_ptr_def split: option.split)

lemma marshal_ptr_Inr: "marshal_ptr (\<lambda>x. Inr (f x)) p = Inr (json_ptr f p)"
  by (rule marshal_ptr_eq) simp

lemmas marshal_wire = marshal_struct_def marshal_plain(2,3) lower_plain marshal_ptr_Inr

lemma encode_transaction_eq:
  assumes "hexutil_ok hx" "wire_transaction t"
  shows "encode_transaction hx t = Inr (transaction_json hx t)"
  using assms by (simp add: encode_transaction_def transaction_json_def wire_transaction_def marshal_wire)

lemma encode_log_eq:
  assumes "hexutil_ok hx" "wire_log l"
  shows "encode_log hx l = Inr (log_json hx l)"
proof -
  have "marshal_slice (\<lambda>s. marshal_hex s) (el_Topics l) = Inr (JArr (map JStr (el_Topics l)))"
    using assms(2) by (intro marshal_slice_eq) (simp add: wire_log_def list_all_iff lower_plain)
  with assms show ?thesis by (simp add: encode_log_def log_json_def wire_log_def marshal_wire)
qed

lemma encode_block_eq:
  assumes "hexutil_ok hx" "wire_block b"
  shows "encode_block hx b = Inr (block_json hx b)"
proof -
  have "marshal_slice (marshal_ptr (encode_transaction hx)) (eb_Transactions b) =
      Inr (JArr (map (json_ptr (transaction_json hx)) (eb_Transactions b)))"
    using assms
    by (intro marshal_slice_eq marshal_ptr_eq encode_transaction_eq) (auto simp: wire_block_def list_all_iff)
  with assms show ?thesis by (simp add: encode_block_def block_json_def wire_block_def marshal_wire)
qed

lemma encode_receipt_eq:
  assumes "hexutil_ok hx" "wire_receipt r"
  shows "encode_receipt hx r = Inr (receipt_json hx r)"
proof -
  have "marshal_slice (marshal_ptr (encode_log hx)) (er_Logs r) =
      Inr (JArr (map (json_ptr (log_json hx)) (er_Logs r)))"
    using assms
    by (intro marshal_slice_eq marshal_ptr_eq encode_log_eq) (auto simp: wire_receipt_def list_all_iff)
  with assms show ?thesis by (simp add: encode_receipt_def receipt_json_def wire_receipt_def marshal_wire)
qed

section \<open>Field decoders on encoded values\<close>

lemma hex_decode [simp]: "lower s \<Longrightarrow> HexString_UnmarshalJSON (JStr s) = Inr s"
  by (simp add: HexString_UnmarshalJSON_def unmarshal_string_def lower_def)

lemma qty_decode [simp]: "hexutil_ok hx \<Longrightarrow> Quantity_UnmarshalJSON hx (json_qty hx n) = Inr n"
  by (simp add: Quantity_UnmarshalJSON_def json_qty_def hexutil_ok_def)

lemma big_decode [simp]:
  "hexutil_ok hx \<Longrightarrow> 0 \<le> i \<Longrightarrow> i < 2 ^ 256 \<Longrightarrow> BigQuantity_UnmarshalJSON hx (json_big hx i) = Inr i"
  by (simp add: BigQuantity_UnmarshalJSON_def unmarshal_string_def json_big_def hexutil_ok_def)

lemma ptr_decode:
  assumes "\<And>x. p = Some x \<Longrightarrow> dec (enc x) = Inr x \<and> enc x \<noteq> JNull"
  shows "decode_ptr dec (json_ptr enc p) = Inr p"
proof (cases p)
  case None
  then show ?thesis by (simp add: decode_ptr_def json_ptr_def)
next
  case (Some x)
  with assms [of x] show ?thesis by (cases "enc x") (simp_all add: decode_ptr_def json_ptr_def)
qed

lemma qty_ptr_decode [simp]:
  "hexutil_ok hx \<Longrightarrow> decode_ptr (Quantity_UnmarshalJSON hx) (json_ptr (json_qty hx) p) = Inr p"
  by (rule ptr_decode) (simp, simp add: json_qty_def)

lemma slice_decode:
  "(\<And>x. x \<in> set xs \<Longrightarrow> dec (enc x) = Inr x) \<Longrightarrow> decode_slice dec (JArr (map enc xs)) = Inr xs"
  by (induction xs) (simp_all add: decode_slice_def)

lemma digits_decode: "(\<forall>c \<in> set (show_nat n). is_digit c) \<and> show_nat n \<noteq> []"
proof (induction n rule: show_nat.induct)
  case (1 n)
  have digit: "d < 10 \<Longrightarrow> is_digit (digit_char d)" for d
    by (simp add: is_digit_def of_char_digit_char Let_def)
  show ?case using 1 digit [of n] digit [of "n mod 10"] by (subst (1 2) show_nat.simps) auto
qed

lemma uint_decode [simp]: "unmarshal_uint64 (JNum (show_nat (unat n))) = Inr n"
  using digits_decode [of "unat n"] unat_uint64_bound [of n]
  by (simp add: unmarshal_uint64_def read_show_nat)

lemmas decoders = apply_decoders.simps field_def bool_field_def uint_field_def

lemma field_names_distinct:
  "distinct (map ToLower (map fst (transaction_fields hx)))"
  "distinct (map ToLower (map fst (block_fields hx)))"
  "distinct (map ToLower (map fst (log_fields hx)))"
  "distinct (map ToLower (map fst (receipt_fields hx)))"
  by (simp_all only: transaction_fields_def block_fields_def log_fields_def receipt_fields_def
      list.map fst_conv) code_simp+

lemma encode_not_null [simp]:
  "transaction_json hx t \<noteq> JNull" "log_json hx l \<noteq> JNull"
  by (simp_all add: transaction_json_def log_json_def)

lemma transaction_roundtrip:
  assumes "hexutil_ok hx" "wire_transaction t"
  shows "decode_transaction hx (transaction_json hx t) = Inr t"
  unfolding decode_transaction_def transaction_json_def
  using assms
  by (subst decode_struct_members [OF field_names_distinct(1)])
    (simp_all add: transaction_fields_def decoders wire_transaction_def zero_transaction_def)

lemma log_roundtrip:
  assumes "hexutil_ok hx" "wire_log l"
  shows "decode_log hx (log_json hx l) = Inr l"
proof -
  have "decode_slice HexString_UnmarshalJSON (JArr (map JStr (el_Topics l))) = Inr (el_Topics l)"
    using assms(2) by (intro slice_decode) (auto simp: wire_log_def list_all_iff)
  then show ?thesis
    unfolding decode_log_def log_json_def
    using assms
    by (subst decode_struct_members [OF field_names_distinct(3)])
      (simp_all add: log_fields_def decoders wire_log_def zero_log_def)
qed

lemma block_roundtrip:
  assumes "hexutil_ok hx" "wire_block b"
  shows "decode_block hx (block_json hx b) = Inr b"
proof -
  have "decode_ptr (decode_transaction hx) (json_ptr (transaction_json hx) p) = Inr p"
    if "p \<in> set (eb_Transactions b)" for p
    using assms that
    by (intro ptr_decode) (fastforce simp: wire_block_def list_all_iff intro: transaction_roundtrip)
  then have "decode_slice (decode_ptr (decode_transaction hx))
      (JArr (map (json_ptr (transaction_json hx)) (eb_Transactions b))) = Inr (eb_Transactions b)"
    by (rule slice_decode)
  then show ?thesis
    unfolding decode_block_def block_json_def
    using assms
    by (subst decode_struct_members [OF field_names_distinct(2)])
      (simp_all add: block_fields_def decoders wire_block_def zero_block_def)
qed

lemma receipt_roundtrip:
  assumes "hexutil_ok hx" "wire_receipt r"
  shows "decode_receipt hx (receipt_json hx r) = Inr r"
proof -
  have "decode_ptr (decode_log hx) (json_ptr (log_json hx) p) = Inr p"
    if "p \<in> set (er_Logs r)" for p
    using assms that
    by (intro ptr_decode) (fastforce simp: wire_receipt_def list_all_iff intro: log_roundtrip)
  then have "decode_slice (decode_ptr (decode_log hx))
      (JArr (map (json_ptr (log_json hx)) (er_Logs r))) = Inr (er_Logs r)"
    by (rule slice_decode)
  then show ?thesis
    unfolding decode_receipt_def receipt_json_def
    using assms
    by (subst decode_struct_members [OF field_names_distinct(4)])
      (simp_all add: receipt_fields_def decoders wire_receipt_def zero_receipt_def)
qed

section \<open>A hex codec\<close>

text \<open>
  A codec with these laws, in the format of Ethereum quantities: the prefix \<open>0x\<close> and hex digits.
\<close>

definition hex_char :: "nat \<Rightarrow> char" where
  "hex_char d = (if d < 10 then char_of (48 + d) else char_of (87 + d))"

definition char_hex :: "char \<Rightarrow> nat" where
  "char_hex c = (let n = (of_char c :: nat) in if n < 58 then n - 48 else n - 87)"

fun hex_nat :: "nat \<Rightarrow> string" where
  "hex_nat n = (if n < 16 then [hex_char n] else hex_nat (n div 16) @ [hex_char (n mod 16)])"

declare hex_nat.simps [simp del]

definition read_hex :: "string \<Rightarrow> nat" where
  "read_hex s = foldl (\<lambda>a c. 16 * a + char_hex c) 0 s"

definition sample_hexutil :: hexutil where
  "sample_hexutil =
     \<lparr>EncodeUint64 = (\<lambda>n. ''0x'' @ hex_nat (unat n)),
      DecodeUint64 = (\<lambda>s. Inr (word_of_nat (read_hex (drop 2 s)))),
      EncodeBig = (\<lambda>i. ''0x'' @ hex_nat (nat i)),
      DecodeBig = (\<lambda>s. Inr (int (read_hex (drop 2 s))))\<rparr>"

lemma char_hex_char: "d < 16 \<Longrightarrow> char_hex (hex_char d) = d"
  by (auto simp: char_hex_def hex_char_def Let_def)

lemma read_hex_nat: "read_hex (hex_nat n) = n"
proof (induction n rule: hex_nat.induct)
  case (1 n)
  show ?case
  proof (cases "n < 16")
    case True
    then show ?thesis by (subst hex_nat.simps) (simp add: read_hex_def char_hex_char)
  next
    case False
    with 1 have "read_hex (hex_nat (n div 16)) = n div 16" by simp
    with False show ?thesis by (subst hex_nat.simps) (simp add: read_hex_def char_hex_char)
  qed
qed

lemma plain_hex_char:
  assumes "d < 16"
  shows "plain [hex_char d]"
proof -
  have n: "(of_char (hex_char d) :: nat) = (if d < 10 then 48 + d else 87 + d)"
    using assms by (simp add: hex_char_def)
  have "hex_char d \<noteq> CHR 0x22" "hex_char d \<noteq> CHR 0x5C"
    using n assms by (auto split: if_splits)
  with n assms show ?thesis by (simp add: plain_def)
qed

lemma plain_append [simp]: "plain (s @ t) \<longleftrightarrow> plain s \<and> plain t"
  by (auto simp: plain_def)

lemma hex_nat_nonempty: "hex_nat n \<noteq> []"
  by (subst hex_nat.simps) simp

lemma plain_hex_nat: "plain (hex_nat n)"
proof (induction n rule: hex_nat.induct)
  case (1 n)
  then show ?case using plain_hex_char [of n] plain_hex_char [of "n mod 16"] by (subst hex_nat.simps) simp
qed

lemma sample_hexutil_ok: "hexutil_ok sample_hexutil"
proof -
  have "plain (''0x'' @ hex_nat n)" for n
  proof -
    have "plain ''0x''" by code_simp
    then show ?thesis using plain_hex_nat by (simp only: plain_append simp_thms)
  qed
  then show ?thesis by (simp add: hexutil_ok_def sample_hexutil_def read_hex_nat)
qed

section \<open>Properties\<close>

text \<open>
  C24. Round trip of blocks. A block in wire form (hex strings in lower case and in printable ASCII without quotes
  and backslashes, prices and values of its transactions within 256 bits) is marshalled, by the struct tags
  and from the bytes of the \<^verbatim>\<open>MarshalJSON\<close> methods, and the decoder reads the block back from that JSON,
  transactions included.
\<close>

theorem block_json_roundtrip:
  assumes "hexutil_ok hx" and "wire_block b"
  shows "\<exists>j. encode_block hx b = Inr j \<and> decode_block hx j = Inr b"
  using encode_block_eq [OF assms] block_roundtrip [OF assms] by blast

theorem block_json_roundtrip_witness:
  "\<exists>j. encode_block sample_hexutil
      (zero_block\<lparr>eb_Hash := ''0xab'', eb_Number := 300, eb_Transactions := [None, Some zero_transaction]\<rparr>) = Inr j \<and>
    decode_block sample_hexutil j =
      Inr (zero_block\<lparr>eb_Hash := ''0xab'', eb_Number := 300, eb_Transactions := [None, Some zero_transaction]\<rparr>)"
proof (rule block_json_roundtrip [OF sample_hexutil_ok])
  have "lower ''0xab''" "lower []" by code_simp+
  then show "wire_block (zero_block\<lparr>eb_Hash := ''0xab'', eb_Number := 300,
      eb_Transactions := [None, Some zero_transaction]\<rparr>)"
    by (simp add: wire_block_def wire_transaction_def zero_block_def zero_transaction_def)
qed

text \<open>
  C25. Round trip of receipts and logs. A receipt in wire form is marshalled, by the struct tags and from
  the bytes of the \<^verbatim>\<open>MarshalJSON\<close> methods, and the decoder reads it back from that JSON, with the nil or
  set optional fields and all its logs.
\<close>

theorem receipt_json_roundtrip:
  assumes "hexutil_ok hx" and "wire_receipt r"
  shows "\<exists>j. encode_receipt hx r = Inr j \<and> decode_receipt hx j = Inr r"
  using encode_receipt_eq [OF assms] receipt_roundtrip [OF assms] by blast

theorem receipt_json_roundtrip_witness:
  "\<exists>j. encode_receipt sample_hexutil (zero_receipt\<lparr>er_Status := Some 1, er_Logs := [Some zero_log]\<rparr>) = Inr j \<and>
    decode_receipt sample_hexutil j = Inr (zero_receipt\<lparr>er_Status := Some 1, er_Logs := [Some zero_log]\<rparr>)"
proof (rule receipt_json_roundtrip [OF sample_hexutil_ok])
  have "lower []" by code_simp
  then show "wire_receipt (zero_receipt\<lparr>er_Status := Some 1, er_Logs := [Some zero_log]\<rparr>)"
    by (simp add: wire_receipt_def wire_log_def zero_receipt_def zero_log_def)
qed

text \<open>
  C39. Quantities as numbers. \<^verbatim>\<open>BigInt\<close> returns the quantity when it is below \<open>2 ^ 63\<close> and a
  negative number, smaller by \<open>2 ^ 64\<close>, otherwise; \<^verbatim>\<open>Uint64\<close> of a big quantity returns its value
  exactly when it fits 64 bits, and an error otherwise.
\<close>

theorem quantity_conversions:
  "Quantity_BigInt n = (if uint n < 2 ^ 63 then uint n else uint n - 2 ^ 64) \<and>
   (case BigQuantity_Uint64 v of Inr u \<Rightarrow> uint u = v | Inl _ \<Rightarrow> v < 0 \<or> 2 ^ 64 \<le> v)"
proof
  show "Quantity_BigInt n = (if uint n < 2 ^ 63 then uint n else uint n - 2 ^ 64)"
  proof (cases "uint n < 2 ^ 63")
    case True
    have "- (2 ^ 63) \<le> (0 :: int)" by simp
    then have "- (2 ^ 63) \<le> uint n" using uint_ge_0 [of n] by (rule order_trans)
    from signed_take_bit_int_eq_self [OF this True] have "sint n = uint n" by (simp add: sint_uint)
    with True show ?thesis by (simp add: Quantity_BigInt_def)
  next
    case False
    have zero: "(18446744073709551616 :: uint64) = 0" by simp
    have "word_of_int (uint n - 2 ^ 64) = n - (18446744073709551616 :: uint64)" by simp
    then have "sint n = sint (word_of_int (uint n - 2 ^ 64) :: uint64)" by (simp only: zero diff_zero)
    also have "\<dots> = uint n - 2 ^ 64"
      using False uint_bounded [of n] by (simp only: signed_of_int) (simp add: signed_take_bit_int_eq_self)
    finally show ?thesis using False by (simp add: Quantity_BigInt_def)
  qed
  show "case BigQuantity_Uint64 v of Inr u \<Rightarrow> uint u = v | Inl _ \<Rightarrow> v < 0 \<or> 2 ^ 64 \<le> v"
    by (auto simp: BigQuantity_Uint64_def unsigned_of_int take_bit_int_eq_self)
qed

end
