(* ===== verification/Client_Laws.thy ===== *)
theory Client_Laws
  imports Ethereum_Client Type_Laws Poller_Fetch Poller_Reorg
begin

text \<open>
  Correctness of the RPC client: what a retried call returns and how long it sleeps, that a batch
  call answers every request in its own place whatever the completion order, when the loop over new heads
  returns, and how the queries present a node to the poller.
\<close>

section \<open>Retries\<close>

text \<open>The network after \<open>i\<close> attempts, and whether attempt \<open>i\<close> fails.\<close>

definition after_attempts :: "'n EthereumClient \<Rightarrow> RPCRequest \<Rightarrow> nat \<Rightarrow> 'n \<Rightarrow> 'n" where
  "after_attempts c r i n = ((\<lambda>n. snd (call c r n)) ^^ i) n"

definition attempt_fails :: "'n EthereumClient \<Rightarrow> RPCRequest \<Rightarrow> nat \<Rightarrow> 'n \<Rightarrow> bool" where
  "attempt_fails c r i n = isl (fst (call c r (after_attempts c r i n)))"

lemma after_attempts_0 [simp]: "after_attempts c r 0 n = n"
  by (simp add: after_attempts_def)

lemma after_attempts_Suc: "after_attempts c r (Suc i) n = after_attempts c r i (snd (call c r n))"
  by (simp only: after_attempts_def funpow_Suc_right comp_def)

lemma attempt_fails_Suc: "attempt_fails c r (Suc i) n = attempt_fails c r i (snd (call c r n))"
  by (simp add: attempt_fails_def after_attempts_Suc)

lemma Call_loop_fails:
  assumes "attempt_fails c r 0 n"
  shows "Call_loop c r (b # bs) n =
    (let (res, slept, n') = Call_loop c r bs (snd (call c r n)) in (res, b + slept, n'))"
  using assms by (cases "call c r n") (auto simp: attempt_fails_def isl_def)

lemma Call_loop_succeeds:
  assumes "\<And>i. i < j \<Longrightarrow> attempt_fails c r i n" "j < length bs"
    and "call c r (after_attempts c r j n) = (Inr res, n')"
  shows "Call_loop c r bs n = (Inr res, sum_list (take j bs), n')"
  using assms
proof (induction j arbitrary: bs n)
  case 0
  then show ?case by (cases bs) simp_all
next
  case (Suc j)
  then obtain b bs' where bs: "bs = b # bs'" by (cases bs) auto
  have "Call_loop c r bs' (snd (call c r n)) = (Inr res, sum_list (take j bs'), n')"
    using Suc.prems bs
    by (intro Suc.IH) (auto simp: after_attempts_Suc simp flip: attempt_fails_Suc)
  with Call_loop_fails [of c r n b bs'] Suc.prems(1) [of 0] bs show ?case by simp
qed

lemma Call_loop_exhausted:
  assumes "\<And>i. i < length bs \<Longrightarrow> attempt_fails c r i n"
  shows "Call_loop c r bs n = (Inl (Errorf ''exceeded retries for Call'' None), sum_list bs,
    after_attempts c r (length bs) n)"
  using assms
proof (induction bs arbitrary: n)
  case Nil
  then show ?case by simp
next
  case (Cons b bs)
  have "Call_loop c r bs (snd (call c r n)) = (Inl (Errorf ''exceeded retries for Call'' None),
      sum_list bs, after_attempts c r (length bs) (snd (call c r n)))"
    using Cons.prems by (intro Cons.IH) (auto simp flip: attempt_fails_Suc)
  with Call_loop_fails [of c r n b bs] Cons.prems [of 0] show ?case
    by (simp add: after_attempts_Suc)
qed

section \<open>Splitting requests\<close>

lemma batch_loop_eq:
  "0 < k \<Longrightarrow> i < length xs \<Longrightarrow> batch_loop k xs i = chunks_of k (drop i xs)"
proof (induction k xs i rule: batch_loop.induct)
  case (1 k xs i)
  have step: "chunks_of k (drop i xs) = take k (drop i xs) # chunks_of k (drop (i + k) xs)"
    using 1 by (subst chunks_of_step) (simp_all add: add.commute)
  show ?case
  proof (cases "length xs \<le> i + k")
    case True
    with 1 show ?thesis by (subst batch_loop.simps) (simp add: step)
  next
    case False
    then have "batch_loop k xs (i + k) = chunks_of k (drop (i + k) xs)"
      using 1 by (intro "1.IH") auto
    with False 1 show ?thesis by (subst batch_loop.simps) (simp add: step)
  qed
qed

section \<open>Concurrent batches\<close>

text \<open>A network on which every request has a fixed outcome, in any state of \<open>J\<close>.\<close>

definition answers ::
  "'n EthereumClient \<Rightarrow> ('n \<Rightarrow> bool) \<Rightarrow> (RPCRequest \<Rightarrow> error + RPCResponse) \<Rightarrow> bool" where
  "answers c J ans \<longleftrightarrow>
     (\<forall>r n. J n \<longrightarrow> (\<exists>slept n'. Call c r n = (ans r, slept, n') \<and> J n'))"

definition response_of :: "error + RPCResponse \<Rightarrow> RPCResponse option" where
  "response_of a = (case a of Inl _ \<Rightarrow> None | Inr res \<Rightarrow> Some res)"

text \<open>The request list in which the requests with an index in \<open>D\<close> have been answered.\<close>

definition answered ::
  "(RPCRequest \<Rightarrow> error + RPCResponse) \<Rightarrow> RPCRequest list \<Rightarrow> nat set \<Rightarrow> IndexedRpcRequestResponse list" where
  "answered ans reqs D =
     map (\<lambda>i. \<lparr>ix_Index = i, ix_Request = reqs ! i,
               ix_Response = (if i \<in> D then response_of (ans (reqs ! i)) else None)\<rparr>)
       [0..<length reqs]"

definition indexes :: "RPCRequest list \<Rightarrow> IndexedRpcRequestResponse \<Rightarrow> bool" where
  "indexes reqs x \<longleftrightarrow> ix_Index x < length reqs \<and> ix_Request x = reqs ! ix_Index x"

lemma set_response_answered:
  assumes "ans (reqs ! i) = Inr res" "i < length reqs"
  shows "set_response (i, res) (answered ans reqs D) = answered ans reqs (insert i D)"
  using assms
  by (intro nth_equalityI) (auto simp: set_response_def answered_def response_of_def nth_list_update)

lemma answered_failed:
  "ans (reqs ! i) = Inl e \<Longrightarrow> answered ans reqs (insert i D) = answered ans reqs D"
  by (auto simp: answered_def response_of_def)

lemma batch_responses_answered:
  assumes "answers c J ans" "\<And>j. j \<in> set js \<Longrightarrow> indexes reqs (batch ! j)"
  shows "J n \<Longrightarrow> \<exists>rs n'. batch_responses c batch js n = (rs, n') \<and> J n' \<and>
    (\<forall>D. fold set_response rs (answered ans reqs D) =
       answered ans reqs (D \<union> (\<lambda>j. ix_Index (batch ! j)) ` set js))"
  using assms(2)
proof (induction js arbitrary: n)
  case Nil
  then show ?case by simp
next
  case (Cons j js)
  let ?r = "ix_Request (batch ! j)" and ?i = "ix_Index (batch ! j)"
  have ix: "?i < length reqs" "?r = reqs ! ?i" using Cons.prems(2) [of j] by (auto simp: indexes_def)
  obtain slept n1 where n1: "Call c ?r n = (ans ?r, slept, n1)" "J n1"
    using assms(1) Cons.prems(1) unfolding answers_def by blast
  obtain rs n' where rs: "batch_responses c batch js n1 = (rs, n')" "J n'"
    "\<And>D. fold set_response rs (answered ans reqs D) =
       answered ans reqs (D \<union> (\<lambda>j. ix_Index (batch ! j)) ` set js)"
    using Cons.IH [OF n1(2)] Cons.prems(2) by (metis list.set_intros(2))
  show ?case
  proof (cases "ans ?r")
    case (Inl e)
    have "answered ans reqs (insert ?i D) = answered ans reqs D" for D
      using answered_failed [of ans reqs ?i e D] Inl ix by simp
    with rs n1(1) Inl show ?thesis by simp
  next
    case (Inr res)
    have "set_response (?i, res) (answered ans reqs D) = answered ans reqs (insert ?i D)" for D
      using set_response_answered [of ans reqs ?i res D] Inr ix by simp
    with rs n1(1) Inr show ?thesis by simp
  qed
qed

lemma run_batches_answered:
  assumes "answers c J ans"
  shows "J n \<Longrightarrow> \<forall>x \<in> set (concat bs). indexes reqs x \<Longrightarrow>
    \<exists>n'. run_batches c bs (answered ans reqs D) n =
      (answered ans reqs (D \<union> ix_Index ` set (concat bs)), n') \<and> J n'"
proof (induction bs arbitrary: n D)
  case Nil
  then show ?case by simp
next
  case (Cons b bs)
  let ?js = "completion_order (length b) (ec_schedule c n)"
  obtain rs n1 where rs: "batch_responses c b ?js n = (rs, n1)" "J n1"
    "\<And>D. fold set_response rs (answered ans reqs D) =
       answered ans reqs (D \<union> (\<lambda>j. ix_Index (b ! j)) ` set ?js)"
    using batch_responses_answered [OF assms _ Cons.prems(1), of ?js reqs b] Cons.prems(2)
    by (auto simp: nth_mem)
  have "(\<lambda>j. ix_Index (b ! j)) ` set ?js = ix_Index ` set b"
    by (fastforce simp: set_conv_nth [of b])
  with rs Cons.IH [OF rs(2), of "D \<union> ix_Index ` set b"] Cons.prems(2) show ?case
    by (simp add: Un_assoc image_Un)
qed

lemma chunkedBatchCall_answers:
  assumes "answers c J ans" "J n"
  shows "\<exists>n'. chunkedBatchCall c reqs n = (Inr (map (\<lambda>r. response_of (ans r)) reqs), n') \<and> J n'"
proof (cases "reqs = []")
  case True
  with assms show ?thesis by (simp add: chunkedBatchCall_def)
next
  case False
  let ?ord = "answered ans reqs {}" and ?bs = "chunks_of ChunkedBatchCallSize (answered ans reqs {})"
  have ordered: "map (\<lambda>(i, req). \<lparr>ix_Index = i, ix_Request = req, ix_Response = None\<rparr>)
      (enumerate 0 reqs) = ?ord"
    by (intro nth_equalityI) (simp_all add: answered_def nth_enumerate_eq)
  have size: "0 < ChunkedBatchCallSize" by (simp add: ChunkedBatchCallSize_def)
  have bs: "batch_loop ChunkedBatchCallSize ?ord 0 = ?bs"
    using batch_loop_eq [OF size, of 0 ?ord] False by (simp add: answered_def)
  have cat: "concat ?bs = ?ord" by (rule concat_chunks_of [OF size])
  have "\<forall>x \<in> set (concat ?bs). indexes reqs x" "ix_Index ` set (concat ?bs) = {0..<length reqs}"
    unfolding cat by (auto simp: answered_def indexes_def image_image)
  with run_batches_answered [OF assms, of ?bs reqs "{}"] obtain n' where
    n': "run_batches c ?bs ?ord n = (answered ans reqs {0..<length reqs}, n')" "J n'" by auto
  have "map ix_Response (answered ans reqs {0..<length reqs}) = map (\<lambda>r. response_of (ans r)) reqs"
    by (intro nth_equalityI) (simp_all add: answered_def)
  moreover have "length (answered ans reqs {0..<length reqs}) = length reqs"
    by (simp add: answered_def)
  ultimately show ?thesis
    using n' False by (simp add: chunkedBatchCall_def ordered bs Let_def)
qed

section \<open>Native batches\<close>

text \<open>A network on which every native batch call has a fixed outcome, in any state of \<open>J\<close>.\<close>

definition answers_batches ::
  "'n EthereumClient \<Rightarrow> ('n \<Rightarrow> bool) \<Rightarrow> (RPCRequest list \<Rightarrow> error + RPCResponse option list) \<Rightarrow> bool" where
  "answers_batches c J ans \<longleftrightarrow>
     (\<forall>b n. J n \<longrightarrow> (\<exists>n'. batchCall c b n = (Ret (ans b), n') \<and> J n'))"

definition batch_result :: "error + RPCResponse option list \<Rightarrow> RPCResponse option list" where
  "batch_result r = (case r of Inl _ \<Rightarrow> [] | Inr rs \<Rightarrow> rs)"

lemma native_batches_answers:
  assumes "answers_batches c J ans"
  shows "J n \<Longrightarrow> \<exists>rss n'. native_batches c batches is n = (Ret rss, n') \<and> J n' \<and>
    concat rss = concat (map (\<lambda>i. batch_result (ans (batches ! i))) is)"
proof (induction "is" arbitrary: n)
  case Nil
  then show ?case by simp
next
  case (Cons i "is")
  obtain n1 where n1: "batchCall c (batches ! i) n = (Ret (ans (batches ! i)), n1)" "J n1"
    using assms Cons.prems unfolding answers_batches_def by blast
  from Cons.IH [OF n1(2)] n1(1) show ?case
    by (cases "ans (batches ! i)") (auto simp: batch_result_def)
qed

text \<open>The number of a response, and a response whose number the comparison reads without overflow.\<close>

definition response_id :: "RPCResponse option \<Rightarrow> nat" where
  "response_id r = unat (the (rs_ID (the r)))"

definition small_id :: "RPCResponse option \<Rightarrow> bool" where
  "small_id r \<longleftrightarrow> has_id r \<and> response_id r < 2 ^ 63"

lemma id_less_iff:
  assumes "small_id x" "small_id y"
  shows "id_less x y \<longleftrightarrow> response_id x < response_id y"
proof -
  let ?a = "the (rs_ID (the x)) :: go_int" and ?b = "the (rs_ID (the y)) :: go_int"
  have sint: "sint w = int (unat w)" if "unat w < 2 ^ 63" for w :: go_int
    using sint_word_of_nat [OF that] by simp
  have small: "unat ?a < 2 ^ 63" "unat ?b < 2 ^ 63"
    using assms by (simp_all add: small_id_def response_id_def)
  have neg: "sint (- ?b) = - sint ?b"
    using sint [OF small(2)] small(2) by (simp add: sint_word_ariths(4) signed_take_bit_int_eq_self
        del: of_nat_unat)
  have "sint (?a + - ?b) = sint ?a + sint (- ?b)"
    using sint [OF small(1)] sint [OF small(2)] small
    by (intro sint_add_in_range) (simp_all add: neg del: of_nat_unat)
  then have "sint (?a - ?b) = int (unat ?a) - int (unat ?b)"
    using sint [OF small(1)] sint [OF small(2)] by (simp add: neg del: of_nat_unat)
  then show ?thesis by (simp add: id_less_def response_id_def del: of_nat_unat)
qed

lemma insert_by_id_insort:
  "small_id x \<Longrightarrow> list_all small_id xs \<Longrightarrow> insert_by_id x xs = insort_key response_id x xs"
  by (induction xs) (auto simp: id_less_iff)

lemma sort_by_id_sorts:
  assumes "list_all small_id rs"
  shows "sort_by_id rs = Ret (sort_key response_id rs)"
proof -
  have "foldr insert_by_id rs [] = sort_key response_id rs"
    using assms
  proof (induction rs)
    case (Cons r rs)
    then have "list_all small_id (sort_key response_id rs)" by (simp add: list_all_iff)
    with Cons show ?case by (simp add: insert_by_id_insort)
  qed simp
  moreover have "list_all has_id rs" using assms by (simp add: list_all_iff small_id_def)
  ultimately show ?thesis by (simp add: sort_by_id_def)
qed

lemma chunkedNativeBatchCall_sorts:
  assumes ans: "answers_batches c J ans" and J: "J n" and reqs: "reqs \<noteq> []"
    and small: "\<forall>b \<in> set (chunks_of NativeBatchCallSize reqs). list_all small_id (batch_result (ans b))"
  shows "\<exists>rs n'. chunkedNativeBatchCall c reqs n = (Ret (Inr rs), n') \<and> sorted (map response_id rs) \<and>
    mset rs = mset (concat (map (\<lambda>b. batch_result (ans b)) (chunks_of NativeBatchCallSize reqs)))"
proof -
  let ?bs = "chunks_of NativeBatchCallSize reqs"
  let ?is = "completion_order (length ?bs) (ec_schedule c n)"
  have bs: "batch_loop NativeBatchCallSize reqs 0 = ?bs"
    using batch_loop_eq [of NativeBatchCallSize 0 reqs] reqs by (simp add: NativeBatchCallSize_def)
  obtain rss n' where rss: "native_batches c ?bs ?is n = (Ret rss, n')"
    "concat rss = concat (map (\<lambda>i. batch_result (ans (?bs ! i))) ?is)"
    using native_batches_answers [OF ans J] by blast
  have "mset (map (\<lambda>i. batch_result (ans (?bs ! i))) ?is) =
      mset (map (\<lambda>i. batch_result (ans (?bs ! i))) [0..<length ?bs])"
    by (rule mset_map_completion_order)
  also have "map (\<lambda>i. batch_result (ans (?bs ! i))) [0..<length ?bs] = map (\<lambda>b. batch_result (ans b)) ?bs"
    by (rule nth_equalityI) simp_all
  finally have perm: "mset (concat rss) = mset (concat (map (\<lambda>b. batch_result (ans b)) ?bs))"
    unfolding rss(2) by (rule mset_concat_cong)
  then have "set (concat rss) = (\<Union>b \<in> set ?bs. set (batch_result (ans b)))"
    by (metis mset_eq_setD set_concat set_map image_image)
  with small have "list_all small_id (concat rss)" by (auto simp: list_all_iff)
  from sort_by_id_sorts [OF this] rss(1) reqs perm show ?thesis
    by (simp add: chunkedNativeBatchCall_def bs Let_def)
qed

section \<open>How the client presents a node\<close>

text \<open>The message in which a node answers with a result.\<close>

definition rpc_result :: "json \<Rightarrow> json" where
  "rpc_result res = JObj [(''jsonrpc'', JStr ''2.0''), (''id'', JNum ''1''), (''result'', res)]"

text \<open>In any state of \<open>J\<close> the node answers a request with a result, promptly.\<close>

definition node_answers :: "'n EthereumClient \<Rightarrow> ('n \<Rightarrow> bool) \<Rightarrow> RPCRequest \<Rightarrow> json \<Rightarrow> bool" where
  "node_answers c J req res \<longleftrightarrow>
     (\<forall>n t. J n \<longrightarrow> (\<exists>n'. ec_Do c (ecc_BaseUrl (ec_config c)) t (marshal_request req) n =
        (HttpResponse 200 \<lparr>body_brace = True, body_json = Some (rpc_result res)\<rparr> False, n') \<and> J n'))"

lemma decode_rpc_message:
  "decode_response (JObj [(''jsonrpc'', JStr ''2.0''), (''id'', json_uint i), (''result'', res)]) =
     Inr \<lparr>rs_JSONRPC = ''2.0'', rs_ID = Some i, rs_Result = Some res, rs_Error = None\<rparr>"
proof -
  have fold: "\<not> EqualFold ''jsonrpc'' ''id''" "\<not> EqualFold ''jsonrpc'' ''result''"
    "\<not> EqualFold ''id'' ''result''" by code_simp+
  have "unmarshal_uint64 (json_uint i) = Inr i" unfolding json_uint_def by (rule uint_decode)
  with fold show ?thesis
    by (simp add: decode_response_def decode_struct_def response_fields_def json_uint_def
        zero_response_def field_def string_field_def decode_ptr_def)
qed

lemma decode_rpc_result:
  "decode_response (rpc_result res) =
     Inr \<lparr>rs_JSONRPC = ''2.0'', rs_ID = Some 1, rs_Result = Some res, rs_Error = None\<rparr>"
proof -
  have "json_uint 1 = JNum ''1''"
    by (simp add: json_uint_def show_nat.simps digit_char_def char_of_def bit_iff_odd)
  with decode_rpc_message [of 1 res] show ?thesis by (simp add: rpc_result_def)
qed

lemma query_answered:
  assumes "node_answers c J req res" "J n"
  obtains n' where "query c req h n = (rh_ResponseParser h (Some res), n')" "J n'"
proof -
  obtain n' where "ec_Do c (ecc_BaseUrl (ec_config c)) (rm_Timeout (rh_RequestMethod RPCMethod_GetBlock))
      (marshal_request req) n =
      (HttpResponse 200 \<lparr>body_brace = True, body_json = Some (rpc_result res)\<rparr> False, n')" "J n'"
    using assms unfolding node_answers_def by blast
  then have "Call c req n =
      (Inr \<lparr>rs_JSONRPC = ''2.0'', rs_ID = Some 1, rs_Result = Some res, rs_Error = None\<rparr>, 0, n')"
    by (simp add: Call_def backoffs_def call_def unmarshal_raw_def decode_rpc_result)
  with \<open>J n'\<close> that show thesis by (simp add: query_def)
qed

text \<open>
  A node with the head \<open>m\<close>, the blocks of \<open>chain\<close> and the logs \<open>logs\<close>, in whatever JSON decodes to
  them.
\<close>

definition head_request :: "'n EthereumClient \<Rightarrow> RPCRequest" where
  "head_request c =
     (case ecc_BlockType (ec_config c) of
        BlockType_Safe \<Rightarrow> GetSafeBlockRequest (ec_hexutil c) 1
      | BlockType_Finalized \<Rightarrow> GetFinalizedBlockRequest (ec_hexutil c) 1
      | _ \<Rightarrow> GetLatestBlockRequest (ec_hexutil c) 1)"

definition node_serves ::
  "'n EthereumClient \<Rightarrow> ('n \<Rightarrow> bool) \<Rightarrow> (uint64 \<Rightarrow> EthereumBlock)
     \<Rightarrow> (uint64 \<Rightarrow> EthereumEventLog option list) \<Rightarrow> uint64 \<Rightarrow> bool" where
  "node_serves c J chain logs m \<longleftrightarrow>
     (let hx = ec_hexutil c in
      (\<exists>j. node_answers c J (head_request c) j \<and> decode_block hx j = Inr (chain m)) \<and>
      (\<forall>n. 0 < n \<longrightarrow> n \<le> m \<longrightarrow>
         (\<exists>j. node_answers c J (GetBlockByNumberRequest hx n 1) j \<and> decode_block hx j = Inr (chain n))) \<and>
      (\<forall>addrs n. addrs \<noteq> [] \<longrightarrow>
         (\<exists>j. node_answers c J (GetLogsForAddressesRequest hx addrs n n 1) j \<and>
              decode_slice (decode_ptr (decode_log hx)) j =
                Inr (filter (\<lambda>l. log_address l \<in> set addrs) (logs n)))) \<and>
      (\<forall>n. eb_Number (chain n) = n))"

lemma client_presents_node:
  assumes "node_serves c J chain logs m"
  shows "serves_blocks (ethereum_client c) J chain m"
    and "J n \<Longrightarrow> \<exists>n'. GetLatestBlock (ethereum_client c) n = (Inr m, n') \<and> J n'"
    and "serves_logs (ethereum_client c) J k (logs k)"
proof -
  note node = assms [unfolded node_serves_def Let_def]
  have "\<exists>n'. GetBlockByNumber (ethereum_client c) i n = (Inr (Some (chain i)), n') \<and> J n'"
    if n: "J n" and i: "0 < i" "i \<le> m" for i n
  proof -
    obtain j where j: "node_answers c J (GetBlockByNumberRequest (ec_hexutil c) i 1) j"
      "decode_block (ec_hexutil c) j = Inr (chain i)" using node i by blast
    show ?thesis
      by (rule query_answered [OF j(1) n, of "RPCMethod_getBlockByNumber (ec_hexutil c)"])
        (simp add: ethereum_client_def Client_GetBlockByNumber_def RPCMethod_getBlockByNumber_def
          unmarshal_raw_def j(2))
  qed
  with node show "serves_blocks (ethereum_client c) J chain m" by (simp add: serves_blocks_def)
  show "\<exists>n'. GetLatestBlock (ethereum_client c) n = (Inr m, n') \<and> J n'" if n: "J n"
  proof -
    obtain j where j: "node_answers c J (head_request c) j"
      "decode_block (ec_hexutil c) j = Inr (chain m)" "eb_Number (chain m) = m" using node by blast
    show ?thesis
      by (rule query_answered [OF j(1) n, of "RPCMethod_getBlockByNumber (ec_hexutil c)"])
        (simp add: ethereum_client_def Client_GetLatestBlock_def Let_def RPCMethod_getBlockByNumber_def
          unmarshal_raw_def j(2,3) flip: head_request_def)
  qed
  have "\<exists>n'. GetLogsForAddresses (ethereum_client c) addrs k k n =
      (Inr (filter (\<lambda>l. log_address l \<in> set addrs) (logs k)), n') \<and> J n'" if n: "J n" for addrs n
  proof (cases "addrs = []")
    case True
    with n show ?thesis by (simp add: ethereum_client_def Client_GetLogsForAddresses_def)
  next
    case False
    then obtain j where j: "node_answers c J (GetLogsForAddressesRequest (ec_hexutil c) addrs k k 1) j"
      "decode_slice (decode_ptr (decode_log (ec_hexutil c))) j =
        Inr (filter (\<lambda>l. log_address l \<in> set addrs) (logs k))" using node by blast
    show ?thesis
      by (rule query_answered [OF j(1) n, of "RPCMethod_getLogs (ec_hexutil c)"])
        (simp add: ethereum_client_def Client_GetLogsForAddresses_def RPCMethod_getLogs_def
          unmarshal_raw_def False j(2))
  qed
  then show "serves_logs (ethereum_client c) J k (logs k)" by (simp add: serves_logs_def)
qed

text \<open>A block that the node does not know, a null result, comes out as the zero block.\<close>

lemma GetBlockByNumber_null:
  assumes "node_answers c J (GetBlockByNumberRequest (ec_hexutil c) k 1) JNull" "J n"
  shows "\<exists>n'. GetBlockByNumber (ethereum_client c) k n = (Inr (Some zero_block), n') \<and> J n'"
  by (rule query_answered [OF assms, of "RPCMethod_getBlockByNumber (ec_hexutil c)"])
    (simp add: ethereum_client_def Client_GetBlockByNumber_def RPCMethod_getBlockByNumber_def
      unmarshal_raw_def decode_block_def decode_struct_def)

section \<open>Listening for heads\<close>

definition heads :: "'h listen_event list \<Rightarrow> 'h list" where
  "heads evs = [h. NewHead h \<leftarrow> evs]"

lemma listen_loop_eq:
  "listen_loop recv evs e =
     (if Quit \<in> set evs
      then Some (None, ChannelClosed, fold (\<lambda>h e. snd (recv h e)) (heads (takeWhile (\<lambda>v. v \<noteq> Quit) evs)) e)
      else None)"
  by (induction recv evs e rule: listen_loop.induct) (auto simp: heads_def)

section \<open>Properties\<close>

text \<open>
  Example clients: the network state counts the posts; one answers every post with a null
  result, the other fails the first two posts.
\<close>

definition null_response :: http_result where
  "null_response = HttpResponse 200 \<lparr>body_brace = True, body_json = Some (rpc_result JNull)\<rparr> False"

definition null_client :: "nat EthereumClient" where
  "null_client = \<lparr>ec_Do = (\<lambda>url t body n. (null_response, Suc n)),
     ec_config = \<lparr>ecc_BaseUrl = ''u'', ecc_BlockType = BlockType_Latest\<rparr>,
     ec_hexutil = sample_hexutil, ec_schedule = (\<lambda>n. [])\<rparr>"

definition flaky_client :: "nat EthereumClient" where
  "flaky_client = null_client\<lparr>ec_Do := (\<lambda>url t body n. (if n < 2 then HttpFailed else null_response, Suc n))\<rparr>"

definition null_rpc :: RPCResponse where
  "null_rpc = \<lparr>rs_JSONRPC = ''2.0'', rs_ID = Some 1, rs_Result = Some JNull, rs_Error = None\<rparr>"

text \<open>One that answers every batch of requests with two responses, in the wrong order.\<close>

definition pair_client :: "nat EthereumClient" where
  "pair_client = null_client\<lparr>ec_Do := (\<lambda>url t body n.
     (HttpResponse 200 \<lparr>body_brace = False, body_json = Some (JArr
        [JObj [(''jsonrpc'', JStr ''2.0''), (''id'', json_uint 2), (''result'', JNull)], rpc_result JNull])\<rparr> False,
      Suc n))\<rparr>"

lemma null_call: "call null_client r n = (Inr null_rpc, Suc n)"
  by (simp add: call_def null_client_def null_response_def unmarshal_raw_def decode_rpc_result null_rpc_def)

lemma flaky_call: "call flaky_client r n =
    (if n < 2 then Inl (Errorf ''request failed %s'' None) else Inr null_rpc, Suc n)"
  by (simp add: call_def flaky_client_def null_client_def null_response_def unmarshal_raw_def
      decode_rpc_result null_rpc_def)

lemma flaky_after: "after_attempts flaky_client r i n = n + i"
  by (induction i arbitrary: n) (simp_all add: after_attempts_Suc flaky_call)

lemma pair_answers: "answers_batches pair_client (\<lambda>_. True)
    (\<lambda>b. if b = [] then Inr [] else Inr [Some (null_rpc\<lparr>rs_ID := Some 2\<rparr>), Some null_rpc])"
proof -
  have "decode_ptr decode_response (rpc_result JNull) = Inr (Some null_rpc)"
    unfolding decode_ptr_def decode_rpc_result null_rpc_def by (simp add: rpc_result_def)
  then show ?thesis
    by (simp add: answers_batches_def batchCall_def pair_client_def null_client_def unmarshal_raw_def
        decode_slice_def decode_ptr_def decode_rpc_message null_rpc_def)
qed

text \<open>
  C22. Retrying. \<^verbatim>\<open>Call\<close> returns the response of the first attempt that succeeds, among at most
  seven, after sleeping the back-offs of the failed ones before it, and no attempt follows; when all seven
  fail it returns an error, having slept 129 seconds, the last minute of them after the last attempt.
\<close>

theorem call_retries:
  assumes "\<And>i. i < j \<Longrightarrow> attempt_fails c r i n"
    and "j < 7 \<Longrightarrow> call c r (after_attempts c r j n) = (Inr res, n')" and "j \<le> 7"
  shows "Call c r n =
    (if j < 7 then (Inr res, sum_list (take j [1, 3, 5, 10, 20, 30, 60]), n')
     else (Inl (Errorf ''exceeded retries for Call'' None), 129, after_attempts c r 7 n))"
proof (cases "j < 7")
  case True
  with Call_loop_succeeds [OF assms(1), of j backoffs res n'] assms(2) show ?thesis
    by (simp add: Call_def backoffs_def)
next
  case False
  with assms(3) have "j = 7" by simp
  moreover have "length backoffs = 7" "sum_list backoffs = 129" by (simp_all add: backoffs_def)
  ultimately show ?thesis using Call_loop_exhausted [of backoffs c r n] assms(1) by (simp add: Call_def)
qed

theorem call_retries_witness:
  "Call flaky_client (GetBlockRequest 1) 0 = (Inr null_rpc, 4, 3)"
  using call_retries [of 2 flaky_client "GetBlockRequest 1" 0 null_rpc 3]
  by (simp add: attempt_fails_def flaky_after flaky_call numeral_2_eq_2)

text \<open>
  C23. Batches. When every request has a fixed outcome, \<^verbatim>\<open>BatchCall\<close> returns one entry per request
  in the order of the requests, whatever the order in which the concurrent calls complete: the response
  when the call succeeded, nil when it failed. It never returns an error.
\<close>

theorem batch_call_in_order:
  assumes "answers c J ans" and "J n"
  shows "\<exists>n'. BatchCall c reqs n =
    (Inr (map (\<lambda>r. case ans r of Inl _ \<Rightarrow> None | Inr res \<Rightarrow> Some res) reqs), n')"
  using chunkedBatchCall_answers [OF assms, of reqs]
  by (auto simp: BatchCall_def response_of_def)

theorem batch_call_in_order_witness:
  "\<exists>n'. BatchCall null_client [GetBlockRequest 1, GetBlockRequest 2] 0 = (Inr [Some null_rpc, Some null_rpc], n')"
proof -
  have "answers null_client (\<lambda>_. True) (\<lambda>r. Inr null_rpc)"
    by (simp add: answers_def Call_def backoffs_def null_call)
  from batch_call_in_order [OF this TrueI, of "[GetBlockRequest 1, GetBlockRequest 2]" 0] show ?thesis by simp
qed

text \<open>
  C34. An unknown block. When the node answers a request for a block with a null result, which is how it
  answers for a block it does not have, \<^verbatim>\<open>GetBlockByNumber\<close> returns the zero block, number 0, without
  an error.
\<close>

theorem unknown_block_is_zero:
  assumes "node_answers c J (GetBlockByNumberRequest (ec_hexutil c) k 1) JNull" and "J n"
  shows "\<exists>n'. Client_GetBlockByNumber c k n = (Inr (Some zero_block), n')"
  using GetBlockByNumber_null [OF assms] by (auto simp: ethereum_client_def)

theorem unknown_block_is_zero_witness:
  "\<exists>n'. Client_GetBlockByNumber null_client 7 0 = (Inr (Some zero_block), n')"
  by (rule unknown_block_is_zero [where J = "\<lambda>_. True"])
    (simp_all add: node_answers_def null_client_def null_response_def)

text \<open>
  The timeout of a call. Every call is made under a timeout of five seconds: replacing the transport
  under any other timeout changes nothing; in particular calls of \<^verbatim>\<open>eth_getLogs\<close>, whose handler
  declares thirty seconds, are cut off after five.
\<close>

lemma call_timeout:
  "call c r n = call (c\<lparr>ec_Do := (\<lambda>url t body n.
       if t = 5000000000 then ec_Do c url t body n else other url t body n)\<rparr>) r n \<and>
   rm_Timeout (rh_RequestMethod (RPCMethod_getLogs hx)) = 30000000000"
  by (simp add: call_def RPCMethod_GetBlock_def RPCMethod_getLogs_def time_Second_def)

text \<open>
  C36. Native batches. When every native batch call has a fixed outcome and the responses carry numbers
  below \<open>2 ^ 63\<close>, \<^verbatim>\<open>chunkedNativeBatchCall\<close> returns, whatever the order in which the batches of
  a hundred requests complete, the responses of the batches that were answered, each once, in ascending
  order of their numbers; those of a failed batch are missing without an error.
\<close>

theorem native_batches_sorted:
  assumes "answers_batches c J ans" and "J n" and "reqs \<noteq> []"
    and "\<forall>b \<in> set (chunks_of 100 reqs). list_all small_id (batch_result (ans b))"
  shows "\<exists>rs n'. chunkedNativeBatchCall c reqs n = (Ret (Inr rs), n') \<and> sorted (map response_id rs) \<and>
    mset rs = mset (concat (map (\<lambda>b. case ans b of Inl _ \<Rightarrow> [] | Inr res \<Rightarrow> res) (chunks_of 100 reqs)))"
  using chunkedNativeBatchCall_sorts [OF assms(1-3)] assms(4)
  by (simp add: NativeBatchCallSize_def batch_result_def)

theorem native_batches_sorted_witness:
  "\<exists>rs n'. chunkedNativeBatchCall pair_client [GetBlockRequest 1, GetBlockRequest 2] 0 = (Ret (Inr rs), n') \<and>
    mset rs = {#Some (null_rpc\<lparr>rs_ID := Some 2\<rparr>), Some null_rpc#}"
  using native_batches_sorted [OF pair_answers, where n = 0 and reqs = "[GetBlockRequest 1, GetBlockRequest 2]"]
  by (auto simp: small_id_def has_id_def response_id_def null_rpc_def chunks_of.simps batch_result_def)

text \<open>
  C35. Listening for heads. Once subscribed, \<^verbatim>\<open>ListenForNewBlocks\<close> returns exactly when the quit signal comes,
  without an error and with the channel of heads closed, and has then called the handler for each head that
  came before it, once and in order, whatever errors the handler and the subscription gave; without a quit signal it never returns, not
  even when the subscription has failed for good.
\<close>

theorem listen_for_new_blocks:
  "ListenForNewBlocks None evs recv e =
     (if Quit \<in> set evs
      then Some (None, ChannelClosed, fold (\<lambda>h e. snd (recv h e)) (heads (takeWhile (\<lambda>v. v \<noteq> Quit) evs)) e)
      else None)"
  by (simp add: ListenForNewBlocks_def listen_loop_eq)

text \<open>
  Error payloads of batches. A native batch call whose response is a JSON object with an error
  fails with an error, unless the message is the one for an empty batch, which gives no responses; an
  object without an error member makes the client panic.
\<close>

lemma batch_error_payload:
  assumes "reqs \<noteq> []"
    and "ec_Do c (ecc_BaseUrl (ec_config c)) (time_Second * 20) (JArr (map marshal_request reqs)) n =
      (HttpResponse 200 \<lparr>body_brace = True, body_json = Some j\<rparr> False, n')"
    and "decode_response j = Inr resp"
  shows "batchCall c reqs n =
    (case rs_Error resp of
       None \<Rightarrow> Panic nil_dereference
     | Some err \<Rightarrow>
         if re_Message err = ''empty batch'' then Ret (Inr [])
         else Ret (Inl (Errorf ''error payload returned from batch call: %s'' None)), n')"
  using assms by (auto simp: batchCall_def unmarshal_raw_def split: option.split)

lemma batch_error_payload_witness:
  "batchCall null_client [GetBlockRequest 1] 0 = (Panic nil_dereference, 1)"
  using batch_error_payload [of "[GetBlockRequest 1]" null_client 0 "rpc_result JNull" 1 null_rpc]
  by (simp add: null_client_def null_response_def decode_rpc_result null_rpc_def)

end
