(* ===== verification/Sample.thy ===== *)
theory Sample
  imports Poller_Invariant Poller_Progress Poller_Isolation Client_Laws
begin

text \<open>
  Concrete instances at which the properties are applied: a short chain whose hashes are the block
  numbers, a node that serves it, a poller on the in-memory store, store states before a tick and
  before a reorganisation, and a node behind HTTP.
\<close>

section \<open>A chain and a poller\<close>

definition sample_hash :: "uint64 \<Rightarrow> string" where
  "sample_hash n = CHR ''h'' # show_nat (unat n)"

definition sample_block :: "uint64 \<Rightarrow> EthereumBlock" where
  "sample_block n = zero_block\<lparr>eb_Hash := sample_hash n, eb_ParentHash := sample_hash (n - 1),
     eb_Number := n\<rparr>"

definition sample_logs :: "uint64 \<Rightarrow> EthereumEventLog option list" where
  "sample_logs n = [Some (zero_log\<lparr>el_Address := ''0xaa''\<rparr>), Some (zero_log\<lparr>el_Address := ''0xbb''\<rparr>)]"

definition sample_client :: "uint64 \<Rightarrow> 'e Client" where
  "sample_client m =
     \<lparr>GetLatestBlock = (\<lambda>e. (Inr m, e)),
      GetBlockByNumber = (\<lambda>n e. (Inr (Some (sample_block n)), e)),
      GetLogs = (\<lambda>a f t e. (Inr [], e)),
      GetLogsForAddresses = (\<lambda>as f t e.
        (Inr (filter (\<lambda>l. log_address l \<in> set as) (sample_logs f)), e))\<rparr>"

definition sample_config :: EVMChainPollerConfig where
  "sample_config =
     \<lparr>cfg_ChainId = 1, cfg_PollingInterval = 1, cfg_InterestingContracts = [''0xAA'', []],
      cfg_AvsAddress = [], cfg_GenesisBlockNumber = 1, cfg_MaxReorgDepth = 3,
      cfg_BlockHistorySize = 2, cfg_ReorgCheckEnabled = True,
      cfg_MaxAddressesPerLogsRequest = 1000, cfg_LogsFetchTimeout = 0\<rparr>"

definition poller_with ::
  "'e IBlockHandler \<Rightarrow> uint64 \<Rightarrow> (InMemoryChainPollerPersistence, 'e) EVMChainPoller" where
  "poller_with h m =
     \<lparr>ecp_ethClient = sample_client m,
      ecp_logParser = \<lparr>ParseLog = (\<lambda>l e. (Ret (None, None), e))\<rparr>,
      ecp_config = sample_config, ecp_store = memory_persistence, ecp_blockHandler = h,
      ecp_contractRegistry = None, ecp_schedule = (\<lambda>e. [])\<rparr>"

definition sample_poller :: "uint64 \<Rightarrow> (InMemoryChainPollerPersistence, unit) EVMChainPoller" where
  "sample_poller =
     poller_with \<lparr>HandleBlock = (\<lambda>b e. (None, e)), HandleLog = (\<lambda>l e. (None, e)),
       HandleReorgBlock = (\<lambda>n e. e)\<rparr>"

text \<open>A handler whose environment tells whether it accepts logs now.\<close>

definition flaky_poller :: "uint64 \<Rightarrow> (InMemoryChainPollerPersistence, bool) EVMChainPoller" where
  "flaky_poller =
     poller_with \<lparr>HandleBlock = (\<lambda>b e. (None, e)),
       HandleLog = (\<lambda>l e. (if e then None else Some (Errorf ''busy'' None), e)),
       HandleReorgBlock = (\<lambda>n e. e)\<rparr>"

lemma poller_with_simps [simp]:
  "ecp_store (poller_with h m) = memory_persistence"
  "ecp_ethClient (poller_with h m) = sample_client m"
  "cfg_ChainId (ecp_config (poller_with h m)) = 1"
  "cfg_BlockHistorySize (ecp_config (poller_with h m)) = 2"
  "cfg_MaxReorgDepth (ecp_config (poller_with h m)) = 3"
  "cfg_MaxAddressesPerLogsRequest (ecp_config (poller_with h m)) = 1000"
  by (simp_all add: poller_with_def sample_config_def)

lemma sample_poller_simps [simp]:
  "ecp_store (sample_poller m) = memory_persistence"
  "ecp_ethClient (sample_poller m) = sample_client m"
  "cfg_ChainId (ecp_config (sample_poller m)) = 1"
  "cfg_BlockHistorySize (ecp_config (sample_poller m)) = 2"
  "cfg_MaxReorgDepth (ecp_config (sample_poller m)) = 3"
  "cfg_MaxAddressesPerLogsRequest (ecp_config (sample_poller m)) = 1000"
  by (simp_all add: sample_poller_def)

lemma flaky_poller_simps [simp]:
  "ecp_store (flaky_poller m) = memory_persistence"
  "ecp_ethClient (flaky_poller m) = sample_client m"
  "cfg_ChainId (ecp_config (flaky_poller m)) = 1"
  "cfg_BlockHistorySize (ecp_config (flaky_poller m)) = 2"
  by (simp_all add: flaky_poller_def)

lemma sample_ticks [simp]:
  "0 < sint (cfg_PollingInterval (ecp_config (poller_with h m)))"
  "0 < sint (cfg_PollingInterval (ecp_config (sample_poller m)))"
  "0 < sint (cfg_PollingInterval (ecp_config (flaky_poller m)))"
  by (simp_all add: sample_poller_def flaky_poller_def) (simp_all add: poller_with_def sample_config_def)

lemma sample_block_simps [simp]:
  "eb_Number (sample_block n) = n" "eb_Hash (sample_block n) = sample_hash n"
  "eb_ParentHash (sample_block n) = sample_hash (n - 1)" "eb_ChainId (sample_block n) = 0"
  by (simp_all add: sample_block_def zero_block_def)

lemma poller_contracts [simp]: "listAllInterestingContracts (poller_with h m) e = [''0xaa'']"
  by (simp add: listAllInterestingContracts_def poller_with_def sample_config_def add_unseen_def
      ToLower_def lower_char_def Let_def char_of_def bit_iff_odd)

lemma poller_watched: "watched (poller_with h m) e = {''0xaa''}"
  using set_listAllInterestingContracts [of "poller_with h m" e] by simp

lemma poller_request_size: "request_size_ok (poller_with h m) e"
  by (simp add: request_size_ok_def effective_chunk_size_def)

lemma sample_serves: "serves_blocks (sample_client m) J sample_block k"
  by (simp add: serves_blocks_def sample_client_def)

lemma sample_serves_logs: "serves_logs (sample_client m) J n (sample_logs n)"
  by (simp add: serves_logs_def sample_client_def)

lemma poller_healthy:
  assumes "\<And>e b. J e \<Longrightarrow> HandleBlock h b e = (None, e)" "\<And>e l. J e \<Longrightarrow> HandleLog h l e = (None, e)"
    and "\<And>e n. HandleReorgBlock h n e = e"
  shows "healthy (poller_with h m) J sample_block sample_logs (\<lambda>_. None) {''0xaa''} m"
  unfolding healthy_def works_def
  by (simp add: sample_serves sample_serves_logs poller_watched poller_request_size)
    (simp add: poller_with_def sample_client_def assms)

lemma sample_contracts [simp]: "listAllInterestingContracts (sample_poller m) e = [''0xaa'']"
  by (simp add: sample_poller_def)

lemma sample_watched: "watched (sample_poller m) e = {''0xaa''}"
  by (simp add: sample_poller_def poller_watched)

lemma sample_request_size: "request_size_ok (sample_poller m) e"
  by (simp add: sample_poller_def poller_request_size)

lemma sample_healthy:
  "healthy (sample_poller m) (\<lambda>_. True) sample_block sample_logs (\<lambda>_. None) {''0xaa''} m"
  unfolding sample_poller_def by (rule poller_healthy) simp_all

lemma flaky_healthy:
  "healthy (flaky_poller m) (\<lambda>e. e) sample_block sample_logs (\<lambda>_. None) {''0xaa''} m"
  unfolding flaky_poller_def by (rule poller_healthy) simp_all

lemma sample_truthful: "truthful (sample_client m) sample_block"
  by (simp add: truthful_def sample_client_def)

lemma sample_linked: "linked_from sample_block k"
  by (simp add: linked_from_def)

lemma sample_numbered: "numbered_client (ecp_ethClient (sample_poller m)) 1"
  by (simp add: numbered_client_def sample_client_def)

section \<open>Store states\<close>

text \<open>A store after saving records, and a world around it.\<close>

definition saved :: "BlockRecord list \<Rightarrow> InMemoryChainPollerPersistence" where
  "saved rs = fold (\<lambda>r s. snd (Memory_SaveBlock (Some r) s)) rs NewInMemoryChainPollerPersistence"

definition sample_world :: "InMemoryChainPollerPersistence \<Rightarrow> (InMemoryChainPollerPersistence, unit) world" where
  "sample_world s = \<lparr>w_store = s, w_env = (), w_calls = []\<rparr>"

lemma sample_world_simps [simp]: "w_store (sample_world s) = s" "w_calls (sample_world s) = []"
  by (simp_all add: sample_world_def)

lemma saved_facts:
  "mem_opened (saved rs)"
  "mem_stored (saved (rs @ [r])) c n =
     (if c = br_ChainId r \<and> n = br_Number r then Some r else mem_stored (saved rs) c n)"
  "mem_stored (saved []) c n = None"
  "mem_cursor (saved (rs @ [r])) c = (if c = br_ChainId r then Some (br_Number r) else mem_cursor (saved rs) c)"
  "mem_cursor (saved []) c = None"
proof -
  show op: "mem_opened (saved rs)" for rs
  proof (induction rs rule: rev_induct)
    case Nil
    then show ?case by (simp add: saved_def NewInMemoryChainPollerPersistence_def mem_opened_def)
  next
    case (snoc r rs)
    then show ?case by (simp add: saved_def memory_defs)
  qed
  show "mem_stored (saved (rs @ [r])) c n =
     (if c = br_ChainId r \<and> n = br_Number r then Some r else mem_stored (saved rs) c n)"
    "mem_cursor (saved (rs @ [r])) c = (if c = br_ChainId r then Some (br_Number r) else mem_cursor (saved rs) c)"
    using op [of rs] by (simp_all add: saved_def memory_defs)
  show "mem_stored (saved []) c n = None" "mem_cursor (saved []) c = None"
    by (simp_all add: saved_def memory_defs NewInMemoryChainPollerPersistence_def)
qed

text \<open>The canonical record of a block, and the record of a block on an abandoned fork.\<close>

definition canon :: "uint64 \<Rightarrow> BlockRecord" where
  "canon n = record_of (sample_block n) 1"

definition stale :: "uint64 \<Rightarrow> BlockRecord" where
  "stale n = (canon n)\<lparr>br_Hash := CHR ''o'' # sample_hash n\<rparr>"

lemma record_simps [simp]:
  "br_Number (canon n) = n" "br_ChainId (canon n) = 1" "br_Hash (canon n) = sample_hash n"
  "br_Number (stale n) = n" "br_ChainId (stale n) = 1" "br_Hash (stale n) = CHR ''o'' # sample_hash n"
  by (simp_all add: canon_def stale_def record_of_def)

lemma stale_differs: "br_Hash (stale n) \<noteq> sample_hash i"
  by (simp add: sample_hash_def)

text \<open>Two blocks done; and a fork at block 1 that reaches up to block 3.\<close>

definition two_done :: InMemoryChainPollerPersistence where
  "two_done = saved [canon 1, canon 2]"

definition fork_store :: InMemoryChainPollerPersistence where
  "fork_store = saved [canon 1, stale 2, stale 3]"

lemma two_done_facts [simp]:
  "mem_opened two_done" "mem_cursor two_done 1 = Some 2"
  "mem_stored two_done 1 n = (if n = 2 then Some (canon 2) else if n = 1 then Some (canon 1) else None)"
  using saved_facts(2,4) [of "[canon 1]" "canon 2"] saved_facts(2) [of "[]" "canon 1"]
  by (simp_all add: two_done_def saved_facts)

lemma fork_store_facts [simp]:
  "mem_opened fork_store" "mem_cursor fork_store 1 = Some 3"
  "mem_stored fork_store 1 n = (if n = 3 then Some (stale 3) else if n = 2 then Some (stale 2)
     else if n = 1 then Some (canon 1) else None)"
  using saved_facts(2,4) [of "[canon 1, stale 2]" "stale 3"] saved_facts(2) [of "[canon 1]" "stale 2"]
    saved_facts(2) [of "[]" "canon 1"]
  by (simp_all add: fork_store_def saved_facts)

lemma between_1_3: "(1 :: uint64) < i \<and> i \<le> 3 \<longleftrightarrow> i = 2 \<or> i = 3"
proof
  assume "1 < i \<and> i \<le> 3"
  then have "unat i = 2 \<or> unat i = 3" by (auto simp: word_less_nat_alt word_le_nat_alt)
  then show "i = 2 \<or> i = 3" by (auto simp: word_unat_eq_iff)
qed auto

lemma records_wf_saved:
  "records_wf mem_stored (saved rs)"
proof (induction rs rule: rev_induct)
  case Nil
  then show ?case by (simp add: records_wf_def saved_facts)
next
  case (snoc r rs)
  then show ?case by (auto simp: records_wf_def saved_facts(2) split: if_splits)
qed

lemma records_wf_fork_store [simp]: "records_wf mem_stored fork_store"
  by (simp add: fork_store_def records_wf_saved)

lemma fork_store_orphans:
  "1 < i \<Longrightarrow> i \<le> 3 \<Longrightarrow> \<exists>r. mem_stored (w_store (sample_world fork_store))
     (cfg_ChainId (ecp_config (sample_poller m))) i = Some r \<and> br_Hash r \<noteq> eb_Hash (sample_block i)"
  using between_1_3 [of i] stale_differs by auto

text \<open>A fork that reaches below the depth limit of 3, and one whose ancestor has no record.\<close>

definition deep_store :: InMemoryChainPollerPersistence where
  "deep_store = saved [stale 2, stale 3, stale 4]"

definition gap_store :: InMemoryChainPollerPersistence where
  "gap_store = saved [stale 2, stale 3]"

lemma deep_store_facts [simp]:
  "mem_opened deep_store" "mem_cursor deep_store 1 = Some 4" "records_wf mem_stored deep_store"
  "mem_stored deep_store 1 n = (if n = 4 then Some (stale 4) else if n = 3 then Some (stale 3)
     else if n = 2 then Some (stale 2) else None)"
  using saved_facts(2,4) [of "[stale 2, stale 3]" "stale 4"] saved_facts(2) [of "[stale 2]" "stale 3"]
    saved_facts(2) [of "[]" "stale 2"]
  by (simp_all add: deep_store_def saved_facts records_wf_saved)

lemma gap_store_facts [simp]:
  "mem_opened gap_store" "mem_cursor gap_store 1 = Some 3" "records_wf mem_stored gap_store"
  "mem_stored gap_store 1 n = (if n = 3 then Some (stale 3) else if n = 2 then Some (stale 2) else None)"
  using saved_facts(2,4) [of "[stale 2]" "stale 3"] saved_facts(2) [of "[]" "stale 2"]
  by (simp_all add: gap_store_def saved_facts records_wf_saved)

lemma between_1_4: "(1 :: uint64) < i \<and> i \<le> 4 \<longleftrightarrow> i = 2 \<or> i = 3 \<or> i = 4"
proof
  assume "1 < i \<and> i \<le> 4"
  then have "unat i = 2 \<or> unat i = 3 \<or> unat i = 4" by (auto simp: word_less_nat_alt word_le_nat_alt)
  then show "i = 2 \<or> i = 3 \<or> i = 4" by (auto simp: word_unat_eq_iff)
qed auto

lemma deep_store_orphans:
  "1 < i \<Longrightarrow> i \<le> 4 \<Longrightarrow> \<exists>r. mem_stored (w_store (sample_world deep_store))
     (cfg_ChainId (ecp_config (sample_poller m))) i = Some r \<and> br_Hash r \<noteq> eb_Hash (sample_block i)"
  using between_1_4 [of i] stale_differs by auto

lemma gap_store_orphans:
  "1 < i \<Longrightarrow> i \<le> 3 \<Longrightarrow> \<exists>r. mem_stored (w_store (sample_world gap_store))
     (cfg_ChainId (ecp_config (sample_poller m))) i = Some r \<and> br_Hash r \<noteq> eb_Hash (sample_block i)"
  using between_1_3 [of i] stale_differs by auto

section \<open>Starting\<close>

definition one_done :: InMemoryChainPollerPersistence where
  "one_done = saved [canon 1]"

lemma one_done_facts [simp]:
  "mem_opened one_done" "mem_cursor one_done 1 = Some 1"
  "mem_stored one_done 1 n = (if n = 1 then Some (canon 1) else None)"
  using saved_facts(2,4) [of "[]" "canon 1"] by (simp_all add: one_done_def saved_facts)

lemma new_store_facts [simp]:
  "mem_opened NewInMemoryChainPollerPersistence"
  "mem_stored NewInMemoryChainPollerPersistence c = Map.empty"
  by (simp_all add: memory_defs fun_eq_iff NewInMemoryChainPollerPersistence_def)

lemma sample_genesis: "cfg_GenesisBlockNumber (ecp_config (sample_poller m)) = 1"
  by (simp add: sample_poller_def poller_with_def sample_config_def)

lemma sample_start:
  "Start (sample_poller m) (sample_world NewInMemoryChainPollerPersistence) =
     (Ret None, sample_world one_done)"
proof -
  have "Memory_GetLastProcessedBlock 1 NewInMemoryChainPollerPersistence =
      (Inl ErrNotFound, NewInMemoryChainPollerPersistence)"
    "Memory_SaveBlock (Some (canon 1)) NewInMemoryChainPollerPersistence = (None, one_done)"
    by (simp_all add: memory_defs NewInMemoryChainPollerPersistence_def one_done_def saved_def)
  then show ?thesis
    by (simp add: Start_def Let_def sample_genesis memory_persistence_def go_defs sample_client_def
        sample_world_def flip: canon_def)
qed

lemma sample_first_tick:
  obtains w' where "processNextBlock (sample_poller 5) (sample_world one_done) = Some (Ret (), w')"
    "mem_stored (w_store w') 1 4 = Some (canon 4)" "mem_stored (w_store w') 1 5 = Some (canon 5)"
proof -
  obtain w' where w': "processNextBlock (sample_poller 5) (sample_world one_done) = Some (Ret (), w')"
    "mem.indexed (sample_poller 5) sample_block sample_logs (\<lambda>_. None) {''0xaa''} 1 5 (sample_world one_done) w'"
    using mem.processNextBlock_healthy [where k = 1 and r = "canon 1" and w = "sample_world one_done",
        OF sample_poller_simps(1) sample_healthy [of 5]] by auto
  have "mem_stored (w_store w') 1 n = (if pruned 2 1 5 n then None
      else if 1 < n \<and> n \<le> 5 then Some (canon n) else mem_stored one_done 1 n)" for n
    using w'(2) index_history [of sample_block 1 5 2 1]
    by (simp add: mem.indexed_def Let_def canon_def del: one_done_facts(3))
  with w'(1) that show thesis by (simp add: pruned_def)
qed

text \<open>A store that two chains share.\<close>

definition shared_store :: InMemoryChainPollerPersistence where
  "shared_store = saved [(canon 9)\<lparr>br_ChainId := 7\<rparr>, canon 1]"

lemma shared_store_facts [simp]:
  "mem_opened shared_store" "records_wf mem_stored shared_store"
  "mem_cursor shared_store 1 = Some 1" "mem_stored shared_store 1 1 = Some (canon 1)"
  "mem_stored shared_store 7 9 = Some ((canon 9)\<lparr>br_ChainId := 7\<rparr>)"
  using saved_facts(2,4) [of "[(canon 9)\<lparr>br_ChainId := 7\<rparr>]" "canon 1"]
    saved_facts(2) [of "[]" "(canon 9)\<lparr>br_ChainId := 7\<rparr>"]
  by (simp_all add: shared_store_def saved_facts(1) records_wf_saved)

lemma sample_labels: "labels_blocks (sample_client m) {0}"
  by (simp add: labels_blocks_def sample_client_def)

section \<open>A handler that fails for a while\<close>

definition flaky_world :: "(InMemoryChainPollerPersistence, bool) world" where
  "flaky_world = \<lparr>w_store = two_done, w_env = False, w_calls = []\<rparr>"

lemma poller_fetch:
  "fetchLogsForInterestingContractsForBlock (poller_with h m) n e =
     (Ret (Inr [Some (zero_log\<lparr>el_Address := ''0xaa''\<rparr>)]), e)"
proof -
  have "chunkAddresses [''0xaa''] 1000 = Ret [[''0xaa'']]"
    using chunkAddresses_eq [of "[''0xaa'']" 1000]
    by (simp add: effective_chunk_size_def chunks_of.simps)
  moreover have "fetch_batches (sample_client m) n [[''0xaa'']] [0] e =
      ([[Some (zero_log\<lparr>el_Address := ''0xaa''\<rparr>)]], [], e)"
    by (simp add: sample_client_def sample_logs_def log_address_def)
  moreover have "ecp_schedule (poller_with h m) e = []" by (simp add: poller_with_def)
  ultimately show ?thesis
    by (simp add: fetchLogsForInterestingContractsForBlock_def completion_order_def)
qed

text \<open>While the handler refuses logs, a tick hands over the next block and one log, and records nothing.\<close>

lemma flaky_tick:
  "\<exists>l. processNextBlock (flaky_poller 5) flaky_world =
     Some (Ret (), flaky_world\<lparr>w_calls := [CallHandleBlock (sample_block 3), CallHandleLog l]\<rparr>)"
proof -
  let ?l = "Some (zero_log\<lparr>el_Address := ''0xaa''\<rparr>)"
  have "Memory_GetLastProcessedBlock 1 two_done = (Inr (Some (canon 2)), two_done)"
    using mem.last_law [of two_done 1] by (simp add: memory_persistence_def)
  moreover have "collect_blocks 3 5 = Some [3, 4, 5]"
    using collect_blocks_finite [of 5 2] by (simp add: up_def upt_rec)
  moreover have "ecp_logParser (flaky_poller m) = \<lparr>ParseLog = (\<lambda>l e. (Ret (None, None), e))\<rparr>"
    "ecp_blockHandler (flaky_poller m) = \<lparr>HandleBlock = (\<lambda>b e. (None, e)),
       HandleLog = (\<lambda>l e. (if e then None else Some (Errorf ''busy'' None), e)),
       HandleReorgBlock = (\<lambda>n e. e)\<rparr>"
    "fetchLogsForInterestingContractsForBlock (flaky_poller m) n e =
      (Ret (Inr [Some (zero_log\<lparr>el_Address := ''0xaa''\<rparr>)]), e)" for m n e
    by (simp_all add: flaky_poller_def poller_fetch) (simp_all add: poller_with_def)
  ultimately show ?thesis
    by (simp add: processNextBlock_def flaky_world_def memory_persistence_def go_defs call_HandleBlock_def
        call_HandleLog_def processBlockLogs_def sample_client_def Let_def)
qed

section \<open>A node behind HTTP\<close>

text \<open>The results of the node with the head 5, from the params of the request.\<close>

definition sample_result :: "json \<Rightarrow> json" where
  "sample_result body =
     (case body of
        JObj ms \<Rightarrow>
          (case snd (ms ! 2) of
             JArr (JStr s # ps) \<Rightarrow>
               block_json sample_hexutil
                 (sample_block (if s = ''latest'' then 5 else word_of_nat (read_hex (drop 2 s))))
           | JArr (JObj f # ps) \<Rightarrow>
               (case (snd (f ! 0), snd (f ! 1)) of
                  (JArr as, JStr s) \<Rightarrow>
                    JArr (map (json_ptr (log_json sample_hexutil))
                      (filter (\<lambda>l. JStr (log_address l) \<in> set as)
                        (sample_logs (word_of_nat (read_hex (drop 2 s))))))
                | _ \<Rightarrow> JNull)
           | _ \<Rightarrow> JNull)
      | _ \<Rightarrow> JNull)"

definition sample_http :: "unit EthereumClient" where
  "sample_http = \<lparr>ec_Do = (\<lambda>url t body n.
       (HttpResponse 200 \<lparr>body_brace = True, body_json = Some (rpc_result (sample_result body))\<rparr> False, n)),
     ec_config = \<lparr>ecc_BaseUrl = ''u'', ecc_BlockType = BlockType_Latest\<rparr>,
     ec_hexutil = sample_hexutil, ec_schedule = (\<lambda>n. [])\<rparr>"

lemma sample_http_answers: "node_answers sample_http J req (sample_result (marshal_request req))"
  by (simp add: node_answers_def sample_http_def)

lemma lower_append [simp]: "lower (s @ t) \<longleftrightarrow> lower s \<and> lower t"
  by (auto simp: lower_def ToLower_def append_eq_append_conv)

lemma lower_show_nat: "lower (show_nat n)"
proof (induction n rule: show_nat.induct)
  case (1 n)
  have digit: "lower [digit_char d]" if "d < 10" for d
  proof -
    have n: "(of_char (digit_char d) :: nat) = 48 + d" by (rule of_char_digit_char [OF that])
    then have "digit_char d \<noteq> CHR 0x22" "digit_char d \<noteq> CHR 0x5C" using that by auto
    with n that show ?thesis by (simp add: lower_def plain_def ToLower_def lower_char_def Let_def)
  qed
  show ?case
    using 1 digit [of n] digit [of "n mod 10"] by (subst show_nat.simps) simp
qed

lemma lower_texts [simp]: "lower []" "lower ''h''" "lower ''0xaa''" "lower ''0xbb''"
  by code_simp+

lemma sample_wire_block: "wire_block (sample_block n)"
proof -
  have "lower (sample_hash i)" for i
    using lower_append [of "''h''" "show_nat (unat i)"] lower_show_nat by (simp add: sample_hash_def)
  then show ?thesis by (simp add: wire_block_def sample_block_def zero_block_def)
qed

lemma sample_wire_logs: "Some l \<in> set (sample_logs n) \<Longrightarrow> wire_log l"
  by (auto simp: sample_logs_def wire_log_def zero_log_def)

lemma sample_node_serves: "node_serves sample_http (\<lambda>_. True) sample_block sample_logs 5"
proof -
  have hx: "ec_hexutil sample_http = sample_hexutil" by (simp add: sample_http_def)
  have block: "decode_block sample_hexutil (block_json sample_hexutil (sample_block n)) =
      Inr (sample_block n)" for n
    by (rule block_roundtrip [OF sample_hexutil_ok sample_wire_block])
  have ptr: "decode_ptr (decode_log sample_hexutil) (json_ptr (log_json sample_hexutil) p) = Inr p"
    if "p \<in> set (sample_logs n)" for p n
    using that sample_wire_logs [of _ n]
    by (intro ptr_decode) (auto intro: log_roundtrip [OF sample_hexutil_ok])
  have logs: "decode_slice (decode_ptr (decode_log sample_hexutil))
      (JArr (map (json_ptr (log_json sample_hexutil)) (filter Q (sample_logs n)))) =
      Inr (filter Q (sample_logs n))" for Q n
    using ptr by (intro slice_decode) auto
  have head: "sample_result (marshal_request (head_request sample_http)) =
      block_json sample_hexutil (sample_block 5)"
    by (simp add: sample_result_def marshal_request_def head_request_def sample_http_def GetLatestBlockRequest_def)
  have number: "sample_result (marshal_request (GetBlockByNumberRequest sample_hexutil n 1)) =
      block_json sample_hexutil (sample_block n)" for n
    by (simp add: sample_result_def marshal_request_def GetBlockByNumberRequest_def sample_hexutil_def read_hex_nat)
  have inj: "(\<lambda>l. JStr (log_address l) \<in> JStr ` set as) = (\<lambda>l. log_address l \<in> set as)" for as
    by auto
  have filtered: "sample_result (marshal_request (GetLogsForAddressesRequest sample_hexutil as n n 1)) =
      JArr (map (json_ptr (log_json sample_hexutil)) (filter (\<lambda>l. log_address l \<in> set as) (sample_logs n)))"
    for as n
    by (simp add: sample_result_def marshal_request_def GetLogsForAddressesRequest_def sample_hexutil_def
        read_hex_nat inj)
  show ?thesis
    unfolding node_serves_def Let_def hx
    using sample_http_answers [of "\<lambda>_. True"] block logs head number filtered
    by (metis sample_block_simps(1))
qed

end
