(* ===== verification/Parser_Laws.thy ===== *)
theory Parser_Laws
  imports Log_Parser
begin

text \<open>
  Behaviour of the log parser: what the reader of booleans and the hex decoder accept, which
  argument each topic fills, and when decoding panics.
\<close>

section \<open>Booleans and hex text\<close>

text \<open>The 32-byte words of a boolean, and everything else.\<close>

lemma readBool_word:
  assumes "length word = 32"
  shows "readBool word spare =
    Ret (if word = replicate 31 0 @ [0] then Inr False
         else if word = replicate 31 0 @ [1] then Inr True else Inl errBadBool)"
proof -
  obtain pre x where w: "word = pre @ [x]" "length pre = 31"
    using assms by (metis length_Suc_conv_rev numeral_nat(2) eval_nat_numeral(3) semiring_norm(26,27,28))
  have zeros: "(\<exists>b \<in> set pre. b \<noteq> 0) \<longleftrightarrow> pre \<noteq> replicate 31 0"
    using w(2) replicate_length_same [of pre 0] by (metis in_set_replicate)
  have "take 31 (word @ spare) = pre" "word ! 31 = x"
    using w by (simp_all add: nth_append)
  with assms zeros w show ?thesis by (auto simp: readBool_def)
qed

lemma readBool_short: "length word < 31 \<Longrightarrow> readBool word [] = Panic out_of_range"
  by (simp add: readBool_def)

lemma hex_DecodeString_iff:
  "(\<exists>bs. hex_DecodeString s = Inr bs) \<longleftrightarrow> even (length s) \<and> (\<forall>c \<in> set s. hex_digit c \<noteq> None)"
  by (induction s rule: hex_DecodeString.induct) (auto split: option.splits sum.splits)

lemma hex_DecodeString_length: "hex_DecodeString s = Inr bs \<Longrightarrow> length s = 2 * length bs"
  by (induction s arbitrary: bs rule: hex_DecodeString.induct) (auto split: option.splits sum.splits)

section \<open>Topics\<close>

text \<open>The value topic \<open>i\<close> gives its argument; \<open>None\<close> when it does not parse.\<close>

definition topic_value :: "'abi abi_lib \<Rightarrow> abi_Argument \<Rightarrow> string \<Rightarrow> go_value option" where
  "topic_value lib input param =
     (case ParseLogValueForType lib input param of Ret (Inr v) \<Rightarrow> Some v | _ \<Rightarrow> None)"

definition fill :: "go_value option \<Rightarrow> Argument \<Rightarrow> Argument" where
  "fill v a = (case v of None \<Rightarrow> a | Some x \<Rightarrow> a\<lparr>arg_Value := x\<rparr>)"

lemma topics_loop_eq:
  assumes "\<And>j. j < length params \<Longrightarrow> is_ret (ParseLogValueForType lib (inputs ! (i + j)) (params ! j))"
    and "i + length params \<le> length inputs" and "length args = length inputs"
  shows "topics_loop lib inputs i params args =
    Ret (map (\<lambda>k. if i \<le> k \<and> k < i + length params
                  then fill (topic_value lib (inputs ! k) (params ! (k - i))) (args ! k) else args ! k)
           [0..<length inputs])"
  using assms
proof (induction params arbitrary: i args)
  case Nil
  show ?case using Nil.prems(3) by (auto intro!: nth_equalityI)
next
  case (Cons p ps)
  define args' where "args' = args[i := fill (topic_value lib (inputs ! i) p) (args ! i)]"
  obtain r where r: "ParseLogValueForType lib (inputs ! i) p = Ret r"
    using Cons.prems(1) [of 0] by (auto simp: is_ret_iff)
  have step: "topics_loop lib inputs i (p # ps) args = topics_loop lib inputs (Suc i) ps args'"
    using Cons.prems(2) r by (cases r) (simp_all add: args'_def fill_def topic_value_def)
  have IH: "topics_loop lib inputs (Suc i) ps args' =
      Ret (map (\<lambda>k. if Suc i \<le> k \<and> k < Suc i + length ps
                    then fill (topic_value lib (inputs ! k) (ps ! (k - Suc i))) (args' ! k) else args' ! k)
             [0..<length inputs])"
    using Cons.prems(1) [of "Suc _"] Cons.prems(2,3) by (intro Cons.IH) (simp_all add: args'_def)
  show ?case
    unfolding step IH
    using Cons.prems(2,3)
    by (auto simp: args'_def nth_list_update nth_Cons' not_less Suc_le_eq)
qed

text \<open>One topic too many ends in a panic, whatever the topics hold.\<close>

lemma topics_loop_too_many:
  "i \<le> length inputs \<Longrightarrow> length inputs < i + length params \<Longrightarrow>
     \<exists>p. topics_loop lib inputs i params args = Panic p"
proof (induction params arbitrary: i args)
  case Nil
  then show ?case by simp
next
  case (Cons p ps)
  show ?case
  proof (cases "i = length inputs")
    case True
    then show ?thesis by simp
  next
    case False
    with Cons.prems have "Suc i \<le> length inputs" "length inputs < Suc i + length ps" by simp_all
    note IH = Cons.IH [OF this]
    show ?thesis using False Cons.prems IH by (auto split: go.split sum.split)
  qed
qed

section \<open>Decoding\<close>

text \<open>The arguments before any topic is read.\<close>

definition blank_arguments :: "abi_Event \<Rightarrow> Argument list" where
  "blank_arguments event =
     map (\<lambda>input. \<lparr>arg_Name = ai_Name input, arg_Type = ty_String (ai_Type input),
                    arg_Value = VNil, arg_Indexed = ai_Indexed input\<rparr>) (ev_Inputs event)"

text \<open>
  A log of a known event with at most as many topics after the first as the event has inputs: the
  log is decoded, topic \<open>i + 1\<close> fills argument \<open>i\<close> and the data are unpacked.
\<close>

lemma decode_with_abi_known:
  assumes event: "el_Topics lg = t # params" "EventByID lib a (HexToHash lib t) = Inr event"
    and few: "length params \<le> length (ev_Inputs event)"
    and rets: "\<And>j. j < length params \<Longrightarrow> is_ret (ParseLogValueForType lib (ev_Inputs event ! j) (params ! j))"
    and data: "el_Data lg = ''0x'' @ hex" "hex_DecodeString hex = Inr bytes"
      "UnpackIntoMap lib a (ev_Name event) bytes = Inr out"
  shows "decode_with_abi lib a lg = Ret (Some
    \<lparr>dl_LogIndex = el_LogIndex lg, dl_Address = AddressString lib (HexToAddress lib (el_Address lg)),
     dl_Arguments = map (\<lambda>k. if k < length params
         then fill (topic_value lib (ev_Inputs event ! k) (params ! k)) (blank_arguments event ! k)
         else blank_arguments event ! k) [0..<length (ev_Inputs event)],
     dl_EventName = ev_RawName event, dl_OutputData = out\<rparr>, None)"
proof -
  have "topics_loop lib (ev_Inputs event) 0 params (blank_arguments event) =
    Ret (map (\<lambda>k. if k < length params
         then fill (topic_value lib (ev_Inputs event ! k) (params ! k)) (blank_arguments event ! k)
         else blank_arguments event ! k) [0..<length (ev_Inputs event)])"
    using topics_loop_eq [of params lib "ev_Inputs event" 0 "blank_arguments event"] few rets
    by (simp add: blank_arguments_def)
  then show ?thesis
    using event data by (simp add: decode_with_abi_def Let_def blank_arguments_def)
qed

lemma decode_with_abi_too_many:
  assumes "el_Topics lg = t # params" "EventByID lib a (HexToHash lib t) = Inr event"
    and "length (ev_Inputs event) < length params"
  shows "\<exists>p. decode_with_abi lib a lg = Panic p"
  using topics_loop_too_many [of 0 "ev_Inputs event" params lib "blank_arguments event"] assms
  by (auto simp: decode_with_abi_def Let_def blank_arguments_def)

section \<open>Properties\<close>

text \<open>An ABI library with one event of two inputs, for examples.\<close>

definition sample_event :: abi_Event where
  "sample_event = \<lparr>ev_Name = ''E'', ev_RawName = ''E'',
     ev_Inputs = [\<lparr>ai_Name = ''from'', ai_Type = \<lparr>ty_T = AddressTy, ty_String = ''address''\<rparr>, ai_Indexed = True\<rparr>,
                  \<lparr>ai_Name = ''note'', ai_Type = \<lparr>ty_T = StringTy, ty_String = ''string''\<rparr>, ai_Indexed = False\<rparr>]\<rparr>"

definition sample_abi_lib :: "unit abi_lib" where
  "sample_abi_lib =
     \<lparr>AbiUnmarshalJSON = (\<lambda>s. ((), None)), EventByID = (\<lambda>a h. Inr sample_event),
      UnpackIntoMap = (\<lambda>a nm bs. Inr [(''note'', VBytes bs)]), ReadInteger = (\<lambda>t bs. Inr (VInt 0)),
      HexToAddress = (\<lambda>s. [1]), HexToHash = (\<lambda>s. []), AddressString = (\<lambda>bs. ''0x01''),
      HexDecode = (\<lambda>s. ([], []))\<rparr>"

definition sample_event_log :: "string list \<Rightarrow> EthereumEventLog" where
  "sample_event_log topics = zero_log\<lparr>el_Topics := topics, el_Data := ''0x''\<rparr>"

text \<open>
  C31. Decoding a log of a known event. With at most as many topics after the first as the event has
  inputs, none of which panics, and data that are hex text with a prefix of two characters and
  unpack, the log is decoded: the topic at position \<open>k + 1\<close> fills the argument \<open>k\<close>, in the order of
  all inputs, indexed or not, unless it does not parse, and the unpacked data are the output.
\<close>

theorem decode_known_event:
  assumes "el_Topics lg = t # params" and "EventByID lib a (HexToHash lib t) = Inr event"
    and "length params \<le> length (ev_Inputs event)"
    and "\<And>j. j < length params \<Longrightarrow> is_ret (ParseLogValueForType lib (ev_Inputs event ! j) (params ! j))"
    and "el_Data lg = ''0x'' @ hex" and "hex_DecodeString hex = Inr bytes"
    and "UnpackIntoMap lib a (ev_Name event) bytes = Inr out"
  shows "DecodeLog lib K ks (Some a) (Some lg) = Ret (Some
    \<lparr>dl_LogIndex = el_LogIndex lg, dl_Address = AddressString lib (HexToAddress lib (el_Address lg)),
     dl_Arguments = map (\<lambda>k. if k < length params
         then fill (topic_value lib (ev_Inputs event ! k) (params ! k)) (blank_arguments event ! k)
         else blank_arguments event ! k) [0..<length (ev_Inputs event)],
     dl_EventName = ev_RawName event, dl_OutputData = out\<rparr>, None)"
  using decode_with_abi_known [OF assms] by (simp add: DecodeLog_def)

theorem decode_known_event_witness:
  "DecodeLog sample_abi_lib in_memory_contract_store (NewInMemoryContractStore []) (Some ())
     (Some (sample_event_log [''t'', ''p''])) =
   Ret (Some \<lparr>dl_LogIndex = 0, dl_Address = ''0x01'',
     dl_Arguments =
       [\<lparr>arg_Name = ''from'', arg_Type = ''address'', arg_Value = VAddress [1], arg_Indexed = True\<rparr>,
        \<lparr>arg_Name = ''note'', arg_Type = ''string'', arg_Value = VNil, arg_Indexed = False\<rparr>],
     dl_EventName = ''E'', dl_OutputData = [(''note'', VBytes [])]\<rparr>, None)"
  using decode_known_event [of "sample_event_log [''t'', ''p'']" "''t''" "[''p'']" sample_abi_lib "()"
      sample_event "[]" "[]" "[(''note'', VBytes [])]" in_memory_contract_store "NewInMemoryContractStore []"]
  by (simp add: sample_event_log_def sample_abi_lib_def sample_event_def zero_log_def
      ParseLogValueForType_def fill_def topic_value_def blank_arguments_def)

text \<open>
  C32. Decoding panics. A log with more topics after the first than its event has inputs makes the
  parser panic, whatever contracts there are; and so does, with whatever topics, a log whose ABI is to be looked up
  and whose address no contract of the in-memory store has: the store reports a missing contract without an
  error.
\<close>

theorem decode_panics:
  "(el_Topics lg = t # params \<longrightarrow> EventByID lib a (HexToHash lib t) = Inr event \<longrightarrow>
      length (ev_Inputs event) < length params \<longrightarrow>
      \<not> is_ret (DecodeLog lib K ks' (Some a) (Some lg))) \<and>
   ((\<forall>c \<in> set (ics_contracts ks). \<not> EqualFold (ct_Address c) (el_Address lg')) \<longrightarrow>
      DecodeLog lib in_memory_contract_store ks None (Some lg') = Panic nil_dereference)"
proof (intro conjI impI)
  assume "el_Topics lg = t # params" "EventByID lib a (HexToHash lib t) = Inr event"
    "length (ev_Inputs event) < length params"
  then obtain p where "decode_with_abi lib a lg = Panic p" using decode_with_abi_too_many [of lg t params lib a event] by auto
  then show "\<not> is_ret (DecodeLog lib K ks' (Some a) (Some lg))" by (simp add: DecodeLog_def)
next
  assume "\<forall>c \<in> set (ics_contracts ks). \<not> EqualFold (ct_Address c) (el_Address lg')"
  then have "GetContractByAddress in_memory_contract_store (el_Address lg') ks = Inr None"
    using ics.address_law [of "el_Address lg'" ks] by (simp add: find_None_iff)
  then show "DecodeLog lib in_memory_contract_store ks None (Some lg') = Panic nil_dereference"
    by (simp add: DecodeLog_def)
qed

theorem decode_panics_witness:
  "\<not> is_ret (DecodeLog sample_abi_lib in_memory_contract_store (NewInMemoryContractStore []) (Some ())
     (Some (sample_event_log [''t'', ''p'', ''q'', ''r'']))) \<and>
   DecodeLog sample_abi_lib in_memory_contract_store (NewInMemoryContractStore []) None
     (Some (sample_event_log [''t''])) = Panic nil_dereference"
  using decode_panics [of "sample_event_log [''t'', ''p'', ''q'', ''r'']" "''t''" "[''p'', ''q'', ''r'']"
      sample_abi_lib "()" sample_event in_memory_contract_store
      "NewInMemoryContractStore []" "NewInMemoryContractStore []" "sample_event_log [''t'']"]
  by (simp add: sample_event_log_def sample_abi_lib_def sample_event_def NewInMemoryContractStore_def zero_log_def)

text \<open>
  Booleans. Of the 32-byte words exactly 0 and 1 are read as booleans and every other one is
  an error; a shorter word without spare capacity panics.
\<close>

lemma readBool_cases:
  assumes "length word = 32" and "length short < 31"
  shows "readBool word spare =
      Ret (if word = replicate 31 0 @ [0] then Inr False
           else if word = replicate 31 0 @ [1] then Inr True else Inl errBadBool) \<and>
    readBool short [] = Panic out_of_range"
  using readBool_word [OF assms(1)] readBool_short [OF assms(2)] by simp

lemma readBool_cases_witness:
  "readBool (replicate 31 0 @ [1]) [] = Ret (Inr True) \<and> readBool [] [] = Panic out_of_range"
  using readBool_cases [of "replicate 31 0 @ [1]" "[]" "[]"] by simp

end
