(* ===== verification/Poller_Crash.thy ===== *)
theory Poller_Crash
  imports Poller_Progress
begin

text \<open>
  A block with a watched log on which the parser panics: the tick that reaches it takes the
  process down before the block is recorded, from whatever earlier block it set out.
\<close>

text \<open>In every state of \<open>J\<close> the parser decodes a log, or it panics on it.\<close>

definition decodes_or_panics :: "'e LogParser \<Rightarrow> ('e \<Rightarrow> bool) \<Rightarrow> EthereumEventLog option \<Rightarrow> bool" where
  "decodes_or_panics L J l \<longleftrightarrow>
     (\<forall>e. J e \<longrightarrow> (\<exists>d e'. ParseLog L l e = (Ret (d, None), e') \<and> J e') \<or>
                (\<exists>p e'. ParseLog L l e = (Panic p, e')))"

definition panics_on :: "'e LogParser \<Rightarrow> ('e \<Rightarrow> bool) \<Rightarrow> EthereumEventLog option \<Rightarrow> bool" where
  "panics_on L J l \<longleftrightarrow> (\<forall>e. J e \<longrightarrow> (\<exists>p e'. ParseLog L l e = (Panic p, e')))"

lemma process_logs_decodes_or_panics:
  assumes works: "works ecp J chain logs W m"
  shows "J (w_env w) \<Longrightarrow> \<forall>l \<in> set ls. decodes_or_panics (ecp_logParser ecp) J l \<Longrightarrow>
    (\<exists>p w'. process_logs ecp b ls w = (Panic p, w')) \<or>
    (\<exists>w'. process_logs ecp b ls w = (Ret None, w') \<and> J (w_env w') \<and>
      \<not> (\<exists>l \<in> set ls. panics_on (ecp_logParser ecp) J l))"
proof (induction ls arbitrary: w)
  case Nil
  then show ?case by simp
next
  case (Cons l ls)
  consider (ok) d e1 where "ParseLog (ecp_logParser ecp) l (w_env w) = (Ret (d, None), e1)" "J e1"
    | (panic) p e1 where "ParseLog (ecp_logParser ecp) l (w_env w) = (Panic p, e1)"
    using Cons.prems(1,2) by (auto simp: decodes_or_panics_def)
  then show ?case
  proof cases
    case panic
    then show ?thesis by (simp add: on_env_def)
  next
    case ok
    then have fine: "\<not> panics_on (ecp_logParser ecp) J l"
      using Cons.prems(1) by (auto simp: panics_on_def)
    obtain e2 where e2: "HandleLog (ecp_blockHandler ecp)
        \<lparr>lwb_Log = d, lwb_RawLog = l, lwb_Block = b\<rparr> e1 = (None, e2)" "J e2"
      using worksD(8) [OF works ok(2)] by blast
    let ?w = "w\<lparr>w_calls := w_calls w @
        [CallHandleLog \<lparr>lwb_Log = d, lwb_RawLog = l, lwb_Block = b\<rparr>], w_env := e2\<rparr>"
    have "process_logs ecp b (l # ls) w = process_logs ecp b ls ?w"
      using ok(1) e2(1) by (simp add: on_env_def call_HandleLog_def)
    with Cons.IH [of ?w] e2(2) Cons.prems(2) fine show ?thesis by simp
  qed
qed

text \<open>A block whose watched logs decode or panic is recorded, or the process ends and the store is as it was.\<close>

lemma processBlockLogs_records_or_panics:
  assumes works: "works ecp J chain logs W m" and J: "J (w_env w)"
    and fine: "\<forall>l \<in> set (logs (eb_Number b)). log_address l \<in> W \<longrightarrow> decodes_or_panics (ecp_logParser ecp) J l"
  obtains (panic) p w' where "processBlockLogs ecp b w = (Panic p, w')" "w_store w' = w_store w"
  | (saved) w2 r where "r = record_of b (cfg_ChainId (ecp_config ecp))" "w_store w2 = w_store w" "J (w_env w2)"
      "processBlockLogs ecp b w =
         (Ret (Inr r), prune_old ecp r (snd (on_store (SaveBlock (ecp_store ecp) (Some r)) w2)))"
      "\<And>l. l \<in> set (logs (eb_Number b)) \<Longrightarrow> log_address l \<in> W \<Longrightarrow> \<not> panics_on (ecp_logParser ecp) J l"
proof -
  obtain ls e1 where f: "fetchLogsForInterestingContractsForBlock ecp (eb_Number b) (w_env w) =
      (Ret (Inr ls), e1)" "J e1" "mset ls = mset (filter (\<lambda>l. log_address l \<in> W) (logs (eb_Number b)))"
    using fetchLogs_serves [OF worksD(4) [OF works] J worksD(6) [OF works J]]
    unfolding worksD(5) [OF works J] by blast
  have set: "set ls = {l \<in> set (logs (eb_Number b)). log_address l \<in> W}"
    using mset_eq_setD [OF f(3)] by simp
  let ?w1 = "w\<lparr>w_env := e1\<rparr>"
  consider (a) p w2 where "process_logs ecp (on_chain ecp b) ls ?w1 = (Panic p, w2)"
    | (b) w2 where "process_logs ecp (on_chain ecp b) ls ?w1 = (Ret None, w2)" "J (w_env w2)"
        "\<not> (\<exists>l \<in> set ls. panics_on (ecp_logParser ecp) J l)"
    using process_logs_decodes_or_panics [OF works, of ?w1 ls "on_chain ecp b"] set f(2) fine by auto
  then show thesis
  proof cases
    case a
    then have run: "processBlockLogs ecp b w = (Panic p, w2)"
      using f(1) by (simp add: processBlockLogs_def on_env_def Let_def)
    with processBlockLogs_calls(2) [OF run] show thesis by (intro panic [OF run]) simp
  next
    case b
    have "w_store w2 = w_store w" using process_logs_prefix [OF b(1)] by auto
    moreover have "processBlockLogs ecp b w = (Ret (Inr (record_of b (cfg_ChainId (ecp_config ecp)))),
        prune_old ecp (record_of b (cfg_ChainId (ecp_config ecp)))
          (snd (on_store (SaveBlock (ecp_store ecp) (Some (record_of b (cfg_ChainId (ecp_config ecp))))) w2)))"
      using f(1) b(1) by (simp add: processBlockLogs_def on_env_def Let_def record_of_def split: prod.split)
    ultimately show thesis using b(2,3) set by (intro saved) auto
  qed
qed

context persistence
begin

text \<open>
  The blocks above \<open>j\<close>, of which block \<open>t\<close> has such a log: the run ends in a panic at some block up to \<open>t\<close>,
  and the blocks before that are recorded.
\<close>

lemma poisoned_blocks:
  assumes P: "ecp_store ecp = P" and c: "c = cfg_ChainId (ecp_config ecp)"
    and H: "H = cfg_BlockHistorySize (ecp_config ecp)" and works: "works ecp J chain logs W m"
    and g: "0 < g"
    and fine: "\<forall>n l. g < n \<longrightarrow> n \<le> t \<longrightarrow> l \<in> set (logs n) \<longrightarrow> log_address l \<in> W \<longrightarrow>
      decodes_or_panics (ecp_logParser ecp) J l"
    and bad: "l \<in> set (logs t)" "log_address l \<in> W" "panics_on (ecp_logParser ecp) J l" and t: "t \<le> m"
  shows "j < t \<Longrightarrow> indexed_to H c chain g st j (w_store w) \<Longrightarrow> J (w_env w) \<Longrightarrow> br_Hash r = eb_Hash (chain j) \<Longrightarrow>
    \<exists>p w' i. process_blocks ecp r (up j m) w = (Panic p, w') \<and> j \<le> i \<and> i < t \<and>
      indexed_to H c chain g st i (w_store w')"
proof (induction "unat t - unat j" arbitrary: j r w)
  case 0
  then show ?case by (simp add: word_less_nat_alt)
next
  case (Suc x)
  let ?b = "chain (j + 1)"
  have jm: "j < m" using Suc.prems(1) t by simp
  have s: "unat (j + 1) = Suc (unat j)"
    using jm unat_max_uint64 unat_uint64_bound [of m]
    by (intro unat_Suc_word) (simp add: word_less_nat_alt)
  have bounds: "0 < j + 1" "j + 1 \<le> m" "j < j + 1" "j + 1 \<le> t" "x = unat t - unat (j + 1)"
    using s jm Suc.prems(1) Suc.hyps(2) by (simp_all add: word_le_nat_alt word_less_nat_alt)
  have inv: "opened (w_store w)" "g \<le> j" using Suc.prems(2) by (simp_all add: indexed_to_def)
  have number: "eb_Number ?b = j + 1" using worksD(1) [OF works] by (simp add: serves_blocks_def)
  obtain e1 where e1: "on_env (GetBlockByNumber (ecp_ethClient ecp) (j + 1)) w = (Inr (Some ?b), w\<lparr>w_env := e1\<rparr>)"
    "J e1"
    using serves_blocksE [OF worksD(1) [OF works] Suc.prems(3) bounds(1,2)] by blast
  obtain res w2 where w2: "call_HandleBlock ecp ?b (w\<lparr>w_env := e1\<rparr>) = (res, w2)" by fastforce
  then have w2s: "w_store w2 = w_store w" "J (w_env w2)"
    using call_HandleBlockD [OF w2] worksD(7) [OF works e1(2), of ?b]
    by (auto simp: call_HandleBlock_def on_env_def split: prod.splits)
  have parent: "eb_ParentHash ?b = br_Hash r" using worksD(2) [OF works less_le_trans [OF g inv(2)] jm] Suc.prems(4) by simp
  have fine1: "\<forall>l \<in> set (logs (eb_Number ?b)). log_address l \<in> W \<longrightarrow> decodes_or_panics (ecp_logParser ecp) J l"
    unfolding number using fine le_less_trans [OF inv(2) bounds(3)] bounds(4) by blast
  note step = up_step [OF jm] and e1(1) [simp] w2 [simp]
  show ?case
  proof (cases rule: processBlockLogs_records_or_panics [OF works w2s(2) fine1])
    case (1 p w')
    then have "process_blocks ecp r (up j m) w = (Panic p, w')" using parent by (simp add: step)
    then show ?thesis using 1(2) w2s(1) Suc.prems(1,2) by auto
  next
    case (2 w3 r')
    let ?w' = "prune_old ecp r' (snd (on_store (SaveBlock (ecp_store ecp) (Some r')) w3))"
    have "j + 1 \<noteq> t" using 2(5) bad unfolding number by blast
    with bounds(4) have jt: "j + 1 < t" by simp
    have r': "r' = record_of ?b c" by (simp add: 2(1) c)
    note sp = save_and_prune [OF P c _ r', of w3, unfolded 2(2) w2s(1), OF inv(1), folded H]
    have next_inv: "indexed_to H c chain g st (j + 1) (w_store ?w')"
      using sp(1-3) Suc.prems(2) inv(2) bounds(3)
      by (simp add: indexed_to_def up_snoc [OF inv(2) bounds(3)] number)
    have hash: "br_Hash r' = eb_Hash ?b" by (simp add: r' record_of_def)
    have "process_blocks ecp r (up j m) w = process_blocks ecp r' (up (j + 1) m) ?w'"
      using parent 2(4) by (simp add: step)
    moreover have "J (w_env ?w')" using sp(4) 2(3) by simp
    ultimately obtain p w' i where "process_blocks ecp r (up j m) w = (Panic p, w')" "j + 1 \<le> i" "i < t"
      "indexed_to H c chain g st i (w_store w')"
      using Suc.hyps(1) [OF bounds(5) jt next_inv _ hash] by auto
    with bounds(3) show ?thesis by (meson less_imp_le order_trans)
  qed
qed

text \<open>The tick that sets out from block \<open>j\<close>.\<close>

lemma poisoned_tick:
  assumes P: "ecp_store ecp = P" and c: "c = cfg_ChainId (ecp_config ecp)"
    and H: "H = cfg_BlockHistorySize (ecp_config ecp)" and works: "works ecp J chain logs W m" and m: "m < - 1"
    and pos: "0 < j"
    and fine: "\<forall>n l. j < n \<longrightarrow> n \<le> t \<longrightarrow> l \<in> set (logs n) \<longrightarrow> log_address l \<in> W \<longrightarrow>
      decodes_or_panics (ecp_logParser ecp) J l"
    and bad: "l \<in> set (logs t)" "log_address l \<in> W" "panics_on (ecp_logParser ecp) J l"
    and t: "j < t" "t \<le> m" and op: "opened (w_store w)" and J: "J (w_env w)"
    and last: "cursor (w_store w) c = Some j" "stored (w_store w) c j = Some (record_of (chain j) c)"
  obtains p w' i where "processNextBlock ecp w = Some (Panic p, w')" "j \<le> i" "i < t"
    "indexed_to H c chain j (stored (w_store w) c) i (w_store w')"
proof -
  let ?r = "record_of (chain j) c"
  obtain e1 where e1: "GetLatestBlock (ecp_ethClient ecp) (w_env w) = (Inr m, e1)" "J e1"
    using worksD(3) [OF works J] by blast
  let ?w1 = "w\<lparr>w_env := e1\<rparr>"
  have jm: "j < m" using t by simp
  have number: "br_Number ?r = j"
    using worksD(1) [OF works] by (simp add: serves_blocks_def record_of_def)
  have "indexed_to H c chain j (stored (w_store w) c) j (w_store ?w1)"
    using op last by (simp add: indexed_to_def)
  then have "\<exists>p w' i. process_blocks ecp ?r (up j m) ?w1 = (Panic p, w') \<and> j \<le> i \<and> i < t \<and>
      indexed_to H c chain j (stored (w_store w) c) i (w_store w')"
    using poisoned_blocks [where g = j and t = t and l = l and r = ?r and w = ?w1,
        OF P c H works pos fine bad t(2,1)] e1(2)
    by (simp add: record_of_def)
  then obtain p w' i where w': "process_blocks ecp ?r (up j m) ?w1 = (Panic p, w')" "j \<le> i" "i < t"
    "indexed_to H c chain j (stored (w_store w) c) i (w_store w')"
    by blast
  have "processNextBlock ecp w = Some (process_blocks ecp ?r (up j m) ?w1)"
    using e1(1) last P op jm number collect_blocks_finite [OF m less_imp_le [OF jm]]
    by (auto simp: processNextBlock_def go_defs last_law simp flip: c)
  with w' that show thesis by simp
qed

end

end
