(* ===== verification/Full_Stack.thy ===== *)
theory Full_Stack
  imports Sample Parser_Laws Poller_Crash
begin

text \<open>
  The components put together as an application does it: the poller that \<^verbatim>\<open>NewEVMChainPoller\<close>
  builds over the JSON-RPC client, the log parser on the in-memory contract store, the in-memory
  block store and the in-memory registry of watched contracts. One tick indexes up to the head;
  one log without a contract takes the process down, and with a configured first block every process
  after it.
\<close>

section \<open>The environment of an application\<close>

text \<open>The states of the parts the poller talks to, next to the application's own.\<close>

record ('n, 'a) stack =
  st_net :: 'n
  st_contracts :: InMemoryContractStore
  st_registry :: InMemoryContractRegistry
  st_app :: 'a

definition on_net :: "('n \<Rightarrow> 'r \<times> 'n) \<Rightarrow> ('n, 'a) stack \<Rightarrow> 'r \<times> ('n, 'a) stack" where
  "on_net f e = (let (r, n') = f (st_net e) in (r, e\<lparr>st_net := n'\<rparr>))"

definition stack_client :: "'n Client \<Rightarrow> ('n, 'a) stack Client" where
  "stack_client C =
     \<lparr>GetLatestBlock = on_net (GetLatestBlock C),
      GetBlockByNumber = (\<lambda>n. on_net (GetBlockByNumber C n)),
      GetLogs = (\<lambda>a f t. on_net (GetLogs C a f t)),
      GetLogsForAddresses = (\<lambda>as f t. on_net (GetLogsForAddresses C as f t))\<rparr>"

definition stack_parser ::
  "('abi, InMemoryContractStore) TransactionLogParser \<Rightarrow> ('n, 'a) stack LogParser" where
  "stack_parser tlp = \<lparr>ParseLog = (\<lambda>lg e.
     (DecodeLog (tlp_abi tlp) (tlp_contractStore tlp) (st_contracts e) None lg, e))\<rparr>"

definition stack_registry :: "('n, 'a) stack IContractRegistry" where
  "stack_registry =
     \<lparr>RegisterContracts = (\<lambda>ord as e. e\<lparr>st_registry :=
        RegisterContracts in_memory_contract_registry ord as (st_registry e)\<rparr>),
      UnregisterContracts = (\<lambda>as e. e\<lparr>st_registry :=
        UnregisterContracts in_memory_contract_registry as (st_registry e)\<rparr>),
      ListRegistered = (\<lambda>e. ListRegistered in_memory_contract_registry (st_registry e))\<rparr>"

text \<open>The poller of such an application.\<close>

definition stack_poller ::
  "'n EthereumClient \<Rightarrow> 'abi abi_lib \<Rightarrow> EVMChainPollerConfig \<Rightarrow> ('n, 'a) stack IBlockHandler
     \<Rightarrow> (('n, 'a) stack \<Rightarrow> nat list)
     \<Rightarrow> (InMemoryChainPollerPersistence, ('n, 'a) stack) EVMChainPoller go" where
  "stack_poller c lib cfg h sched =
     NewEVMChainPoller (stack_client (ethereum_client c))
       (stack_parser (NewTransactionLogParser lib in_memory_contract_store)) cfg
       (Some memory_persistence) h sched [WithContractRegistry stack_registry]"

text \<open>
  The states in which the network is in \<open>Jn\<close>, and the contracts and the registered addresses
  are given ones; a handler keeps to it.
\<close>

definition stack_inv ::
  "('n \<Rightarrow> bool) \<Rightarrow> InMemoryContractStore \<Rightarrow> InMemoryContractRegistry \<Rightarrow> ('n, 'a) stack \<Rightarrow> bool" where
  "stack_inv Jn ks rs e \<longleftrightarrow> Jn (st_net e) \<and> st_contracts e = ks \<and> st_registry e = rs"

definition handler_accepts :: "'e IBlockHandler \<Rightarrow> ('e \<Rightarrow> bool) \<Rightarrow> bool" where
  "handler_accepts h J \<longleftrightarrow>
     (\<forall>b e. J e \<longrightarrow> J (snd (HandleBlock h b e))) \<and>
     (\<forall>l e. J e \<longrightarrow> (\<exists>e'. HandleLog h l e = (None, e') \<and> J e')) \<and>
     (\<forall>n e. J e \<longrightarrow> J (HandleReorgBlock h n e))"

text \<open>The watched addresses, and what the parser makes of a log.\<close>

definition stack_watched :: "EVMChainPollerConfig \<Rightarrow> InMemoryContractRegistry \<Rightarrow> string set" where
  "stack_watched cfg rs =
     ToLower ` (set (cfg_InterestingContracts cfg) - {[]}) \<union> set (Registry_ListContracts rs)"

definition decoded ::
  "'abi abi_lib \<Rightarrow> InMemoryContractStore \<Rightarrow> EthereumEventLog option \<Rightarrow> DecodedLog option" where
  "decoded lib ks l =
     (case DecodeLog lib in_memory_contract_store ks None l of Ret (d, _) \<Rightarrow> d | Panic _ \<Rightarrow> None)"

section \<open>The parts work together\<close>

lemma on_net_simps [simp]:
  "f (st_net e) = (r, n') \<Longrightarrow> on_net f e = (r, e\<lparr>st_net := n'\<rparr>)"
  by (simp add: on_net_def)

lemma on_net_inv:
  assumes "stack_inv Jn ks rs e" and "\<And>n. Jn n \<Longrightarrow> \<exists>n'. f n = (r, n') \<and> Jn n'"
  shows "\<exists>e'. on_net f e = (r, e') \<and> stack_inv Jn ks rs e'"
  using assms(1) assms(2) [of "st_net e"] by (auto simp: stack_inv_def)

lemma stack_client_serves_blocks:
  assumes "serves_blocks C Jn chain m"
  shows "serves_blocks (stack_client C) (stack_inv Jn ks rs) chain m"
  unfolding serves_blocks_def
proof (intro conjI allI impI)
  fix e :: "('a, 'b) stack" and n
  assume e: "stack_inv Jn ks rs e" and n: "0 < n" "n \<le> m"
  have "\<exists>e'. on_net (GetBlockByNumber C n) e = (Inr (Some (chain n)), e') \<and> stack_inv Jn ks rs e'"
    by (rule on_net_inv [OF e]) (use assms n in \<open>auto simp: serves_blocks_def\<close>)
  then show "\<exists>e'. GetBlockByNumber (stack_client C) n e = (Inr (Some (chain n)), e') \<and> stack_inv Jn ks rs e'"
    by (simp add: stack_client_def)
qed (use assms in \<open>simp add: serves_blocks_def\<close>)

lemma stack_client_serves_logs:
  assumes "serves_logs C Jn n ls"
  shows "serves_logs (stack_client C) (stack_inv Jn ks rs) n ls"
  unfolding serves_logs_def
proof (intro allI impI)
  fix e :: "('a, 'b) stack" and addrs
  assume e: "stack_inv Jn ks rs e"
  let ?ls = "filter (\<lambda>l. log_address l \<in> set addrs) ls"
  have "\<exists>e'. on_net (GetLogsForAddresses C addrs n n) e = (Inr ?ls, e') \<and> stack_inv Jn ks rs e'"
    by (rule on_net_inv [OF e]) (use assms in \<open>auto simp: serves_logs_def\<close>)
  then show "\<exists>e'. GetLogsForAddresses (stack_client C) addrs n n e = (Inr ?ls, e') \<and> stack_inv Jn ks rs e'"
    by (simp add: stack_client_def)
qed

lemma stack_client_head:
  assumes "\<And>n. Jn n \<Longrightarrow> \<exists>n'. GetLatestBlock C n = (Inr m, n') \<and> Jn n'" and "stack_inv Jn ks rs e"
  shows "\<exists>e'. GetLatestBlock (stack_client C) e = (Inr m, e') \<and> stack_inv Jn ks rs e'"
  using on_net_inv [OF assms(2,1)] by (simp add: stack_client_def)

lemma apply_defaults_keeps [simp]:
  "cfg_ChainId (apply_defaults cfg) = cfg_ChainId cfg"
  "cfg_InterestingContracts (apply_defaults cfg) = cfg_InterestingContracts cfg"
  "cfg_GenesisBlockNumber (apply_defaults cfg) = cfg_GenesisBlockNumber cfg"
  "cfg_PollingInterval (apply_defaults cfg) = cfg_PollingInterval cfg"
  by (simp_all add: apply_defaults_def Let_def)

lemma stack_poller_fields:
  assumes "stack_poller c lib cfg h sched = Ret ecp"
  shows "ecp_ethClient ecp = stack_client (ethereum_client c)"
    and "ecp_logParser ecp = stack_parser (NewTransactionLogParser lib in_memory_contract_store)"
    and "ecp_config ecp = apply_defaults cfg" and "ecp_store ecp = memory_persistence"
    and "ecp_blockHandler ecp = h" and "ecp_contractRegistry ecp = Some stack_registry"
  using assms by (auto simp: stack_poller_def NewEVMChainPoller_def WithContractRegistry_def)

lemma stack_works:
  assumes "stack_poller c lib cfg h sched = Ret ecp" and "node_serves c Jn chain logs m"
    and "\<And>n. 0 < n \<Longrightarrow> n < m \<Longrightarrow> eb_ParentHash (chain (n + 1)) = eb_Hash (chain n)"
    and "handler_accepts h (stack_inv Jn ks rs)"
    and "int (card (stack_watched cfg rs)) +
      sint (effective_chunk_size (cfg_MaxAddressesPerLogsRequest (apply_defaults cfg))) \<le> 2 ^ 63"
  shows "works ecp (stack_inv Jn ks rs) chain logs (stack_watched cfg rs) m"
proof -
  note fields = stack_poller_fields [OF assms(1)]
  note node = client_presents_node [OF assms(2)]
  have watched: "watched ecp e = stack_watched cfg rs" if "stack_inv Jn ks rs e" for e
    using that by (simp add: watched_def fields stack_watched_def stack_registry_def stack_inv_def
        in_memory_contract_registry_def)
  have "request_size_ok ecp e" if "stack_inv Jn ks rs e" for e
    using assms(5) distinct_card [OF distinct_listAllInterestingContracts, of ecp e] watched [OF that]
    by (simp add: request_size_ok_def fields)
  with watched show ?thesis
    using assms(3,4)
    by (simp add: works_def fields handler_accepts_def stack_client_serves_blocks [OF node(1)]
        stack_client_serves_logs [OF node(3)] stack_client_head [OF node(2)])
qed

lemma stack_parser_decodes:
  assumes "DecodeLog lib in_memory_contract_store ks None l = Ret (d, None)" and "stack_inv Jn ks rs e"
  shows "ParseLog (stack_parser (NewTransactionLogParser lib in_memory_contract_store)) l e =
    (Ret (decoded lib ks l, None), e)"
  using assms by (simp add: stack_parser_def NewTransactionLogParser_def decoded_def stack_inv_def)

text \<open>An address is unknown to a contract store when no contract has it, in any spelling.\<close>

definition unknown_address :: "InMemoryContractStore \<Rightarrow> string \<Rightarrow> bool" where
  "unknown_address ks a \<longleftrightarrow> (\<forall>c \<in> set (ics_contracts ks). \<not> EqualFold (ct_Address c) a)"

lemma DecodeLog_unknown:
  assumes "unknown_address ks (log_address l)"
  shows "\<exists>p. DecodeLog lib in_memory_contract_store ks None l = Panic p"
proof (cases l)
  case None
  then show ?thesis by (simp add: DecodeLog_def)
next
  case (Some lg)
  have "GetContractByAddress in_memory_contract_store (el_Address lg) ks = Inr None"
    using assms Some ics.address_law [of "el_Address lg" ks]
    by (simp add: find_None_iff unknown_address_def log_address_def)
  with Some show ?thesis by (simp add: DecodeLog_def)
qed

lemma stack_healthy:
  assumes "stack_poller c lib cfg h sched = Ret ecp"
    and "works ecp (stack_inv Jn ks rs) chain logs (stack_watched cfg rs) m"
    and "\<And>n l. 0 < n \<Longrightarrow> n \<le> m \<Longrightarrow> l \<in> set (logs n) \<Longrightarrow> log_address l \<in> stack_watched cfg rs \<Longrightarrow>
      \<exists>d. DecodeLog lib in_memory_contract_store ks None l = Ret (d, None)"
  shows "healthy ecp (stack_inv Jn ks rs) chain logs (decoded lib ks) (stack_watched cfg rs) m"
  unfolding healthy_def stack_poller_fields(2) [OF assms(1)]
  using assms(2,3) stack_parser_decodes by fast

section \<open>Examples\<close>

text \<open>The application on the sample node, with a contract at the watched address or without one.\<close>

definition sample_contract_store :: InMemoryContractStore where
  "sample_contract_store = NewInMemoryContractStore
     [\<lparr>ct_Name = ''C'', ct_Address = ''0xAA'', ct_AbiVersions = [''[]''], ct_ChainId = 1\<rparr>]"

definition quiet_handler :: "'e IBlockHandler" where
  "quiet_handler = \<lparr>HandleBlock = (\<lambda>b e. (None, e)), HandleLog = (\<lambda>l e. (None, e)),
     HandleReorgBlock = (\<lambda>n e. e)\<rparr>"

definition sample_stack_poller ::
  "(InMemoryChainPollerPersistence, (unit, unit) stack) EVMChainPoller" where
  "sample_stack_poller =
     (case stack_poller sample_http sample_abi_lib sample_config quiet_handler (\<lambda>e. []) of Ret ecp \<Rightarrow> ecp)"

definition stack_world ::
  "InMemoryContractStore \<Rightarrow> InMemoryChainPollerPersistence
     \<Rightarrow> (InMemoryChainPollerPersistence, (unit, unit) stack) world" where
  "stack_world ks s = \<lparr>w_store = s, w_env =
     \<lparr>st_net = (), st_contracts = ks, st_registry = NewInMemoryContractRegistry, st_app = ()\<rparr>,
     w_calls = []\<rparr>"

definition sample_decoded :: DecodedLog where
  "sample_decoded = \<lparr>dl_LogIndex = 0, dl_Address = ''0x01'', dl_Arguments = blank_arguments sample_event,
     dl_EventName = ''E'', dl_OutputData = []\<rparr>"

lemma sample_stack_poller: "stack_poller sample_http sample_abi_lib sample_config quiet_handler (\<lambda>e. []) =
    Ret sample_stack_poller"
  by (simp add: sample_stack_poller_def stack_poller_def NewEVMChainPoller_def)

lemma quiet_handler_accepts: "handler_accepts quiet_handler J"
  by (simp add: handler_accepts_def quiet_handler_def)

lemma sample_stack_watched: "stack_watched sample_config NewInMemoryContractRegistry = {''0xaa''}"
proof -
  have "ToLower ''0xAA'' = ''0xaa''" by code_simp
  moreover have "set (cfg_InterestingContracts sample_config) - {[]} = {''0xAA''}"
    by (auto simp: sample_config_def)
  ultimately show ?thesis
    by (simp add: stack_watched_def Registry_ListContracts_def NewInMemoryContractRegistry_def)
qed

lemma sample_stack_size: "int (card (stack_watched sample_config NewInMemoryContractRegistry)) +
    sint (effective_chunk_size (cfg_MaxAddressesPerLogsRequest (apply_defaults sample_config))) \<le> 2 ^ 63"
  unfolding sample_stack_watched
  by (simp add: apply_defaults_def sample_config_def effective_chunk_size_def)

lemma stack_world_simps [simp]:
  "w_store (stack_world ks s) = s" "w_calls (stack_world ks s) = []"
  "stack_inv (\<lambda>_. True) ks NewInMemoryContractRegistry (w_env (stack_world ks s))"
  by (simp_all add: stack_world_def stack_inv_def)

lemma sample_stack_decodes:
  assumes "l \<in> set (sample_logs n)" and "log_address l = ''0xaa''"
  shows "DecodeLog sample_abi_lib in_memory_contract_store sample_contract_store None l =
    Ret (Some sample_decoded, None)"
proof -
  have l: "l = Some (zero_log\<lparr>el_Address := ''0xaa''\<rparr>)"
    using assms by (auto simp: sample_logs_def log_address_def)
  have same: "EqualFold ''0xAA'' ''0xaa''" by code_simp
  then have "GetContractByAddress in_memory_contract_store ''0xaa'' sample_contract_store =
      Inr (Some \<lparr>ct_Name = ''C'', ct_Address = ''0xAA'', ct_AbiVersions = [''[]''], ct_ChainId = 1\<rparr>)"
    by (simp add: ics.address_law sample_contract_store_def NewInMemoryContractStore_def)
  then show ?thesis
    by (simp add: l DecodeLog_def GetAbi_def combineAbis_def unmarshalJsonToAbi_def decode_with_abi_def
        GetCombinedAbis_def sample_abi_lib_def sample_decoded_def zero_log_def blank_arguments_def)
    (simp add: sample_event_def)
qed

section \<open>Properties\<close>

text \<open>
  C7. The whole application. A poller built over the JSON-RPC client, the log parser on the
  in-memory contract store, the in-memory block store and the in-memory registry, against a node
  that answers the HTTP requests with JSON that decodes to the blocks of a hash-linked chain and to
  their logs at the requested addresses, of which the watched ones have contracts that decode them: one tick
  brings the store from block \<open>k\<close> to the head \<open>m\<close>, as the one-block specification says, and hands each
  block and each log at a configured or registered address, with what the parser decodes from it,
  to the application once.
\<close>

theorem full_stack_tick:
  assumes "stack_poller c lib cfg h sched = Ret ecp" and "node_serves c Jn chain logs m"
    and "\<And>n. 0 < n \<Longrightarrow> n < m \<Longrightarrow> eb_ParentHash (chain (n + 1)) = eb_Hash (chain n)"
    and "handler_accepts h (stack_inv Jn ks rs)"
    and "int (card (stack_watched cfg rs)) +
      sint (effective_chunk_size (cfg_MaxAddressesPerLogsRequest (apply_defaults cfg))) \<le> 2 ^ 63"
    and "\<And>n l. 0 < n \<Longrightarrow> n \<le> m \<Longrightarrow> l \<in> set (logs n) \<Longrightarrow> log_address l \<in> stack_watched cfg rs \<Longrightarrow>
      \<exists>d. DecodeLog lib in_memory_contract_store ks None l = Ret (d, None)"
    and "m < - 1" and "0 < k" and "k \<le> m" and "mem_opened (w_store w)"
    and "stack_inv Jn ks rs (w_env w)" and "mem_cursor (w_store w) (cfg_ChainId cfg) = Some k"
    and "mem_stored (w_store w) (cfg_ChainId cfg) k = Some (record_of (chain k) (cfg_ChainId cfg))"
  shows "\<exists>w' cs. processNextBlock ecp w = Some (Ret (), w') \<and>
    mem_cursor (w_store w') (cfg_ChainId cfg) = Some m \<and>
    mem_stored (w_store w') (cfg_ChainId cfg) =
      fold (spec_index (cfg_BlockHistorySize (apply_defaults cfg)) (cfg_ChainId cfg))
        (map chain (up k m)) (mem_stored (w_store w) (cfg_ChainId cfg)) \<and>
    w_calls w' = w_calls w @ cs \<and>
    index_calls (cfg_ChainId cfg) (stack_watched cfg rs) logs (decoded lib ks) (map chain (up k m)) cs"
proof -
  note fields = stack_poller_fields [OF assms(1)]
  have works: "works ecp (stack_inv Jn ks rs) chain logs (stack_watched cfg rs) m"
    by (rule stack_works [OF assms(1-5)])
  have h: "healthy ecp (stack_inv Jn ks rs) chain logs (decoded lib ks) (stack_watched cfg rs) m"
    by (rule stack_healthy [OF assms(1) works assms(6)])
  have number: "br_Number (record_of (chain k) (cfg_ChainId cfg)) = k"
    using worksD(1) [OF works] by (simp add: serves_blocks_def record_of_def)
  have link: "br_Hash (record_of (chain k) (cfg_ChainId cfg)) = eb_ParentHash (chain (k + 1))"
    if "k < m" using assms(3) [OF assms(8) that] by (simp add: record_of_def)
  obtain w' where "processNextBlock ecp w = Some (Ret (), w')"
    "mem.indexed ecp chain logs (decoded lib ks) (stack_watched cfg rs) k m w w'"
    using mem.processNextBlock_healthy [OF fields(4) h assms(7,9-11), unfolded fields(3) apply_defaults_keeps,
        OF assms(12,13) number link] by blast
  then show ?thesis
    using assms(12) by (intro exI [of _ w']) (auto simp: mem.indexed_def Let_def fields(3))
qed

theorem full_stack_tick_witness:
  "\<exists>w' cs. processNextBlock sample_stack_poller (stack_world sample_contract_store two_done) =
      Some (Ret (), w') \<and>
    mem_cursor (w_store w') 1 = Some 5 \<and> w_calls w' = cs \<and>
    index_calls 1 {''0xaa''} sample_logs (decoded sample_abi_lib sample_contract_store)
      (map sample_block (up 2 5)) cs"
proof -
  have cfg: "cfg_ChainId sample_config = 1" by (simp add: sample_config_def)
  have rec: "mem_stored two_done 1 2 = Some (record_of (sample_block 2) 1)" by (simp add: canon_def)
  show ?thesis
    using full_stack_tick [OF sample_stack_poller sample_node_serves _ quiet_handler_accepts
        sample_stack_size, unfolded sample_stack_watched cfg, of sample_contract_store 2
        "stack_world sample_contract_store two_done"] rec
    by (auto simp: sample_stack_decodes simp del: two_done_facts(3))
qed

text \<open>
  C27. The application watches what is configured and registered. After any sequence of registrations and
  removals on the registry, the addresses the poller lists for its next log requests are the configured ones
  in lower case, empty ones left out, and those of the set that the sequence specifies, each once: a
  registered address is watched from the next block on in whatever spelling, a removed one is not, unless it
  is configured.
\<close>

theorem watched_follows_registry:
  assumes "stack_poller c lib cfg h sched = Ret ecp"
    and "st_registry e = fold (registry_step in_memory_contract_registry) ops NewInMemoryContractRegistry"
  shows "set (listAllInterestingContracts ecp e) =
      ToLower ` (set (cfg_InterestingContracts cfg) - {[]}) \<union> fold set_step ops {} \<and>
    distinct (listAllInterestingContracts ecp e)"
proof -
  have "set (ListRegistered in_memory_contract_registry NewInMemoryContractRegistry) = {}"
    by (simp add: registry_defs NewInMemoryContractRegistry_def)
  then have "set (ListRegistered in_memory_contract_registry (st_registry e)) = fold set_step ops {}"
    using icr.run_refines [OF registry_inv_new, of ops] assms(2) by simp
  then show ?thesis
    by (simp add: watched_def stack_poller_fields [OF assms(1)] stack_registry_def)
qed

theorem watched_follows_registry_witness:
  "set (listAllInterestingContracts sample_stack_poller
     \<lparr>st_net = (), st_contracts = sample_contract_store, st_registry =
        fold (registry_step in_memory_contract_registry) [Register [] [''0xB'', ''0xC''], Unregister [''0xb'']]
          NewInMemoryContractRegistry, st_app = ()\<rparr>) = {''0xaa'', ''0xc''}"
proof -
  have "ToLower ''0xAA'' = ''0xaa''" "ToLower ''0xB'' = ''0xb''" "ToLower ''0xC'' = ''0xc''" "ToLower ''0xb'' = ''0xb''"
    by code_simp+
  moreover have "set (cfg_InterestingContracts sample_config) - {[]} = {''0xAA''}"
    by (auto simp: sample_config_def)
  ultimately show ?thesis
    using watched_follows_registry [OF sample_stack_poller, of "\<lparr>st_net = (), st_contracts = sample_contract_store,
        st_registry = fold (registry_step in_memory_contract_registry)
          [Register [] [''0xB'', ''0xC''], Unregister [''0xb'']] NewInMemoryContractRegistry, st_app = ()\<rparr>"
        "[Register [] [''0xB'', ''0xC''], Unregister [''0xb'']]"]
    by auto
qed

text \<open>The store of a new process, around which everything else is as the environment has it.\<close>

definition new_process :: "'e \<Rightarrow> (InMemoryChainPollerPersistence, 'e) world" where
  "new_process e = \<lparr>w_store = NewInMemoryChainPollerPersistence, w_env = e, w_calls = []\<rparr>"

lemma new_process_simps [simp]:
  "w_store (new_process e) = NewInMemoryChainPollerPersistence" "w_env (new_process e) = e"
  "w_calls (new_process e) = []"
  by (simp_all add: new_process_def)

text \<open>
  C21. One log without a contract stops the application. Let block \<open>k + 1\<close> have a log at a watched address
  for which the contract store has no contract, and let the other watched logs up to that block decode or
  have no contract either. The tick that sets out from block \<open>k\<close> panics and the process ends, with the
  records of the chain as they were. The store ends with it. A new process starts normally on an empty store. With a
  first block configured, at most \<open>k\<close>, it begins there, and its first tick panics again, with no block after \<open>k\<close>
  recorded: the application never gets past block \<open>k + 1\<close>. Without one
  the start records the head \<open>m\<close> as the block processed last and calls no handler: the blocks from \<open>k + 1\<close> up
  to the head are left out.
\<close>

theorem unknown_contract_crashes:
  assumes "stack_poller c lib cfg h sched = Ret ecp" and "node_serves c Jn chain logs m"
    and "\<And>n. 0 < n \<Longrightarrow> n < m \<Longrightarrow> eb_ParentHash (chain (n + 1)) = eb_Hash (chain n)"
    and "handler_accepts h (stack_inv Jn ks rs)"
    and "int (card (stack_watched cfg rs)) +
      sint (effective_chunk_size (cfg_MaxAddressesPerLogsRequest (apply_defaults cfg))) \<le> 2 ^ 63"
    and "m < - 1" and "0 < k" and "k < m" and "0 < sint (cfg_PollingInterval cfg)"
    and "cfg_GenesisBlockNumber cfg \<le> k"
    and "l \<in> set (logs (k + 1))" and "log_address l \<in> stack_watched cfg rs"
    and "unknown_address ks (log_address l)"
    and "\<And>n l. 0 < n \<Longrightarrow> n \<le> k + 1 \<Longrightarrow> l \<in> set (logs n) \<Longrightarrow> log_address l \<in> stack_watched cfg rs \<Longrightarrow>
      \<not> unknown_address ks (log_address l) \<Longrightarrow>
      \<exists>d. DecodeLog lib in_memory_contract_store ks None l = Ret (d, None)"
    and "mem_opened (w_store w)" and "stack_inv Jn ks rs (w_env w)"
    and "mem_cursor (w_store w) (cfg_ChainId cfg) = Some k"
    and "mem_stored (w_store w) (cfg_ChainId cfg) k = Some (record_of (chain k) (cfg_ChainId cfg))"
    and "stack_inv Jn ks rs e"
  shows "(\<exists>w'. pollForBlocks ecp (Running, w) (Crashed, w') \<and>
      mem_cursor (w_store w') (cfg_ChainId cfg) = Some k \<and>
      mem_stored (w_store w') (cfg_ChainId cfg) = mem_stored (w_store w) (cfg_ChainId cfg)) \<and>
    (\<exists>w1. Start ecp (new_process e) = (Ret None, w1) \<and> w_calls w1 = [] \<and>
      (if 0 < cfg_GenesisBlockNumber cfg
       then mem_cursor (w_store w1) (cfg_ChainId cfg) = Some (cfg_GenesisBlockNumber cfg) \<and>
         (\<exists>w2 i. pollForBlocks ecp (Running, w1) (Crashed, w2) \<and>
           mem_cursor (w_store w2) (cfg_ChainId cfg) = Some i \<and> i \<le> k \<and>
           (\<forall>n. k < n \<longrightarrow> mem_stored (w_store w2) (cfg_ChainId cfg) n = None))
       else mem_cursor (w_store w1) (cfg_ChainId cfg) = Some m \<and>
         mem_stored (w_store w1) (cfg_ChainId cfg) = [m \<mapsto> record_of (chain m) (cfg_ChainId cfg)]))"
proof -
  note fields = stack_poller_fields [OF assms(1)]
  let ?J = "stack_inv Jn ks rs" and ?W = "stack_watched cfg rs" and ?c = "cfg_ChainId cfg"
  let ?H = "cfg_BlockHistorySize (ecp_config ecp)"
  have works: "works ecp ?J chain logs ?W m" by (rule stack_works [OF assms(1-5)])
  have parse: "ParseLog (ecp_logParser ecp) l e = (DecodeLog lib in_memory_contract_store ks None l, e)"
    if "?J e" for l e
    using that by (simp add: fields(2) stack_parser_def NewTransactionLogParser_def stack_inv_def)
  have bad: "panics_on (ecp_logParser ecp) ?J l"
    using DecodeLog_unknown [OF assms(13), of lib] parse by (fastforce simp: panics_on_def)
  have fine: "decodes_or_panics (ecp_logParser ecp) ?J l"
    if "0 < n" "n \<le> k + 1" "l \<in> set (logs n)" "log_address l \<in> ?W" for n l
    using assms(14) [OF that] DecodeLog_unknown [of ks _ lib] parse unfolding decodes_or_panics_def by metis
  have c: "?c = cfg_ChainId (ecp_config ecp)" by (simp add: fields(3))
  have s: "unat (k + 1) = Suc (unat k)" by (rule unat_Suc_less_max [OF less_trans [OF assms(8,6)]])
  have le: "i \<le> k \<longleftrightarrow> i < k + 1" for i using s by (auto simp: word_le_nat_alt word_less_nat_alt)
  have top: "k + 1 \<le> m" using s assms(8) by (simp add: word_le_nat_alt word_less_nat_alt)
  have crash: "\<exists>w' i. pollForBlocks ecp (Running, v) (Crashed, w') \<and> j \<le> i \<and> i \<le> k \<and>
      mem.indexed_to ?H ?c chain j (mem_stored (w_store v) ?c) i (w_store w')"
    if v: "0 < j" "j \<le> k" "mem_opened (w_store v)" "?J (w_env v)" "mem_cursor (w_store v) ?c = Some j"
      "mem_stored (w_store v) ?c j = Some (record_of (chain j) ?c)" for v j
  proof -
    have "\<forall>n l. j < n \<longrightarrow> n \<le> k + 1 \<longrightarrow> l \<in> set (logs n) \<longrightarrow> log_address l \<in> ?W \<longrightarrow>
        decodes_or_panics (ecp_logParser ecp) ?J l"
      using fine less_trans [OF v(1)] by blast
    from mem.poisoned_tick [where t = "k + 1" and l = l, OF fields(4) c refl works assms(6) v(1) this assms(11,12)
        bad v(2) [unfolded le] top v(3,4,5,6)]
    obtain p w' i where "processNextBlock ecp v = Some (Panic p, w')" "j \<le> i" "i < k + 1"
      "mem.indexed_to ?H ?c chain j (mem_stored (w_store v) ?c) i (w_store w')" by blast
    moreover from this(1) have "pollForBlocks ecp (Running, v) (Crashed, w')"
      by (rule pollForBlocks.crash) (simp add: fields(3) assms(9))
    ultimately show ?thesis using le [of i] by (intro exI [of _ w'] exI [of _ i]) simp
  qed
  obtain w' i where "pollForBlocks ecp (Running, w) (Crashed, w')" "k \<le> i" "i \<le> k"
    "mem.indexed_to ?H ?c chain k (mem_stored (w_store w) ?c) i (w_store w')"
    using crash [OF assms(7) order_refl assms(15-18)] by blast
  then have first: "\<exists>w'. pollForBlocks ecp (Running, w) (Crashed, w') \<and> mem_cursor (w_store w') ?c = Some k \<and>
      mem_stored (w_store w') ?c = mem_stored (w_store w) ?c"
    by (auto simp: mem.indexed_to_def)
  define g where "g = (if cfg_GenesisBlockNumber cfg > 0 then cfg_GenesisBlockNumber cfg else m)"
  have g: "g = (if cfg_GenesisBlockNumber (ecp_config ecp) > 0 then cfg_GenesisBlockNumber (ecp_config ecp) else m)"
    "0 < g" "g \<le> m"
    using assms(7,8,10) by (auto simp: g_def fields(3))
  obtain w1 where w1: "Start ecp (new_process e) = (Ret None, w1)" "w_calls w1 = []" "?J (w_env w1)"
    "mem_opened (w_store w1)" "mem_cursor (w_store w1) ?c = Some g"
    "mem_stored (w_store w1) ?c = [g \<mapsto> record_of (chain g) ?c]"
    by (rule mem.Start_reseeds [where w = "new_process e" and n = g, OF fields(4) c works _ _ _ g])
      (use assms(19) in \<open>simp_all add: bind_eq_None_conv\<close>)
  have "\<exists>w2 i. pollForBlocks ecp (Running, w1) (Crashed, w2) \<and> mem_cursor (w_store w2) ?c = Some i \<and>
      i \<le> k \<and> (\<forall>n. k < n \<longrightarrow> mem_stored (w_store w2) ?c n = None)"
    if pos: "0 < cfg_GenesisBlockNumber cfg"
  proof -
    have gk: "g \<le> k" using pos assms(10) by (simp add: g_def)
    obtain w2 i where w2: "pollForBlocks ecp (Running, w1) (Crashed, w2)" "g \<le> i" "i \<le> k"
      "mem.indexed_to ?H ?c chain g (mem_stored (w_store w1) ?c) i (w_store w2)"
      using crash [OF g(2) gk w1(4,3,5)] w1(6) by auto
    have "mem_stored (w_store w2) ?c n = None" if "k < n" for n
    proof -
      have "\<And>n. eb_Number (chain n) = n" using worksD(1) [OF works] by (simp add: serves_blocks_def)
      then show ?thesis
        using w2(2-4) that gk w1(6) index_history [of chain g i ?H ?c "mem_stored (w_store w1) ?c" n]
        by (auto simp: mem.indexed_to_def)
    qed
    with w2 show ?thesis by (auto simp: mem.indexed_to_def)
  qed
  with first w1 show ?thesis by (auto simp: g_def)
qed

theorem unknown_contract_crashes_witness:
  "\<exists>w1 w2 i. Start sample_stack_poller (new_process (w_env (stack_world (NewInMemoryContractStore []) two_done))) =
      (Ret None, w1) \<and>
    pollForBlocks sample_stack_poller (Running, w1) (Crashed, w2) \<and>
    mem_cursor (w_store w2) 1 = Some i \<and> i \<le> 2 \<and> mem_stored (w_store w2) 1 3 = None"
proof -
  have cfg: "cfg_ChainId sample_config = 1" "cfg_GenesisBlockNumber sample_config = 1"
    "cfg_PollingInterval sample_config = 1" by (simp_all add: sample_config_def)
  have unknown: "unknown_address (NewInMemoryContractStore []) a" for a
    by (simp add: unknown_address_def NewInMemoryContractStore_def)
  have rec: "mem_stored two_done 1 2 = Some (record_of (sample_block 2) 1)" by (simp add: canon_def)
  have l: "Some (zero_log\<lparr>el_Address := ''0xaa''\<rparr>) \<in> set (sample_logs (2 + 1))"
    "log_address (Some (zero_log\<lparr>el_Address := ''0xaa''\<rparr>)) \<in> {''0xaa''}"
    by (simp_all add: sample_logs_def log_address_def)
  let ?w = "stack_world (NewInMemoryContractStore []) two_done"
  show ?thesis
    using unknown_contract_crashes [where k = 2 and w = ?w and e = "w_env ?w" and ks = "NewInMemoryContractStore []",
        OF sample_stack_poller sample_node_serves _ quiet_handler_accepts sample_stack_size,
        unfolded sample_stack_watched cfg, OF _ _ _ _ _ _ l unknown] rec unknown
    by (simp del: two_done_facts(3)) fastforce
qed

end
