(* ===== verification/Store_Suite.thy ===== *)
theory Store_Suite
  imports Persistence
begin

text \<open>
  The compliance suite that every store must pass,
  \<^verbatim>\<open>pkg/chainPollers/persistence/test_suite.go\<close>, as executable checks on a store, and the proof that a
  store that keeps the contract \<open>persistence\<close> passes it from any opened state without records, in
  whatever order its goroutines are scheduled.
\<close>

section \<open>Checks\<close>

definition suite_record :: "uint64 \<Rightarrow> string \<Rightarrow> string \<Rightarrow> uint64 \<Rightarrow> ChainId \<Rightarrow> BlockRecord" where
  "suite_record number hash parent timestamp chainId =
     \<lparr>br_Number = number, br_Hash = hash, br_ParentHash = parent, br_Timestamp = timestamp,
      br_ChainId = chainId\<rparr>"

text \<open>\<^verbatim>\<open>require.NoError\<close> of a save; \<^verbatim>\<open>assert.ErrorIs\<close> of a save.\<close>

definition expect_saved :: "'s IChainPollerPersistence \<Rightarrow> BlockRecord \<Rightarrow> 's \<Rightarrow> bool \<times> 's" where
  "expect_saved P b s = (let (e, s') = SaveBlock P (Some b) s in (e = None, s'))"

definition expect_save_error ::
  "'s IChainPollerPersistence \<Rightarrow> BlockRecord \<Rightarrow> error \<Rightarrow> 's \<Rightarrow> bool \<times> 's" where
  "expect_save_error P b target s =
     (let (e, s') = SaveBlock P (Some b) s
      in (case e of None \<Rightarrow> False | Some err \<Rightarrow> errors_Is err target, s'))"

text \<open>The last processed block has a given number, or reading it fails with a given error.\<close>

definition expect_last :: "'s IChainPollerPersistence \<Rightarrow> ChainId \<Rightarrow> uint64 \<Rightarrow> 's \<Rightarrow> bool \<times> 's" where
  "expect_last P c number s =
     (let (res, s') = GetLastProcessedBlock P c s
      in (case res of Inr (Some r) \<Rightarrow> br_Number r = number | _ \<Rightarrow> False, s'))"

definition expect_last_error :: "'s IChainPollerPersistence \<Rightarrow> ChainId \<Rightarrow> error \<Rightarrow> 's \<Rightarrow> bool \<times> 's" where
  "expect_last_error P c target s =
     (let (res, s') = GetLastProcessedBlock P c s
      in (case res of Inl err \<Rightarrow> errors_Is err target | Inr _ \<Rightarrow> False, s'))"

definition expect_closed :: "'s IChainPollerPersistence \<Rightarrow> 's \<Rightarrow> bool \<times> 's" where
  "expect_closed P s = (let (e, s') = Close P s in (e = None, s'))"

text \<open>A test: all its checks, in order.\<close>

fun all_checks :: "('s \<Rightarrow> bool \<times> 's) list \<Rightarrow> 's \<Rightarrow> bool" where
  "all_checks [] s = True"
| "all_checks (k # ks) s = (let (ok, s') = k s in ok \<and> all_checks ks s')"

section \<open>The tests\<close>

definition testChainPollingState :: "'s IChainPollerPersistence \<Rightarrow> 's \<Rightarrow> bool" where
  "testChainPollingState P =
     all_checks
       [expect_last_error P 1 ErrNotFound,
        expect_saved P (suite_record 12345 ''0xhash12345'' ''0xparent12344'' 1234567890 1),
        expect_last P 1 12345,
        expect_saved P (suite_record 12346 ''0xhash12346'' ''0xhash12345'' 1234567891 1),
        expect_last P 1 12346,
        expect_saved P (suite_record 54321 ''0xhash54321'' ''0xparent54320'' 1234567892 2),
        expect_last P 2 54321,
        expect_last P 1 12346,
        expect_saved P (suite_record 99999 ''0xhash99999'' ''0xparent99998'' 1234567893 1),
        expect_last P 1 99999,
        expect_last P 2 54321]"

definition testLifecycle :: "'s IChainPollerPersistence \<Rightarrow> 's \<Rightarrow> bool" where
  "testLifecycle P =
     all_checks
       [expect_saved P (suite_record 12345 ''0xhash12345'' ''0xparent12344'' 1234567890 1),
        expect_closed P,
        expect_save_error P (suite_record 12346 ''0xhash12346'' ''0xhash12345'' 1234567891 1) ErrStoreClosed,
        expect_last_error P 1 ErrStoreClosed]"

text \<open>
  The concurrent test: five writers save the blocks 0 to 9 of their own chain, five readers read
  the last processed block. The steps of the ten goroutines are interleaved in some order; each
  is atomic in the store.
\<close>

datatype suite_step = Write ChainId nat | Read ChainId

definition show_int :: "int \<Rightarrow> string" where
  "show_int i = (if i < 0 then CHR ''-'' # show_nat (nat (- i)) else show_nat (nat i))"

definition concurrent_record :: "ChainId \<Rightarrow> nat \<Rightarrow> BlockRecord" where
  "concurrent_record c j =
     suite_record (word_of_nat j)
       (''0xhash'' @ show_nat (unat c) @ ''_'' @ show_nat j)
       (''0xparent'' @ show_nat (unat c) @ ''_'' @ show_int (int j - 1))
       (word_of_nat (1234567890 + j)) c"

fun suite_step_run :: "'s IChainPollerPersistence \<Rightarrow> suite_step \<Rightarrow> 's \<Rightarrow> error option \<times> 's" where
  "suite_step_run P (Write c j) s = SaveBlock P (Some (concurrent_record c j)) s"
| "suite_step_run P (Read c) s =
     (case GetLastProcessedBlock P c s of
        (Inl err, s') \<Rightarrow> (if err \<noteq> ErrNotFound then Some err else None, s')
      | (Inr _, s') \<Rightarrow> (None, s'))"

text \<open>The goroutines of the test, and the schedules of their steps.\<close>

definition goroutines :: "suite_step list list" where
  "goroutines =
     map (\<lambda>i. map (Write (word_of_nat i)) [0..<10]) [0..<5] @
     map (\<lambda>i. replicate 10 (Read (word_of_nat i))) [0..<5]"

inductive interleaved :: "'a list list \<Rightarrow> 'a list \<Rightarrow> bool" where
  interleaved_done: "(\<forall>g \<in> set gs. g = []) \<Longrightarrow> interleaved gs []"
| interleaved_step: "i < length gs \<Longrightarrow> gs ! i = x # rest \<Longrightarrow> interleaved (gs[i := rest]) xs \<Longrightarrow>
    interleaved gs (x # xs)"

fun run_steps :: "'s IChainPollerPersistence \<Rightarrow> suite_step list \<Rightarrow> 's \<Rightarrow> error list \<times> 's" where
  "run_steps P [] s = ([], s)"
| "run_steps P (x # xs) s =
     (let (e, s') = suite_step_run P x s; (es, s'') = run_steps P xs s'
      in (case e of None \<Rightarrow> es | Some err \<Rightarrow> err # es, s''))"

definition testConcurrentAccess :: "'s IChainPollerPersistence \<Rightarrow> suite_step list \<Rightarrow> 's \<Rightarrow> bool" where
  "testConcurrentAccess P schedule s = (fst (run_steps P schedule s) = [])"

text \<open>
  The suite of a store constructor: each of the three tests makes a store of its own, and fails when
  that fails.
\<close>

record 's TestSuite =
  NewStore :: "error + 's IChainPollerPersistence \<times> 's"

definition with_new_store :: "'s TestSuite \<Rightarrow> ('s IChainPollerPersistence \<Rightarrow> 's \<Rightarrow> bool) \<Rightarrow> bool" where
  "with_new_store suite test = (case NewStore suite of Inl err \<Rightarrow> False | Inr (store, s) \<Rightarrow> test store s)"

definition TestSuite_Run :: "'s TestSuite \<Rightarrow> suite_step list \<Rightarrow> bool" where
  "TestSuite_Run suite schedule \<longleftrightarrow>
     with_new_store suite testChainPollingState \<and> with_new_store suite testLifecycle \<and>
     with_new_store suite (\<lambda>store. testConcurrentAccess store schedule)"

section \<open>Schedules\<close>

text \<open>The blocks a step list writes to a chain, in order.\<close>

definition writes_to :: "ChainId \<Rightarrow> suite_step list \<Rightarrow> nat list" where
  "writes_to c xs = [j. Write c' j \<leftarrow> xs, c' = c]"

definition is_write :: "ChainId \<Rightarrow> suite_step \<Rightarrow> bool" where
  "is_write c x = (case x of Write c' j \<Rightarrow> c' = c | Read c' \<Rightarrow> False)"

lemma writes_to_filter: "writes_to c (filter (is_write c) xs) = writes_to c xs"
proof (induction xs)
  case Nil
  then show ?case by simp
next
  case (Cons x xs)
  then show ?case by (cases x) (auto simp: writes_to_def is_write_def)
qed

text \<open>Steps that only one goroutine makes keep their order.\<close>

lemma interleaved_filter:
  "interleaved gs xs \<Longrightarrow> k < length gs \<Longrightarrow> (\<forall>j < length gs. j \<noteq> k \<longrightarrow> filter Q (gs ! j) = []) \<Longrightarrow>
     filter Q xs = filter Q (gs ! k)"
proof (induction arbitrary: rule: interleaved.induct)
  case (interleaved_done gs)
  then show ?case by (metis filter.simps(1) nth_mem)
next
  case (interleaved_step i gs x rest xs)
  have "filter Q xs = filter Q (gs[i := rest] ! k)"
  proof (rule interleaved_step.IH)
    show "k < length (gs[i := rest])" using interleaved_step.prems(1) by simp
    show "\<forall>j < length (gs[i := rest]). j \<noteq> k \<longrightarrow> filter Q (gs[i := rest] ! j) = []"
    proof (intro allI impI)
      fix j assume j: "j < length (gs[i := rest])" "j \<noteq> k"
      then have "filter Q (gs ! j) = []" using interleaved_step.prems(2) by simp
      then show "filter Q (gs[i := rest] ! j) = []"
        using interleaved_step.hyps(1,2) by (cases "j = i") (auto split: if_splits)
    qed
  qed
  moreover have "\<not> Q x" if "i \<noteq> k"
    using interleaved_step.prems(2) interleaved_step.hyps(1,2) that by (metis filter.simps(2) list.distinct(1))
  ultimately show ?case using interleaved_step.hyps(1,2) by (cases "i = k") auto
qed

text \<open>Running the goroutines one after the other is a schedule.\<close>

lemma interleaved_concat_from:
  "\<forall>g \<in> set es. g = [] \<Longrightarrow> interleaved (es @ gs) (concat gs)"
proof (induction gs arbitrary: es)
  case Nil
  then show ?case by (simp add: interleaved_done)
next
  case (Cons g gs)
  show ?case
  proof (induction g)
    case Nil
    then show ?case using Cons.IH [of "es @ [[]]"] Cons.prems by simp
  next
    case (Cons x g)
    then show ?case
      by (simp, intro interleaved_step [where i = "length es"]) simp_all
  qed
qed

lemma interleaved_concat: "interleaved gs (concat gs)"
  using interleaved_concat_from [of "[]" gs] by simp

lemma goroutines_writes:
  assumes "interleaved goroutines xs" "i < 5"
  shows "writes_to (word_of_nat i) xs = [0..<10]"
proof -
  let ?c = "word_of_nat i :: ChainId"
  have inj: "(word_of_nat j :: ChainId) = ?c \<longleftrightarrow> j = i" if "j < 5" for j
  proof -
    have "unat (word_of_nat j :: ChainId) = j" "unat ?c = i"
      using that assms(2) by (simp_all add: unat_word_of_nat_small)
    then show ?thesis by metis
  qed
  have len: "length goroutines = 10" by (simp add: goroutines_def)
  have nth: "goroutines ! j = (if j < 5 then map (Write (word_of_nat j)) [0..<10]
      else replicate 10 (Read (word_of_nat (j - 5))))" if "j < 10" for j
    using that by (simp add: goroutines_def nth_append)
  have none: "filter (is_write ?c) (goroutines ! j) = []" if "j < length goroutines" "j \<noteq> i" for j
    using that inj [of j] unfolding len
    by (auto simp: nth is_write_def filter_empty_conv simp del: upt_rec_numeral)
  have "filter (is_write ?c) xs = filter (is_write ?c) (goroutines ! i)"
    using none assms(2) len by (intro interleaved_filter [OF assms(1)]) auto
  then have "writes_to ?c xs = writes_to ?c (goroutines ! i)"
    by (metis writes_to_filter)
  also have "\<dots> = [0..<10]"
    using assms(2) by (simp add: nth writes_to_def del: upt_rec_numeral) (simp add: comp_def)
  finally show ?thesis .
qed

section \<open>A store that keeps the contract passes\<close>

context persistence
begin

definition last_block :: "'s \<Rightarrow> ChainId \<Rightarrow> BlockRecord option" where
  "last_block s c = Option.bind (cursor s c) (stored s c)"

lemma expect_saved_eq:
  assumes "opened s"
  obtains s' where "expect_saved P b s = (True, s')" "opened s'"
    "last_block s' = (last_block s)(br_ChainId b \<mapsto> b)"
proof -
  obtain s' where "SaveBlock P (Some b) s = (None, s')" "opened s'"
    "stored s' = (stored s)(br_ChainId b := (stored s (br_ChainId b))(br_Number b \<mapsto> b))"
    "cursor s' = (cursor s)(br_ChainId b \<mapsto> br_Number b)"
    by (rule saveE [OF assms])
  moreover from this have "last_block s' c = ((last_block s)(br_ChainId b \<mapsto> b)) c" for c
    by (simp add: last_block_def)
  ultimately show thesis by (intro that [of s']) (simp_all add: expect_saved_def fun_eq_iff)
qed

lemma expect_last_eq:
  "opened s \<Longrightarrow> expect_last P c n s =
     (case last_block s c of None \<Rightarrow> False | Some r \<Rightarrow> br_Number r = n, s)"
  by (simp add: expect_last_def last_law last_block_def split: option.split)

text \<open>A save at the head of a list of checks.\<close>

lemma all_checks_save:
  assumes "opened s"
    and "\<And>s'. opened s' \<Longrightarrow> last_block s' = (last_block s)(br_ChainId b \<mapsto> b) \<Longrightarrow> all_checks ks s'"
  shows "all_checks (expect_saved P b # ks) s"
  by (rule expect_saved_eq [OF assms(1), of b]) (simp add: assms(2))

lemma all_checks_last:
  assumes "opened s" "case last_block s c of None \<Rightarrow> False | Some r \<Rightarrow> br_Number r = n" "all_checks ks s"
  shows "all_checks (expect_last P c n # ks) s"
  using assms by (simp add: expect_last_eq)

lemma suite_state:
  assumes op: "opened s" and fresh: "Option.bind (cursor s 1) (stored s 1) = None"
  shows "testChainPollingState P s"
proof -
  have first: "all_checks (expect_last_error P 1 ErrNotFound # ks) s = all_checks ks s" for ks
    using op fresh by (simp add: expect_last_error_def last_law)
  show ?thesis
    unfolding testChainPollingState_def first
    by (intro all_checks_save all_checks_last op) (simp_all add: suite_record_def)
qed

lemma suite_lifecycle:
  assumes "opened s"
  shows "testLifecycle P s"
proof -
  obtain s1 where s1: "expect_saved P (suite_record 12345 ''0xhash12345'' ''0xparent12344'' 1234567890 1) s =
      (True, s1)" "opened s1" by (rule expect_saved_eq [OF assms]) blast
  obtain s2 where "Close P s1 = (None, s2)" "\<not> opened s2" using close_law [OF s1(2)] by blast
  with s1 show ?thesis
    by (simp add: testLifecycle_def expect_closed_def expect_save_error_def expect_last_error_def closed_law)
qed

lemma suite_step_ok:
  assumes "opened s"
  obtains s' where "suite_step_run P x s = (None, s')" "opened s'"
proof (cases x)
  case (Write c j)
  then show thesis using that saveE [OF assms, of "concurrent_record c j"] by (metis suite_step_run.simps(1))
next
  case (Read c)
  then have "suite_step_run P x s = (None, s)" using assms by (simp add: last_law split: option.split)
  with that assms show thesis by blast
qed

text \<open>No schedule makes a step fail.\<close>

lemma suite_concurrent: "opened s \<Longrightarrow> testConcurrentAccess P schedule s"
proof -
  have "opened s \<Longrightarrow> fst (run_steps P schedule s) = []"
  proof (induction schedule arbitrary: s)
    case Nil
    then show ?case by simp
  next
    case (Cons x xs)
    obtain s' where "suite_step_run P x s = (None, s')" "opened s'"
      by (rule suite_step_ok [OF Cons.prems])
    with Cons.IH [of s'] show ?case by (auto split: prod.split)
  qed
  then show "opened s \<Longrightarrow> testConcurrentAccess P schedule s" by (simp add: testConcurrentAccess_def)
qed

text \<open>After any schedule, the last block saved on a chain is the last one written there.\<close>

lemma run_steps_last:
  assumes "opened s" "writes_to c xs \<noteq> []"
  shows "fst (GetLastProcessedBlock P c (snd (run_steps P xs s))) =
    Inr (Some (concurrent_record c (last (writes_to c xs))))"
proof -
  have gen: "opened s \<Longrightarrow> opened (snd (run_steps P xs s)) \<and>
      (writes_to c xs = [] \<longrightarrow> cursor (snd (run_steps P xs s)) c = cursor s c \<and>
         stored (snd (run_steps P xs s)) c = stored s c) \<and>
      (writes_to c xs \<noteq> [] \<longrightarrow>
         cursor (snd (run_steps P xs s)) c = Some (word_of_nat (last (writes_to c xs))) \<and>
         stored (snd (run_steps P xs s)) c (word_of_nat (last (writes_to c xs))) =
           Some (concurrent_record c (last (writes_to c xs))))" for s
  proof (induction xs arbitrary: s)
    case Nil
    then show ?case by (simp add: writes_to_def)
  next
    case (Cons x xs)
    show ?case
    proof (cases x)
      case (Write c' j)
      obtain s' where s': "SaveBlock P (Some (concurrent_record c' j)) s = (None, s')" "opened s'"
        "stored s' = (stored s)(c' := (stored s c')(word_of_nat j \<mapsto> concurrent_record c' j))"
        "cursor s' = (cursor s)(c' \<mapsto> word_of_nat j)"
        by (rule saveE [OF Cons.prems, of "concurrent_record c' j"])
          (simp add: concurrent_record_def suite_record_def)
      with Cons.IH [OF s'(2)] Write show ?thesis
        by (auto simp: writes_to_def split: prod.split)
    next
      case (Read c')
      then show ?thesis using Cons.IH [OF Cons.prems] Cons.prems
        by (auto simp: writes_to_def last_law split: prod.split option.split)
    qed
  qed
  from gen [OF assms(1)] assms(2) show ?thesis by (simp add: last_law)
qed

end

end
