(* ===== verification/Logger.thy ===== *)
theory Logger
  imports Prelude
begin

text \<open>
  The logger set-up and the HTTP logging middleware of \<^verbatim>\<open>pkg/logger/logger.go\<close>. zap is a
  parameter: its options are values of a type \<open>'o\<close>.
\<close>

section \<open>Merging options\<close>

text \<open>
  Go's \<^verbatim>\<open>copy(dst, src)\<close>: overwrites as many leading elements of the destination as the shorter
  slice has; the destination keeps its length.
\<close>

definition go_copy :: "'a list \<Rightarrow> 'a list \<Rightarrow> 'a list" where
  "go_copy dst src =
     (let n = min (length dst) (length src) in take n src @ drop n dst)"

definition mergedOptions :: "'o \<Rightarrow> 'o list \<Rightarrow> 'o list" where
  "mergedOptions withCaller options = go_copy [withCaller] options"

datatype log_level = DebugLevel | InfoLevel

record LoggerConfig =
  lc_Debug :: bool

text \<open>The level and the options the logger is built with.\<close>

definition NewLogger :: "'o \<Rightarrow> LoggerConfig \<Rightarrow> 'o list \<Rightarrow> log_level \<times> 'o list" where
  "NewLogger withCaller cfg options =
     (if lc_Debug cfg then DebugLevel else InfoLevel, mergedOptions withCaller options)"

lemma length_go_copy [simp]: "length (go_copy dst src) = length dst"
  by (simp add: go_copy_def Let_def)

lemma mergedOptions_eq: "mergedOptions c os = (case os of [] \<Rightarrow> [c] | o1 # _ \<Rightarrow> [o1])"
  by (simp add: mergedOptions_def go_copy_def split: list.split)

section \<open>The middleware\<close>

text \<open>The regular expression \<^verbatim>\<open>v1\/health$\<close> matches the strings with this ending.\<close>

definition healthRegex :: "string \<Rightarrow> bool" where
  "healthRegex path \<longleftrightarrow> suffix ''v1/health'' path"

definition readyRegex :: "string \<Rightarrow> bool" where
  "readyRegex path \<longleftrightarrow> suffix ''v1/ready'' path"

record http_log =
  hl_method :: string
  hl_path :: string

text \<open>The wrapped handler runs first; health and readiness probes are not logged.\<close>

definition HttpLoggerMiddleware ::
  "(string \<Rightarrow> string \<Rightarrow> 'e \<Rightarrow> 'e) \<Rightarrow> string \<Rightarrow> string \<Rightarrow> 'e \<times> http_log list \<Rightarrow> 'e \<times> http_log list" where
  "HttpLoggerMiddleware nextHandler method path st =
     (let e' = nextHandler method path (fst st) in
      if \<not> healthRegex path \<and> \<not> readyRegex path
      then (e', snd st @ [\<lparr>hl_method = method, hl_path = path\<rparr>])
      else (e', snd st))"

section \<open>Properties\<close>

text \<open>
  Options of the logger. The options passed to \<^verbatim>\<open>NewLogger\<close> are copied over the one default
  option: the first of them replaces it and all further ones are dropped, so that the logger is
  always built with exactly one option.
\<close>

lemma NewLogger_options:
  "NewLogger withCaller cfg options =
     (if lc_Debug cfg then DebugLevel else InfoLevel,
      case options of [] \<Rightarrow> [withCaller] | opt # _ \<Rightarrow> [opt])"
  by (simp add: NewLogger_def mergedOptions_eq)

end
