(* ===== verification/Bytecode_Hash.thy ===== *)
theory Bytecode_Hash
  imports Ethereum_Types Log_Parser
begin

text \<open>
  The hash of a contract's byte code, \<^verbatim>\<open>HashBytecode\<close> and \<^verbatim>\<open>GetBytecodeHash\<close> of
  \<^verbatim>\<open>pkg/clients/ethereum/types.go\<close>, with the two library functions they use: SHA-256
  (\<^verbatim>\<open>crypto/sha256\<close>, FIPS 180-4) on 32-bit words and the \<^verbatim>\<open>%x\<close> verb of \<^verbatim>\<open>fmt\<close>.
\<close>

unbundle bit_operations_syntax

section \<open>SHA-256\<close>

type_synonym word32 = "32 word"

record sha_state =
  sha_a :: word32
  sha_b :: word32
  sha_c :: word32
  sha_d :: word32
  sha_e :: word32
  sha_f :: word32
  sha_g :: word32
  sha_h :: word32

definition sha_init :: sha_state where
  "sha_init = \<lparr>sha_a = 0x6A09E667, sha_b = 0xBB67AE85, sha_c = 0x3C6EF372, sha_d = 0xA54FF53A,
     sha_e = 0x510E527F, sha_f = 0x9B05688C, sha_g = 0x1F83D9AB, sha_h = 0x5BE0CD19\<rparr>"

definition sha_K :: "word32 list" where
  "sha_K =
     [0x428A2F98, 0x71374491, 0xB5C0FBCF, 0xE9B5DBA5, 0x3956C25B, 0x59F111F1, 0x923F82A4, 0xAB1C5ED5,
      0xD807AA98, 0x12835B01, 0x243185BE, 0x550C7DC3, 0x72BE5D74, 0x80DEB1FE, 0x9BDC06A7, 0xC19BF174,
      0xE49B69C1, 0xEFBE4786, 0x0FC19DC6, 0x240CA1CC, 0x2DE92C6F, 0x4A7484AA, 0x5CB0A9DC, 0x76F988DA,
      0x983E5152, 0xA831C66D, 0xB00327C8, 0xBF597FC7, 0xC6E00BF3, 0xD5A79147, 0x06CA6351, 0x14292967,
      0x27B70A85, 0x2E1B2138, 0x4D2C6DFC, 0x53380D13, 0x650A7354, 0x766A0ABB, 0x81C2C92E, 0x92722C85,
      0xA2BFE8A1, 0xA81A664B, 0xC24B8B70, 0xC76C51A3, 0xD192E819, 0xD6990624, 0xF40E3585, 0x106AA070,
      0x19A4C116, 0x1E376C08, 0x2748774C, 0x34B0BCB5, 0x391C0CB3, 0x4ED8AA4A, 0x5B9CCA4F, 0x682E6FF3,
      0x748F82EE, 0x78A5636F, 0x84C87814, 0x8CC70208, 0x90BEFFFA, 0xA4506CEB, 0xBEF9A3F7, 0xC67178F2]"

text \<open>Rotation to the right.\<close>

definition rotr :: "nat \<Rightarrow> word32 \<Rightarrow> word32" where
  "rotr n x = drop_bit n x OR push_bit (32 - n) x"

definition sha_Sigma0 :: "word32 \<Rightarrow> word32" where
  "sha_Sigma0 x = rotr 2 x XOR rotr 13 x XOR rotr 22 x"

definition sha_Sigma1 :: "word32 \<Rightarrow> word32" where
  "sha_Sigma1 x = rotr 6 x XOR rotr 11 x XOR rotr 25 x"

definition sha_sigma0 :: "word32 \<Rightarrow> word32" where
  "sha_sigma0 x = rotr 7 x XOR rotr 18 x XOR drop_bit 3 x"

definition sha_sigma1 :: "word32 \<Rightarrow> word32" where
  "sha_sigma1 x = rotr 17 x XOR rotr 19 x XOR drop_bit 10 x"

definition sha_Ch :: "word32 \<Rightarrow> word32 \<Rightarrow> word32 \<Rightarrow> word32" where
  "sha_Ch x y z = (x AND y) XOR (NOT x AND z)"

definition sha_Maj :: "word32 \<Rightarrow> word32 \<Rightarrow> word32 \<Rightarrow> word32" where
  "sha_Maj x y z = (x AND y) XOR (x AND z) XOR (y AND z)"

text \<open>Big-endian words and bytes.\<close>

definition word_of_bytes :: "byte \<Rightarrow> byte \<Rightarrow> byte \<Rightarrow> byte \<Rightarrow> word32" where
  "word_of_bytes b0 b1 b2 b3 =
     push_bit 24 (ucast b0) OR push_bit 16 (ucast b1) OR push_bit 8 (ucast b2) OR ucast b3"

fun words_of_bytes :: "byte list \<Rightarrow> word32 list" where
  "words_of_bytes (b0 # b1 # b2 # b3 # bs) = word_of_bytes b0 b1 b2 b3 # words_of_bytes bs"
| "words_of_bytes _ = []"

definition bytes_of_word :: "word32 \<Rightarrow> byte list" where
  "bytes_of_word x = [ucast (drop_bit 24 x), ucast (drop_bit 16 x), ucast (drop_bit 8 x), ucast x]"

text \<open>
  Padding: a byte \<open>0x80\<close>, zero bytes up to 56 modulo 64, and the length in bits as eight
  bytes.
\<close>

definition sha_pad :: "byte list \<Rightarrow> byte list" where
  "sha_pad m =
     (let n = length m; len = (word_of_nat (8 * n) :: uint64) in
      m @ [0x80] @ replicate ((119 - n mod 64) mod 64) 0 @
      map (\<lambda>i. ucast (drop_bit (56 - 8 * i) len)) [0..<8])"

text \<open>The message schedule, extended by one word \<open>n\<close> times; the latest word is first.\<close>

fun sha_schedule :: "nat \<Rightarrow> word32 list \<Rightarrow> word32 list" where
  "sha_schedule 0 ws = ws"
| "sha_schedule (Suc n) ws =
     sha_schedule n ((sha_sigma1 (ws ! 1) + ws ! 6 + sha_sigma0 (ws ! 14) + ws ! 15) # ws)"

definition sha_round :: "word32 \<times> word32 \<Rightarrow> sha_state \<Rightarrow> sha_state" where
  "sha_round kw s =
     (let t1 = sha_h s + sha_Sigma1 (sha_e s) + sha_Ch (sha_e s) (sha_f s) (sha_g s) + fst kw + snd kw;
          t2 = sha_Sigma0 (sha_a s) + sha_Maj (sha_a s) (sha_b s) (sha_c s)
      in \<lparr>sha_a = t1 + t2, sha_b = sha_a s, sha_c = sha_b s, sha_d = sha_c s,
          sha_e = sha_d s + t1, sha_f = sha_e s, sha_g = sha_f s, sha_h = sha_g s\<rparr>)"

fun sha_rounds :: "(word32 \<times> word32) list \<Rightarrow> sha_state \<Rightarrow> sha_state" where
  "sha_rounds [] s = s"
| "sha_rounds (kw # kws) s = sha_rounds kws (sha_round kw s)"

definition sha_add :: "sha_state \<Rightarrow> sha_state \<Rightarrow> sha_state" where
  "sha_add s t = \<lparr>sha_a = sha_a s + sha_a t, sha_b = sha_b s + sha_b t, sha_c = sha_c s + sha_c t,
     sha_d = sha_d s + sha_d t, sha_e = sha_e s + sha_e t, sha_f = sha_f s + sha_f t,
     sha_g = sha_g s + sha_g t, sha_h = sha_h s + sha_h t\<rparr>"

definition sha_block :: "word32 list \<Rightarrow> sha_state \<Rightarrow> sha_state" where
  "sha_block ws s = sha_add s (sha_rounds (zip sha_K (rev (sha_schedule 48 (rev ws)))) s)"

function sha_blocks :: "word32 list \<Rightarrow> sha_state \<Rightarrow> sha_state" where
  "sha_blocks ws s = (if ws = [] then s else sha_blocks (drop 16 ws) (sha_block (take 16 ws) s))"
  by pat_completeness auto
termination
  by (relation "measure (\<lambda>(ws, s). length ws)") auto

declare sha_blocks.simps [simp del]

definition sha_digest :: "sha_state \<Rightarrow> byte list" where
  "sha_digest s = concat (map bytes_of_word
     [sha_a s, sha_b s, sha_c s, sha_d s, sha_e s, sha_f s, sha_g s, sha_h s])"

definition Sum256 :: "byte list \<Rightarrow> byte list" where
  "Sum256 m = sha_digest (sha_blocks (words_of_bytes (sha_pad m)) sha_init)"

section \<open>The hash of the byte code\<close>

text \<open>\<^verbatim>\<open>%x\<close> prints a byte array as two lower-case hex digits a byte.\<close>

definition hex_char :: "nat \<Rightarrow> char" where
  "hex_char d = (if d < 10 then char_of (48 + d) else char_of (87 + d))"

definition Sprintf_x :: "byte list \<Rightarrow> string" where
  "Sprintf_x bs = concat (map (\<lambda>b. [hex_char (unat b div 16), hex_char (unat b mod 16)]) bs)"

text \<open>\<^verbatim>\<open>[]byte(s)\<close>\<close>

definition bytes_of_string :: "string \<Rightarrow> byte list" where
  "bytes_of_string s = map of_char s"

definition HashBytecode :: "string \<Rightarrow> string" where
  "HashBytecode bytecode = Sprintf_x (Sum256 (bytes_of_string bytecode))"

definition GetBytecodeHash :: "EthereumTransactionReceipt \<Rightarrow> string" where
  "GetBytecodeHash et = HashBytecode (HexString_Value (er_ContractBytecode et))"

section \<open>Hex text\<close>

lemma length_Sprintf_x: "length (Sprintf_x bs) = 2 * length bs"
  by (induction bs) (simp_all add: Sprintf_x_def)

lemma of_char_hex_char: "d < 16 \<Longrightarrow> of_char (hex_char d) = (if d < 10 then 48 + d else 87 + d)"
  by (simp add: hex_char_def)

lemma hex_digit_hex_char: "d < 16 \<Longrightarrow> hex_digit (hex_char d) = Some d"
  by (simp add: hex_digit_def of_char_hex_char)

lemma lower_char_hex_char: "d < 16 \<Longrightarrow> lower_char (hex_char d) = hex_char d"
  by (simp add: lower_char_def of_char_hex_char)

lemma hex_char_in: "d < 16 \<Longrightarrow> hex_char d \<in> set ''0123456789abcdef''"
proof -
  assume "d < 16"
  moreover have "list_all (\<lambda>d. hex_char d \<in> set ''0123456789abcdef'') [0..<16]" by code_simp
  ultimately show ?thesis by (simp only: list_all_iff atLeastLessThan_iff set_upt) simp
qed

lemma byte_nibbles: "unat (b :: byte) div 16 < 16" "unat b mod 16 < 16"
  using unsigned_less [of b, where 'a = nat] by simp_all

lemma set_Sprintf_x: "set (Sprintf_x bs) \<subseteq> set ''0123456789abcdef''"
proof (induction bs)
  case (Cons b bs)
  have "set (Sprintf_x (b # bs)) =
      insert (hex_char (unat b div 16)) (insert (hex_char (unat b mod 16)) (set (Sprintf_x bs)))"
    by (simp add: Sprintf_x_def)
  with Cons hex_char_in [OF byte_nibbles(1)] hex_char_in [OF byte_nibbles(2)] show ?case
    by (simp only: insert_subset)
qed (simp add: Sprintf_x_def)

lemma ToLower_Sprintf_x: "ToLower (Sprintf_x bs) = Sprintf_x bs"
  by (induction bs) (simp_all add: Sprintf_x_def ToLower_def lower_char_hex_char byte_nibbles)

lemma hex_DecodeString_Sprintf_x: "hex_DecodeString (Sprintf_x bs) = Inr bs"
proof (induction bs)
  case Nil
  then show ?case by (simp add: Sprintf_x_def)
next
  case (Cons b bs)
  have "word_of_nat (16 * (unat b div 16) + unat b mod 16) = b" by simp
  with Cons show ?case by (simp add: Sprintf_x_def hex_digit_hex_char byte_nibbles)
qed

section \<open>Sizes of SHA-256\<close>

lemma length_sha_digest: "length (sha_digest s) = 32"
  by (simp add: sha_digest_def bytes_of_word_def)

lemma length_Sum256: "length (Sum256 m) = 32"
  unfolding Sum256_def by (rule length_sha_digest)

lemma length_sha_pad: "length (sha_pad m) mod 64 = 0"
proof -
  let ?n = "length m"
  have "(119 - r) mod 64 = (if r \<le> 55 then 55 else 119) - r" if "r < 64" for r :: nat
  proof (cases "r \<le> 55")
    case True
    then have "119 - r = 64 + (55 - r)" by simp
    then have "(119 - r) mod 64 = (55 - r) mod 64" by (simp only: mod_add_self1)
    with True show ?thesis by simp
  qed (use that in simp)
  from this [of "?n mod 64"]
  have "(119 - ?n mod 64) mod 64 = (if ?n mod 64 \<le> 55 then 55 else 119) - ?n mod 64" by simp
  then have "length (sha_pad m) = ?n + 9 + ((if ?n mod 64 \<le> 55 then 55 else 119) - ?n mod 64)"
    by (simp add: sha_pad_def Let_def)
  also have "\<dots> = 64 * (?n div 64) + (if ?n mod 64 \<le> 55 then 64 else 128)"
  proof -
    have "64 * q + r + 9 + ((if r \<le> 55 then 55 else 119) - r) = 64 * q + (if r \<le> 55 then 64 else 128)"
      if "r < 64" for q r :: nat using that by auto
    from this [of "?n mod 64" "?n div 64"] show ?thesis by (simp only: mult_div_mod_eq)
  qed
  finally show ?thesis by simp
qed

lemma length_words_of_bytes: "length (words_of_bytes bs) = length bs div 4"
  by (induction bs rule: words_of_bytes.induct) simp_all

lemma length_sha_schedule: "length (sha_schedule n ws) = n + length ws"
  by (induction n arbitrary: ws) simp_all

section \<open>Properties\<close>

text \<open>
  C37. The hash of the byte code is well typed. \<^verbatim>\<open>GetBytecodeHash\<close> always gives a text of 64 lower-case hex
  digits, which decodes to the SHA-256 digest of the byte code's text as the receipt has it, prefix
  included, so that two receipts have equal hashes only if the digests are equal; and the text
  passes unchanged through the JSON of a hex string, whose decoder folds case.
\<close>

theorem bytecode_hash_text:
  "length (GetBytecodeHash r) = 64 \<and> set (GetBytecodeHash r) \<subseteq> set ''0123456789abcdef'' \<and>
   hex_DecodeString (GetBytecodeHash r) = Inr (Sum256 (bytes_of_string (er_ContractBytecode r))) \<and>
   HexString_UnmarshalJSON (JStr (GetBytecodeHash r)) = Inr (GetBytecodeHash r)"
  unfolding GetBytecodeHash_def HashBytecode_def HexString_Value_def
  using set_Sprintf_x [of "Sum256 (bytes_of_string (er_ContractBytecode r))"]
  by (simp add: length_Sprintf_x length_Sum256 hex_DecodeString_Sprintf_x HexString_UnmarshalJSON_def
      unmarshal_string_def ToLower_Sprintf_x)

end
