(* ===== verification/Big_Float.thy ===== *)
theory Big_Float
  imports Ethereum_Types
begin

text \<open>
  The type \<^verbatim>\<open>EthereumBigFloat\<close> of \<^verbatim>\<open>pkg/clients/ethereum/types.go\<close> and what its methods use of
  Go's \<^verbatim>\<open>math/big\<close>: \<^verbatim>\<open>Float.SetString\<close> (base 0, 64 bits of mantissa, rounding to nearest even) and
  \<^verbatim>\<open>Float.String\<close> (\<^verbatim>\<open>Text('g', 10)\<close>).
\<close>

section \<open>Floats\<close>

text \<open>
  Zero and infinity with a sign, or a sign with \<open>m * 2 ^ e\<close>, \<open>m\<close> positive. The precision of a float is
  not kept: nothing here reads it after parsing.
\<close>

datatype EthereumBigFloat = FZero bool | FFinite bool nat int | FInf bool

fun bit_len :: "nat \<Rightarrow> nat" where
  "bit_len n = (if n = 0 then 0 else Suc (bit_len (n div 2)))"

declare bit_len.simps [simp del]

text \<open>\<^verbatim>\<open>Float.round\<close>: \<open>m * 2 ^ e\<close> to \<open>p\<close> bits, to nearest, ties to even.\<close>

definition round_bits :: "nat \<Rightarrow> nat \<Rightarrow> int \<Rightarrow> nat \<times> int" where
  "round_bits p m e =
     (let s = bit_len m - p
      in if s = 0 then (m, e)
         else let q = m div 2 ^ s; r = m mod 2 ^ s
              in (if r > 2 ^ (s - 1) \<or> (r = 2 ^ (s - 1) \<and> odd q) then q + 1 else q, e + int s))"

definition MinExp :: int where "MinExp = - (2 ^ 31)"
definition MaxExp :: int where "MaxExp = 2 ^ 31 - 1"

text \<open>\<^verbatim>\<open>Float.setExpAndRound\<close>: exponents beyond 32 bits underflow to zero and overflow to infinity.\<close>

definition make_float :: "nat \<Rightarrow> bool \<Rightarrow> nat \<Rightarrow> int \<Rightarrow> EthereumBigFloat" where
  "make_float p neg m e =
     (let exp = e + int (bit_len m)
      in if exp < MinExp then FZero neg
         else if exp > MaxExp then FInf neg
         else let (m', e') = round_bits p m e
              in if e' + int (bit_len m') > MaxExp then FInf neg else FFinite neg m' e')"

text \<open>
  \<^verbatim>\<open>Float.Mul\<close> and \<^verbatim>\<open>Float.Quo\<close> at a precision. The quotient is computed to more bits than needed, with
  one bit that records a remainder. The combinations on which Go panics, zero and infinity, do not occur
  below: the powers of five are not zero and the number they scale is finite.
\<close>

fun float_sign :: "EthereumBigFloat \<Rightarrow> bool" where
  "float_sign (FZero s) = s"
| "float_sign (FFinite s m e) = s"
| "float_sign (FInf s) = s"

definition float_Mul :: "nat \<Rightarrow> EthereumBigFloat \<Rightarrow> EthereumBigFloat \<Rightarrow> EthereumBigFloat" where
  "float_Mul p x y =
     (let s = (float_sign x \<noteq> float_sign y)
      in case (x, y) of
           (FFinite _ m e, FFinite _ m' e') \<Rightarrow> make_float p s (m * m') (e + e')
         | (FZero _, _) \<Rightarrow> FZero s
         | (_, FZero _) \<Rightarrow> FZero s
         | _ \<Rightarrow> FInf s)"

definition float_Quo :: "nat \<Rightarrow> EthereumBigFloat \<Rightarrow> EthereumBigFloat \<Rightarrow> EthereumBigFloat" where
  "float_Quo p x y =
     (let s = (float_sign x \<noteq> float_sign y)
      in case (x, y) of
           (FFinite _ m e, FFinite _ m' e') \<Rightarrow>
             (let k = p + 2 + bit_len m'; q = (m * 2 ^ k) div m'; r = (m * 2 ^ k) mod m'
              in make_float p s (2 * q + (if r = 0 then 0 else 1)) (e - e' - int k - 1))
         | (FZero _, _) \<Rightarrow> FZero s
         | (_, FInf _) \<Rightarrow> FZero s
         | _ \<Rightarrow> FInf s)"

text \<open>\<^verbatim>\<open>Float.pow5\<close>: exact up to \<open>5 ^ 27\<close>, then by squaring, the squares with 64 bits more.\<close>

fun pow5_loop :: "nat \<Rightarrow> nat \<Rightarrow> EthereumBigFloat \<Rightarrow> EthereumBigFloat \<Rightarrow> EthereumBigFloat" where
  "pow5_loop p n z f =
     (if n = 0 then z
      else pow5_loop p (n div 2) (if odd n then float_Mul p z f else z) (float_Mul (p + 64) f f))"

declare pow5_loop.simps [simp del]

definition float_pow5 :: "nat \<Rightarrow> nat \<Rightarrow> EthereumBigFloat" where
  "float_pow5 p n =
     (if n \<le> 27 then FFinite False (5 ^ n) 0
      else pow5_loop p (n - 27) (FFinite False (5 ^ 27) 0) (FFinite False 5 0))"

section \<open>Parsing\<close>

definition digit_value :: "char \<Rightarrow> nat" where
  "digit_value ch =
     (let n = of_char ch
      in if 48 \<le> n \<and> n \<le> 57 then n - 48
         else if 97 \<le> n \<and> n \<le> 122 then n - 97 + 10
         else if 65 \<le> n \<and> n \<le> 90 then n - 65 + 10
         else 63)"

text \<open>
  The loop of \<^verbatim>\<open>nat.scan\<close> in base \<open>b\<close>, with its local variables: the class of the previous character (a
  digit, \<^verbatim>\<open>'_'\<close>, or \<^verbatim>\<open>'.'\<close> for anything else), whether a separator was misplaced, the value and the number
  of the digits so far and the position of the point; and what it leaves unread.
\<close>

record mantissa =
  mt_prev :: char
  mt_invalSep :: bool
  mt_value :: nat
  mt_count :: nat
  mt_dp :: "nat option"

fun scan_digits :: "nat \<Rightarrow> mantissa \<Rightarrow> string \<Rightarrow> mantissa \<times> string" where
  "scan_digits b t [] = (t, [])"
| "scan_digits b t (ch # cs) =
     (if ch = CHR ''.'' \<and> mt_dp t = None
      then scan_digits b (t\<lparr>mt_invalSep := mt_invalSep t \<or> mt_prev t = CHR ''_'',
             mt_prev := CHR ''.'', mt_dp := Some (mt_count t)\<rparr>) cs
      else if ch = CHR ''_''
      then scan_digits b (t\<lparr>mt_invalSep := mt_invalSep t \<or> mt_prev t \<noteq> CHR ''0'', mt_prev := CHR ''_''\<rparr>) cs
      else if digit_value ch \<ge> b then (t, ch # cs)
      else scan_digits b (t\<lparr>mt_prev := CHR ''0'', mt_count := mt_count t + 1,
             mt_value := mt_value t * b + digit_value ch\<rparr>) cs)"

text \<open>
  \<^verbatim>\<open>nat.scan\<close> in base 0 with a fraction allowed: a prefix selects the base. It gives the value of the
  digits, the base, the number of digits behind the point and the unread text, or fails without digits or on
  a misplaced separator.
\<close>

definition scan_mantissa :: "string \<Rightarrow> (nat \<times> nat \<times> nat \<times> string) option" where
  "scan_mantissa s =
     (let start = (\<lambda>prev count. \<lparr>mt_prev = prev, mt_invalSep = False, mt_value = 0, mt_count = count,
             mt_dp = None\<rparr>);
          prefixed = (\<lambda>chars. s \<noteq> [] \<and> hd s = CHR ''0'' \<and> tl s \<noteq> [] \<and> hd (tl s) \<in> set chars);
          (b, t, rest) =
            (if prefixed ''bB'' then (2, start CHR ''0'' 0, drop 2 s)
             else if prefixed ''oO'' then (8, start CHR ''0'' 0, drop 2 s)
             else if prefixed ''xX'' then (16, start CHR ''0'' 0, drop 2 s)
             else if s \<noteq> [] \<and> hd s = CHR ''0'' then (10, start CHR ''0'' 1, tl s)
             else (10, start CHR ''.'' 0, s));
          (t', rest') = scan_digits b t rest
      in if mt_invalSep t' \<or> mt_prev t' = CHR ''_'' \<or> mt_count t' = 0 then None
         else Some (mt_value t', b,
           case mt_dp t' of None \<Rightarrow> 0 | Some d \<Rightarrow> mt_count t' - d, rest'))"

text \<open>
  \<^verbatim>\<open>scanExponent\<close>, with a binary exponent and separators allowed: the exponent, its base and the unread
  text. The loop collects digits; \<^verbatim>\<open>strconv.ParseInt\<close> bounds them to 64 bits.
\<close>

fun scan_exponent_digits :: "char \<Rightarrow> bool \<Rightarrow> string \<Rightarrow> string \<Rightarrow> char \<times> bool \<times> string \<times> string" where
  "scan_exponent_digits prev invalSep ds [] = (prev, invalSep, ds, [])"
| "scan_exponent_digits prev invalSep ds (ch # cs) =
     (if is_digit ch then scan_exponent_digits CHR ''0'' invalSep (ds @ [ch]) cs
      else if ch = CHR ''_''
      then scan_exponent_digits CHR ''_'' (invalSep \<or> prev \<noteq> CHR ''0'') ds cs
      else (prev, invalSep, ds, ch # cs))"

definition scan_exponent :: "string \<Rightarrow> (int \<times> nat \<times> string) option" where
  "scan_exponent s =
     (if s = [] \<or> hd s \<notin> set ''eEpP'' then Some (0, 10, s)
      else
        let base = (if hd s \<in> set ''eE'' then 10 else 2);
            signed = (tl s \<noteq> [] \<and> hd (tl s) \<in> set ''+-'');
            neg = (signed \<and> hd (tl s) = CHR ''-'');
            (prev, invalSep, ds, rest) =
              scan_exponent_digits CHR ''.'' False [] (if signed then drop 2 s else tl s);
            v = (if neg then - int (read_digits ds) else int (read_digits ds))
        in if ds = [] \<or> v < - (2 ^ 63) \<or> 2 ^ 63 \<le> v \<or> invalSep \<or> prev = CHR ''_'' then None
           else Some (v, base, rest))"

text \<open>
  \<^verbatim>\<open>Float.scan\<close> with \<^verbatim>\<open>Float.Parse\<close>'s test that nothing is left: a radix point of base \<open>b\<close> and the exponent
  become powers of two and of five.
\<close>

definition float_scan :: "string \<Rightarrow> EthereumBigFloat option" where
  "float_scan s =
     (if s = [] then None
      else
        let neg = (hd s = CHR ''-''); s1 = (if hd s \<in> set ''+-'' then tl s else s)
        in case scan_mantissa s1 of
             None \<Rightarrow> None
           | Some (m, b, frac, s2) \<Rightarrow>
               (case scan_exponent s2 of
                  None \<Rightarrow> None
                | Some (exp, ebase, rest) \<Rightarrow>
                    if rest \<noteq> [] then
                      None
                    else if m = 0 then Some (FZero neg)
                    else
                      let e2 = (if b = 10 \<or> b = 2 then - int frac
                                else if b = 8 then - int frac * 3 else - int frac * 4) + exp;
                          e5 = (if b = 10 then - int frac else 0) + (if ebase = 10 then exp else 0);
                          exp2 = int (bit_len m) + e2
                      in if exp2 < MinExp \<or> MaxExp < exp2 then None
                         else if e5 = 0 then Some (make_float 64 neg m e2)
                         else if e5 < 0
                         then Some (float_Quo 64 (FFinite neg m e2) (float_pow5 128 (nat (- e5))))
                         else Some (float_Mul 64 (FFinite neg m e2) (float_pow5 128 (nat e5)))))"

definition float_SetString :: "string \<Rightarrow> EthereumBigFloat option" where
  "float_SetString s =
     (if s = ''Inf'' \<or> s = ''inf'' then Some (FInf False)
      else if s = ''+Inf'' \<or> s = ''+inf'' then Some (FInf False)
      else if s = ''-Inf'' \<or> s = ''-inf'' then Some (FInf True)
      else float_scan s)"

section \<open>Printing\<close>

text \<open>
  The multiprecision decimal of \<^verbatim>\<open>math/big\<close>: digits without trailing zeros, standing behind a decimal
  point, and an exponent of ten. \<open>decimal_of\<close> is exact.
\<close>

record decimal =
  d_mant :: string
  d_exp :: int

definition trim_zeros :: "string \<Rightarrow> string" where
  "trim_zeros ds = rev (dropWhile (\<lambda>c. c = CHR ''0'') (rev ds))"

definition decimal_of :: "nat \<Rightarrow> int \<Rightarrow> decimal" where
  "decimal_of m e =
     (let ds = show_nat (if 0 \<le> e then m * 2 ^ nat e else m * 5 ^ nat (- e))
      in \<lparr>d_mant = trim_zeros ds, d_exp = int (length ds) + (if 0 \<le> e then 0 else e)\<rparr>)"

text \<open>\<^verbatim>\<open>decimal.round\<close> to \<open>n\<close> digits, ties to even; \<open>round_up\<close> is its \<^verbatim>\<open>roundUp\<close>.\<close>

definition succ_digit :: "char \<Rightarrow> char" where
  "succ_digit c = digit_char (of_char c - 48 + 1)"

definition round_up :: "nat \<Rightarrow> decimal \<Rightarrow> decimal" where
  "round_up n d =
     (let kept = rev (dropWhile (\<lambda>c. c = CHR ''9'') (rev (take n (d_mant d))))
      in if kept = [] then \<lparr>d_mant = ''1'', d_exp = d_exp d + 1\<rparr>
         else d\<lparr>d_mant := butlast kept @ [succ_digit (last kept)]\<rparr>)"

definition decimal_round :: "nat \<Rightarrow> decimal \<Rightarrow> decimal" where
  "decimal_round n d =
     (if length (d_mant d) \<le> n then d
      else
        let c = d_mant d ! n; up =
          (if c = CHR ''5'' \<and> n + 1 = length (d_mant d)
           then 0 < n \<and> odd (of_char (d_mant d ! (n - 1)) :: nat)
           else (53 :: nat) \<le> of_char c)
        in if up then round_up n d else d\<lparr>d_mant := trim_zeros (take n (d_mant d))\<rparr>)"

text \<open>\<^verbatim>\<open>fmtE\<close> and \<^verbatim>\<open>fmtF\<close>, with the number of digits behind the point.\<close>

definition fmtE :: "nat \<Rightarrow> decimal \<Rightarrow> string" where
  "fmtE prec d =
     (let ds = d_mant d; more = take prec (tl ds); e = (if ds = [] then 0 else d_exp d - 1)
      in (if ds = [] then ''0'' else [hd ds]) @
         (if 0 < prec then CHR ''.'' # more @ replicate (prec - length more) CHR ''0'' else []) @
         ''e'' @ (if e < 0 then ''-'' else ''+'') @
         (if \<bar>e\<bar> < 10 then ''0'' else []) @ show_nat (nat \<bar>e\<bar>))"

definition fmtF :: "nat \<Rightarrow> decimal \<Rightarrow> string" where
  "fmtF prec d =
     (let ds = d_mant d;
          at = (\<lambda>i. if 0 \<le> i \<and> i < int (length ds) then ds ! nat i else CHR ''0'')
      in (if 0 < d_exp d
          then take (nat (d_exp d)) ds @ replicate (nat (d_exp d) - length ds) CHR ''0''
          else ''0'') @
         (if 0 < prec then CHR ''.'' # map (\<lambda>i. at (d_exp d + int i)) [0..<prec] else []))"

text \<open>\<^verbatim>\<open>Float.String\<close>: the format \<^verbatim>\<open>'g'\<close> with ten digits.\<close>

definition format_g :: "decimal \<Rightarrow> string" where
  "format_g d0 =
     (let d = decimal_round 10 d0; n = length (d_mant d);
          eprec = (if n < 10 \<and> d_exp d \<le> int n then n else 10); exp = d_exp d - 1
      in if exp < - 4 \<or> int eprec \<le> exp
         then fmtE (min 10 n - 1) d
         else let prec = (if d_exp d < 10 then n else 10)
              in fmtF (nat (int prec - d_exp d)) d)"

fun float_String :: "EthereumBigFloat \<Rightarrow> string" where
  "float_String (FInf s) = (if s then ''-Inf'' else ''+Inf'')"
| "float_String (FZero s) = (if s then ''-'' else []) @ format_g \<lparr>d_mant = [], d_exp = 0\<rparr>"
| "float_String (FFinite s m e) = (if s then ''-'' else []) @ format_g (decimal_of m e)"

section \<open>The methods\<close>

definition BigFloat_Value :: "EthereumBigFloat \<Rightarrow> string" where
  "BigFloat_Value v = float_String v"

definition BigFloat_MarshalJSON :: "EthereumBigFloat \<Rightarrow> string" where
  "BigFloat_MarshalJSON v = quoted (float_String v)"

definition BigFloat_UnmarshalJSON :: "json \<Rightarrow> error + EthereumBigFloat" where
  "BigFloat_UnmarshalJSON input =
     (case unmarshal_string input of
        Inl e \<Rightarrow> Inl (Errorf ''failed to unmarshal EthereumBigFloat: %w'' (Some e))
      | Inr s \<Rightarrow>
          (if s = [] then Inr (FZero False)
           else case float_SetString s of
             None \<Rightarrow> Inl (Errorf ''cannot parse EthereumBigFloat'' None)
           | Some f \<Rightarrow> Inr f))"

section \<open>Laws\<close>

lemma digit_value_digit_char: "d < 10 \<Longrightarrow> digit_value (digit_char d) = d"
  by (simp add: digit_value_def of_char_digit_char Let_def)

lemma digit_char_eq: "d < 10 \<Longrightarrow> digit_char d = c \<longleftrightarrow> (of_char c :: nat) = 48 + d"
  by (metis of_char_digit_char of_char_eq_iff)

lemma digit_char_neq:
  "d < 10 \<Longrightarrow> digit_char d \<noteq> CHR ''.''" "d < 10 \<Longrightarrow> digit_char d \<noteq> CHR ''_''"
  "d < 10 \<Longrightarrow> digit_char d \<notin> set ''+-''" "d < 10 \<Longrightarrow> digit_char d \<notin> set ''Ii''"
  "d < 10 \<Longrightarrow> digit_char d = CHR ''0'' \<longleftrightarrow> d = 0"
  by (auto simp: digit_char_eq)

lemma show_nat_step: "0 < a \<Longrightarrow> b < 10 \<Longrightarrow> show_nat (10 * a + b) = show_nat a @ [digit_char b]"
  by (subst show_nat.simps) simp

lemma show_nat_nonempty [simp]: "show_nat n \<noteq> []"
  by (subst show_nat.simps) simp

lemma length_show_nat: "0 < k \<Longrightarrow> length (show_nat n) \<le> k \<longleftrightarrow> n < 10 ^ k"
proof (induction n arbitrary: k rule: show_nat.induct)
  case (1 n)
  show ?case
  proof (cases "n < 10")
    case True
    have "(10 :: nat) ^ 1 \<le> 10 ^ k" using 1(2) by (intro power_increasing) simp_all
    with True 1(2) show ?thesis by (subst show_nat.simps) simp
  next
    case False
    then have "length (show_nat n) = Suc (length (show_nat (n div 10)))" by (subst show_nat.simps) simp
    moreover have "length (show_nat (n div 10)) \<le> k - 1 \<longleftrightarrow> n div 10 < 10 ^ (k - 1)" if "1 < k"
      using 1(1) [OF False, of "k - 1"] that by simp
    moreover have "n div 10 < 10 ^ (k - 1) \<longleftrightarrow> n < 10 ^ k"
      using 1(2) by (simp add: div_less_iff_less_mult mult.commute flip: power_Suc)
    moreover have "0 < length (show_nat (n div 10))" by simp
    ultimately show ?thesis using False 1(2) by (cases "k = 1") (simp, simp_all, arith?)
  qed
qed

lemma hd_show_nat: "0 < n \<Longrightarrow> \<exists>d. 0 < d \<and> d < 10 \<and> hd (show_nat n) = digit_char d"
proof (induction n rule: show_nat.induct)
  case (1 n)
  show ?case
  proof (cases "n < 10")
    case True
    then show ?thesis using 1(2) by (subst show_nat.simps) (intro exI [of _ n], simp)
  next
    case False
    then show ?thesis using 1(1) by (subst show_nat.simps) (simp add: hd_append)
  qed
qed

lemma scan_digits_append:
  "\<forall>c \<in> set ds. c \<noteq> CHR ''.'' \<and> c \<noteq> CHR ''_'' \<and> digit_value c < b \<Longrightarrow>
    scan_digits b t (ds @ cs) =
      scan_digits b (fold (\<lambda>c t. t\<lparr>mt_prev := CHR ''0'', mt_count := mt_count t + 1,
        mt_value := mt_value t * b + digit_value c\<rparr>) ds t) cs"
  by (induction ds arbitrary: t) simp_all

lemma set_show_nat: "c \<in> set (show_nat n) \<Longrightarrow> \<exists>d < 10. c = digit_char d"
proof (induction n rule: show_nat.induct)
  case (1 n)
  then show ?case
    by (subst (asm) (2) show_nat.simps) (auto split: if_splits intro: exI [of _ "n mod 10"])
qed

lemma scan_digits_show_nat:
  assumes "0 < n"
  shows "\<exists>k. scan_digits 10 \<lparr>mt_prev = p, mt_invalSep = False, mt_value = 0, mt_count = 0, mt_dp = None\<rparr>
    (show_nat n) = (\<lparr>mt_prev = CHR ''0'', mt_invalSep = False, mt_value = n, mt_count = Suc k, mt_dp = None\<rparr>, [])"
  using assms
proof (induction n rule: show_nat.induct)
  case (1 n)
  have all: "\<forall>c \<in> set (show_nat m). c \<noteq> CHR ''.'' \<and> c \<noteq> CHR ''_'' \<and> digit_value c < 10" for m
    using set_show_nat digit_char_neq(1,2) digit_value_digit_char by (metis)
  show ?case
  proof (cases "n < 10")
    case True
    then show ?thesis
      using 1(2) digit_char_neq(1,2) [OF True] digit_value_digit_char [OF True] by (subst show_nat.simps) simp
  next
    case False
    then obtain k where k: "scan_digits 10 \<lparr>mt_prev = p, mt_invalSep = False, mt_value = 0, mt_count = 0, mt_dp = None\<rparr>
        (show_nat (n div 10)) = (\<lparr>mt_prev = CHR ''0'', mt_invalSep = False, mt_value = n div 10, mt_count = Suc k, mt_dp = None\<rparr>, [])"
      using 1(1) [OF False] by (auto simp: div_greater_zero_iff)
    have "n mod 10 < 10" by simp
    note d = digit_char_neq(1,2) [OF this] digit_value_digit_char [OF this]
    show ?thesis
      using False k d scan_digits_append [OF all [of "n div 10"], of _ "[digit_char (n mod 10)]"]
        scan_digits_append [OF all [of "n div 10"], of _ "[]"]
      by (subst show_nat.simps) simp
  qed
qed

text \<open>Trailing zeros of a numeral.\<close>

lemma trim_zeros_snoc:
  "trim_zeros (ds @ [c]) = (if c = CHR ''0'' then trim_zeros ds else ds @ [c])"
  by (simp add: trim_zeros_def)

lemma trim_zeros_split: "\<exists>k. ds = trim_zeros ds @ replicate k CHR ''0''"
proof (induction ds rule: rev_induct)
  case Nil
  then show ?case by (simp add: trim_zeros_def)
next
  case (snoc c ds)
  then obtain k where k: "ds = trim_zeros ds @ replicate k CHR ''0''" ..
  show ?case
  proof (cases "c = CHR ''0''")
    case True
    then have "trim_zeros (ds @ [c]) = trim_zeros ds" by (simp add: trim_zeros_snoc)
    moreover have "ds @ [c] = trim_zeros ds @ replicate (Suc k) CHR ''0''"
      unfolding True replicate_Suc replicate_append_same [symmetric] append_assoc [symmetric] k [symmetric] ..
    ultimately have "ds @ [c] = trim_zeros (ds @ [c]) @ replicate (Suc k) CHR ''0''" by (simp only:)
    then show ?thesis ..
  next
    case False
    then show ?thesis by (intro exI [of _ 0]) (simp add: trim_zeros_snoc)
  qed
qed

lemma trim_zeros_numeral:
  obtains k where "show_nat n = trim_zeros (show_nat n) @ replicate k CHR ''0''"
    "length (show_nat n) = length (trim_zeros (show_nat n)) + k"
proof -
  obtain k where k: "show_nat n = trim_zeros (show_nat n) @ replicate k CHR ''0''"
    using trim_zeros_split by blast
  moreover from arg_cong [OF this, of length]
  have "length (show_nat n) = length (trim_zeros (show_nat n)) + k" by simp
  ultimately show thesis by (rule that)
qed

text \<open>A numeral of at most ten digits is printed in full.\<close>

lemma format_g_numeral:
  assumes "n < 10 ^ 10"
  shows "format_g \<lparr>d_mant = trim_zeros (show_nat n), d_exp = int (length (show_nat n))\<rparr> = show_nat n"
proof -
  obtain k where k: "show_nat n = trim_zeros (show_nat n) @ replicate k CHR ''0''"
    "length (show_nat n) = length (trim_zeros (show_nat n)) + k"
    by (rule trim_zeros_numeral)
  have len: "length (show_nat n) \<le> 10" "0 < length (show_nat n)"
    using length_show_nat [of 10 n] assms by simp_all
  let ?ds = "trim_zeros (show_nat n)"
  have "format_g \<lparr>d_mant = ?ds, d_exp = int (length (show_nat n))\<rparr> = ?ds @ replicate k CHR ''0''"
    using len k(2) by (simp add: format_g_def decimal_round_def fmtF_def Let_def nat_add_distrib)
  with k(1) show ?thesis by simp
qed

lemma float_String_numeral: "n < 10 ^ 10 \<Longrightarrow> float_String (FFinite False n 0) = show_nat n"
  using format_g_numeral [of n] by (simp add: decimal_of_def Let_def)

text \<open>The eleventh digit is rounded away.\<close>

lemma float_String_eleventh_digit:
  assumes "10 ^ 9 \<le> a" "a < 10 ^ 10" "0 < b" "b < 5"
  shows "float_String (FFinite False (10 * a + b) 0) = float_String (FFinite False (10 * a) 0)"
proof -
  have len: "length (show_nat a) = 10"
    using length_show_nat [of 10 a] length_show_nat [of 9 a] assms(1,2) by simp
  have zero: "digit_char 0 = CHR ''0''" by (simp add: digit_char_eq)
  have b: "show_nat (10 * a + b) = show_nat a @ [digit_char b]" "show_nat (10 * a) = show_nat a @ ''0''"
    using show_nat_step [of a b] show_nat_step [of a 0] assms by (simp_all add: zero)
  have c: "digit_char b \<noteq> CHR ''0''" "digit_char b \<noteq> CHR ''5''" "\<not> (53 :: nat) \<le> of_char (digit_char b)"
    using assms(3,4) by (simp_all add: digit_char_eq of_char_digit_char)
  obtain k where k: "length (show_nat a) = length (trim_zeros (show_nat a)) + k"
    by (rule trim_zeros_numeral)
  have "decimal_round 10 (decimal_of (10 * a + b) 0) = \<lparr>d_mant = trim_zeros (show_nat a), d_exp = 11\<rparr>"
    using len c by (simp add: decimal_of_def decimal_round_def b trim_zeros_snoc nth_append)
  moreover have "decimal_round 10 (decimal_of (10 * a) 0) = \<lparr>d_mant = trim_zeros (show_nat a), d_exp = 11\<rparr>"
    using len k trim_zeros_snoc [of "show_nat a" "CHR ''0''"] by (simp add: decimal_of_def decimal_round_def b)
  ultimately show ?thesis by (simp add: format_g_def)
qed

lemma bit_len_le: "n < 2 ^ k \<Longrightarrow> bit_len n \<le> k"
proof (induction n arbitrary: k rule: bit_len.induct)
  case (1 n)
  show ?case
  proof (cases "n = 0")
    case False
    with 1(2) obtain j where j: "k = Suc j" by (cases k) auto
    with 1(2) have "n div 2 < 2 ^ j" by (simp add: less_mult_imp_div_less mult.commute)
    with 1(1) [OF False] j False show ?thesis by (subst bit_len.simps) simp
  qed (subst bit_len.simps, simp)
qed

lemma SetString_numeral:
  assumes n: "0 < n" "n < 2 ^ 64"
  shows "float_SetString (show_nat n) = Some (FFinite False n 0)"
proof -
  obtain d where d: "0 < d" "d < 10" "hd (show_nat n) = digit_char d" using hd_show_nat [OF n(1)] by blast
  have hd: "hd (show_nat n) \<noteq> CHR ''0''" "hd (show_nat n) \<notin> set ''+-''" "hd (show_nat n) \<notin> set ''Ii''"
    unfolding d(3) using digit_char_neq [OF d(2)] d(1) by simp_all
  obtain k where scan: "scan_digits 10 \<lparr>mt_prev = CHR ''.'', mt_invalSep = False, mt_value = 0, mt_count = 0, mt_dp = None\<rparr>
    (show_nat n) = (\<lparr>mt_prev = CHR ''0'', mt_invalSep = False, mt_value = n, mt_count = Suc k, mt_dp = None\<rparr>, [])"
    using scan_digits_show_nat [OF n(1)] by blast
  have mant: "scan_mantissa (show_nat n) = Some (n, 10, 0, [])"
    using hd(1) scan by (simp add: scan_mantissa_def Let_def)
  have len: "bit_len n \<le> 64" using bit_len_le [OF n(2)] .
  then have "make_float 64 False n 0 = FFinite False n 0"
    by (simp add: make_float_def round_bits_def MinExp_def MaxExp_def)
  moreover have "show_nat n \<notin> {''Inf'', ''inf'', ''+Inf'', ''+inf'', ''-Inf'', ''-inf''}"
    using hd(2,3) by auto
  ultimately show ?thesis
    using hd(2) mant n len
    by (simp add: float_SetString_def float_scan_def scan_exponent_def MinExp_def MaxExp_def)
qed

section \<open>Properties\<close>

text \<open>
  C38. Big floats in JSON. A numeral without leading zero of at most ten digits is read as its
  value, which is printed as the same numeral. Only ten digits survive: an integer with eleven digits whose
  last is 1 to 4 and the one that has 0 there are read as different values and printed as the same text.
\<close>

theorem big_float_json:
  assumes "0 < n" and "n < 10 ^ 10"
    and "10 ^ 9 \<le> a" and "a < 10 ^ 10" and "0 < b" and "b < 5"
  shows "BigFloat_UnmarshalJSON (JStr (show_nat n)) = Inr (FFinite False n 0) \<and>
    BigFloat_MarshalJSON (FFinite False n 0) = quoted (show_nat n) \<and>
    (\<exists>f g. BigFloat_UnmarshalJSON (JStr (show_nat (10 * a + b))) = Inr f \<and>
       BigFloat_UnmarshalJSON (JStr (show_nat (10 * a))) = Inr g \<and> f \<noteq> g \<and>
       BigFloat_MarshalJSON f = BigFloat_MarshalJSON g)"
proof -
  have read: "BigFloat_UnmarshalJSON (JStr (show_nat m)) = Inr (FFinite False m 0)"
    if "0 < m" "m < 10 ^ 11" for m
    using SetString_numeral [of m] that by (simp add: BigFloat_UnmarshalJSON_def unmarshal_string_def)
  show ?thesis
    using read [of n] read [of "10 * a + b"] read [of "10 * a"] assms
      float_String_numeral [OF assms(2)] float_String_eleventh_digit [OF assms(3-6)]
    by (simp add: BigFloat_MarshalJSON_def)
qed

theorem big_float_json_witness:
  "BigFloat_UnmarshalJSON (JStr (show_nat 42)) = Inr (FFinite False 42 0) \<and>
   BigFloat_MarshalJSON (FFinite False 42 0) = quoted (show_nat 42) \<and>
   (\<exists>f g. BigFloat_UnmarshalJSON (JStr (show_nat 12345678901)) = Inr f \<and>
      BigFloat_UnmarshalJSON (JStr (show_nat 12345678900)) = Inr g \<and> f \<noteq> g \<and>
      BigFloat_MarshalJSON f = BigFloat_MarshalJSON g)"
  using big_float_json [of 42 1234567890 1] by simp

end
