(* ===== verification/Spec2Isabelle.thy ===== *)
theory Spec2Isabelle
  imports Full_Stack Store_Suite Logger Bytecode_Hash Big_Float
begin

text \<open>
  Verification of \<^verbatim>\<open>chain-indexer\<close>, a Go library that follows an EVM chain: a poller asks a
  JSON-RPC node for new blocks, hands each block and the decoded logs of watched contracts to the
  application, records the processed blocks in a store, and repairs the records when the chain
  reorganises.

  \<^bold>\<open>Parts and theories.\<close> Paths are under \<^verbatim>\<open>src/pkg/\<close>.

  \<^item> \<open>Prelude\<close>: Go's 64-bit integers as words, errors and panics as values, decimal printing,
    ASCII case folding, completion orders of goroutines and map iteration orders; generic lemmas.

  \<^item> \<open>Persistence\<close>: block records and the interface \<^verbatim>\<open>IChainPollerPersistence\<close>
    (\<^verbatim>\<open>chainPollers/chainPoller.go\<close>), the in-memory store (\<^verbatim>\<open>persistence/memory/memory.go\<close>). The
    locale \<open>persistence\<close> is the contract the poller relies on; the interpretation \<open>mem\<close> shows it for
    the in-memory store. \<open>Store_Suite\<close>: the compliance suite \<^verbatim>\<open>persistence/test_suite.go\<close>, which
    every store with the contract passes.

  \<^item> \<open>Ethereum_Types\<close>, \<open>Ethereum_Handlers\<close>, \<open>Ethereum_Client\<close>: the wire types, request builders and
    response parsers, and the client (\<^verbatim>\<open>clients/ethereum/types.go\<close>, \<^verbatim>\<open>handlers.go\<close>, \<^verbatim>\<open>client.go\<close>).
    JSON is a value tree; HTTP is an operation on a network state. \<open>Type_Laws\<close> has the encoders, which read
    the bytes that the \<^verbatim>\<open>MarshalJSON\<close> methods return as \<^verbatim>\<open>json.Marshal\<close> does, and the JSON round trips,
    \<open>Client_Laws\<close> the retries, the batch calls, the loop over new heads and how the client presents a node
    to the poller.

  \<^item> \<open>Util\<close>, \<open>Contracts\<close>, \<open>Contract_Store\<close>, \<open>Contract_Registry\<close>, \<open>Logger\<close>: the slice helpers, contracts and
    their ABIs, the contract store (locale \<open>contract_store\<close>, interpretation \<open>ics\<close>), the registry of watched
    addresses (locale \<open>contract_registry\<close>, interpretation \<open>icr\<close>) and the logger set-up.

  \<^item> \<open>Log_Parser\<close> and \<open>Parser_Laws\<close>: \<^verbatim>\<open>transactionLogParser\<close>, with every panic a value.

  \<^item> \<open>Bytecode_Hash\<close> and \<open>Big_Float\<close>: SHA-256 and the hash of a receipt's byte code; big floats, parsed and
    printed as \<^verbatim>\<open>math/big\<close> does (\<^verbatim>\<open>clients/ethereum/types.go\<close>).

  \<^item> \<open>Poller_Interfaces\<close> and \<open>Chain_Poller\<close>: the poller, \<^verbatim>\<open>chainPollers/evm/evmChainPoller.go\<close>. Its world
    is the state of the store, one environment state for everything else it calls, and the list
    of the calls it made on the handler. One tick is the function \<open>processNextBlock\<close>; the poll loop is the
    step relation \<open>pollForBlocks\<close> with \<open>polls\<close> for the reachable states, in which the environment moves
    freely between ticks; a polling interval that is not positive makes the ticker panic.

  \<^item> \<open>Full_Stack\<close>: the parts put together as an application does it; its environment is the record \<open>stack\<close>
    of the network, the contract store, the registry and the application's own state.

  \<^bold>\<open>What is shown of the poller.\<close> \<open>Poller_Fetch\<close>: splitting the addresses and fetching the logs, for any
  schedule. \<open>Poller_Reorg\<close>: what the search for orphaned blocks finds and what reconciliation leaves, for any
  store with the contract. \<open>Poller_Safety\<close>: what holds whatever the environment and the store do.
  \<open>Poller_Index\<close>: a tick refines the specification \<open>spec_index\<close>, folded over the new blocks, when the
  environment is \<open>healthy\<close>; recovery from a fork in two ticks; the two ways a fork stalls the poller.
  \<open>Poller_Invariant\<close>: in every state of the poll loop the stored history is one hash-linked chain without
  gaps and no longer than the configured size, and each record but the first is of a block delivered with all its
  logs. \<open>Poller_Progress\<close>: whatever fails and however often the poller is stopped and started again in one
  process (\<open>restarts\<close>; the in-memory store ends with the process, and a new one begins on an empty store), on a fixed
  chain the store holds what the specification gives up to some block, each block up to there was delivered,
  and a working environment finishes the rest. \<open>Poller_Crash\<close>: a log on which the parser panics ends the
  process before its block is recorded, from whatever earlier block the tick set out. \<open>Poller_Isolation\<close>: pollers
  of different chains on one store do not interfere. The properties over the in-memory store are in this theory, those of the assembled
  application in \<open>Full_Stack\<close>, those of one component in its own; \<open>Sample\<close> has the concrete pollers, store
  states and node they are applied to.

  \<^bold>\<open>Choices.\<close> Loops over slices are structural recursions. The search for orphaned blocks and the
  splitting loops are total, with measures; the loop that collects block numbers is a partial function,
  since it does not end for the greatest 64-bit head, and \<open>processNextBlock\<close> returns an option for
  that reason only: no fuel is used. What the sources use of \<^verbatim>\<open>crypto/sha256\<close> and \<^verbatim>\<open>math/big\<close> is defined
  here. Goroutines that deliver on a channel run in an
  arbitrary permutation, each call as one step; methods under a mutex are one step. ASCII case folding
  stands for Go's Unicode one.

  \<^bold>\<open>Parameters.\<close> Code outside the repository is an argument: the node and \<^verbatim>\<open>net/http\<close> (\<open>ec_Do\<close>),
  go-ethereum's \<^verbatim>\<open>hexutil\<close> (record \<open>hexutil\<close>, with \<open>hexutil_ok\<close> for its round trip on plain texts) and \<^verbatim>\<open>abi\<close> (record
  \<open>abi_lib\<close>), \<^verbatim>\<open>ethclient.Dial\<close>, zap's options, the application's block handler.

  \<^bold>\<open>Not modelled.\<close> Contexts, deadlines and log output; the generated mocks; the empty type
  \<^verbatim>\<open>ClientParams\<close>.
\<close>

section \<open>Indexing\<close>

text \<open>
  C1. Refinement of a tick. On the in-memory store, with a node that answers, a parser that
  decodes and a handler that accepts, one call of \<^verbatim>\<open>processNextBlock\<close> from block \<open>k\<close> to the head
  \<open>m\<close> returns and changes the records of the poller's chain exactly as the specification, a fold
  of \<open>spec_index\<close> over the blocks \<open>k + 1\<close> to \<open>m\<close>, changes them; the block processed last is
  then \<open>m\<close>; the records of other chains stay; and the handler was called for each of these blocks in
  order, then once for each of its logs with a watched address, with what the parser decodes from it.
\<close>

theorem tick_refines_spec:
  assumes "ecp_store ecp = memory_persistence" and "healthy ecp J chain logs D W m" and "m < - 1"
    and "k \<le> m" and "mem_opened (w_store w)" and "J (w_env w)"
    and "mem_cursor (w_store w) (cfg_ChainId (ecp_config ecp)) = Some k"
    and "mem_stored (w_store w) (cfg_ChainId (ecp_config ecp)) k = Some r" and "br_Number r = k"
    and "k < m \<Longrightarrow> br_Hash r = eb_ParentHash (chain (k + 1))"
  shows "\<exists>w' cs. processNextBlock ecp w = Some (Ret (), w') \<and>
    (let c = cfg_ChainId (ecp_config ecp); H = cfg_BlockHistorySize (ecp_config ecp) in
     mem_stored (w_store w') c =
       fold (spec_index H c) (map chain (up k m)) (mem_stored (w_store w) c) \<and>
     mem_cursor (w_store w') c = Some m \<and>
     (\<forall>c'. c' \<noteq> c \<longrightarrow> mem_stored (w_store w') c' = mem_stored (w_store w) c') \<and>
     w_calls w' = w_calls w @ cs \<and> index_calls c W logs D (map chain (up k m)) cs)"
proof -
  obtain w' where w': "processNextBlock ecp w = Some (Ret (), w')" "mem.indexed ecp chain logs D W k m w w'"
    using mem.processNextBlock_healthy [OF assms] by blast
  then show ?thesis
    using assms(7) by (intro exI [of _ w']) (auto simp: mem.indexed_def Let_def)
qed

theorem tick_refines_spec_witness:
  "\<exists>w' cs. processNextBlock (sample_poller 5) (sample_world two_done) = Some (Ret (), w') \<and>
    mem_stored (w_store w') 1 =
      fold (spec_index 2 1) (map sample_block (up 2 5)) (mem_stored two_done 1) \<and>
    mem_cursor (w_store w') 1 = Some 5 \<and>
    w_calls w' = cs \<and> index_calls 1 {''0xaa''} sample_logs (\<lambda>_. None) (map sample_block (up 2 5)) cs"
  using tick_refines_spec [of "sample_poller 5" "\<lambda>_. True" sample_block sample_logs "\<lambda>_. None" "{''0xaa''}" 5 2
      "sample_world two_done" "canon 2", OF _ sample_healthy]
  by (auto simp: Let_def)

text \<open>
  C8. The kept history in closed form. After such a tick block \<open>n\<close> has no record when
  \<open>n + H\<close> was indexed, where \<open>H\<close> is the configured history size; otherwise an indexed block has
  the record with its own number, hash, parent hash and time stamp, and any other block the record it
  had.
\<close>

theorem tick_history:
  assumes "ecp_store ecp = memory_persistence" and "healthy ecp J chain logs D W m" and "m < - 1"
    and "k \<le> m" and "mem_opened (w_store w)" and "J (w_env w)"
    and "mem_cursor (w_store w) (cfg_ChainId (ecp_config ecp)) = Some k"
    and "mem_stored (w_store w) (cfg_ChainId (ecp_config ecp)) k = Some r" and "br_Number r = k"
    and "k < m \<Longrightarrow> br_Hash r = eb_ParentHash (chain (k + 1))"
  shows "\<exists>w'. processNextBlock ecp w = Some (Ret (), w') \<and>
    (\<forall>n. mem_stored (w_store w') (cfg_ChainId (ecp_config ecp)) n =
      (if 0 < sint (cfg_BlockHistorySize (ecp_config ecp)) \<and> 0 < n \<and>
          unat k < unat n + unat (cfg_BlockHistorySize (ecp_config ecp)) \<and>
          unat n + unat (cfg_BlockHistorySize (ecp_config ecp)) \<le> unat m then None
       else if k < n \<and> n \<le> m then Some (record_of (chain n) (cfg_ChainId (ecp_config ecp)))
       else mem_stored (w_store w) (cfg_ChainId (ecp_config ecp)) n))"
proof -
  obtain w' where w': "processNextBlock ecp w = Some (Ret (), w')" "mem.indexed ecp chain logs D W k m w w'"
    using mem.processNextBlock_healthy [OF assms] by blast
  have "\<And>n. eb_Number (chain n) = n" using healthyD(1) [OF assms(2)] by (simp add: serves_blocks_def)
  from index_history [OF this assms(4)] w'(2) have
    "mem_stored (w_store w') (cfg_ChainId (ecp_config ecp)) n =
      (if pruned (cfg_BlockHistorySize (ecp_config ecp)) k m n then None
       else if k < n \<and> n \<le> m then Some (record_of (chain n) (cfg_ChainId (ecp_config ecp)))
       else mem_stored (w_store w) (cfg_ChainId (ecp_config ecp)) n)" for n
    by (simp add: mem.indexed_def Let_def)
  with w'(1) show ?thesis by (simp add: pruned_def)
qed

theorem tick_history_witness:
  "\<exists>w'. processNextBlock (sample_poller 5) (sample_world two_done) = Some (Ret (), w') \<and>
    mem_stored (w_store w') 1 5 = Some (canon 5) \<and> mem_stored (w_store w') 1 4 = Some (canon 4) \<and>
    mem_stored (w_store w') 1 3 = None"
  using tick_history [of "sample_poller 5" "\<lambda>_. True" sample_block sample_logs "\<lambda>_. None" "{''0xaa''}" 5 2
      "sample_world two_done" "canon 2", OF sample_poller_simps(1) sample_healthy, simplified]
  by (elim exE conjE) (intro exI conjI, assumption, simp_all add: canon_def)

section \<open>Failures and stops\<close>

text \<open>
  C2. Failures leave a prefix. Let the node return, when it returns a block, the one of a fixed
  hash-linked chain, and let everything else be free: calls on the node fail, the parser panics, the handler
  refuses logs, the poller is stopped and started again in the same process, any number of times. Until the
  process ends, the store always holds what
  the specification makes of the blocks \<open>k + 1\<close> to \<open>j\<close> for some \<open>j\<close>, which is the block processed
  last: none is skipped or half recorded. Each of them was handed over at least once together with all the
  logs of a fetch for it. Unless the loop ended by a panic, and with it the process and its store, a start
  in this state succeeds and changes nothing.
\<close>

theorem progress_is_prefix:
  assumes "ecp_store ecp = memory_persistence" and "truthful (ecp_ethClient ecp) chain"
    and "linked_from chain k" and "mem_opened (w_store w)"
    and "mem_cursor (w_store w) (cfg_ChainId (ecp_config ecp)) = Some k"
    and "mem_stored (w_store w) (cfg_ChainId (ecp_config ecp)) k = Some r" and "br_Number r = k"
    and "br_Hash r = eb_Hash (chain k)" and "restarts ecp w (s, w')"
  shows "\<exists>j \<ge> k. mem_cursor (w_store w') (cfg_ChainId (ecp_config ecp)) = Some j \<and>
    mem_stored (w_store w') (cfg_ChainId (ecp_config ecp)) =
      fold (spec_index (cfg_BlockHistorySize (ecp_config ecp)) (cfg_ChainId (ecp_config ecp)))
        (map chain (up k j)) (mem_stored (w_store w) (cfg_ChainId (ecp_config ecp))) \<and>
    (\<forall>n. k < n \<longrightarrow> n \<le> j \<longrightarrow>
       delivered ecp (w_calls w') (record_of (chain n) (cfg_ChainId (ecp_config ecp)))) \<and>
    (s \<noteq> Crashed \<longrightarrow> Start ecp w' = (Ret None, w'))"
proof -
  let ?c = "cfg_ChainId (ecp_config ecp)" and ?H = "cfg_BlockHistorySize (ecp_config ecp)"
  let ?st = "mem_stored (w_store w) ?c"
  have "mem.progress_to ecp ?H ?c chain k ?st k w"
    by (rule mem.progress_to_start [OF assms(4,5)])
  then obtain j where j: "mem.progress_to ecp ?H ?c chain k ?st j w'"
    using mem.restarts_progress [where st = ?st and k = k and chain = chain, OF assms(1) refl refl assms(2,3,6-9)]
    by auto
  from mem.Start_indexed_to [where st = ?st and k = k and chain = chain, OF assms(1) refl assms(3,6-8)
      mem.progress_toD(1) [OF j]]
  show ?thesis using j by (auto simp: mem.progress_to_def mem.indexed_to_def)
qed

theorem progress_is_prefix_witness:
  "\<exists>w' l. processNextBlock (flaky_poller 5) flaky_world = Some (Ret (), w') \<and>
    w_calls w' = [CallHandleBlock (sample_block 3), CallHandleLog l] \<and>
    (\<exists>j \<ge> 2. mem_cursor (w_store w') 1 = Some j \<and>
      mem_stored (w_store w') 1 = fold (spec_index 2 1) (map sample_block (up 2 j)) (mem_stored two_done 1)) \<and>
    Start (flaky_poller 5) w' = (Ret None, w')"
proof -
  obtain l where l: "processNextBlock (flaky_poller 5) flaky_world =
      Some (Ret (), flaky_world\<lparr>w_calls := [CallHandleBlock (sample_block 3), CallHandleLog l]\<rparr>)"
    using flaky_tick by blast
  have "restarts (flaky_poller 5) flaky_world
      (Stopped, flaky_world\<lparr>w_calls := [CallHandleBlock (sample_block 3), CallHandleLog l]\<rparr>)"
    by (rule first_run [OF polls_step [OF polls_step [OF polls_refl tick [OF l]] cancelled]]) simp_all
  from progress_is_prefix [where chain = sample_block and k = 2 and r = "canon 2", OF _ _ sample_linked _ _ _ _ _ this] l
  show ?thesis by (auto simp: sample_truthful flaky_world_def)
qed

text \<open>
  C3. Recovery from failures. After any such history of failures, stops and starts within one process that
  reached block \<open>j\<close> and did not end in a panic, a start succeeds without changing anything, and one tick in a working environment brings the store to the head \<open>m\<close>, with the records that an
  undisturbed run from block \<open>k\<close> would have left; the handler gets the blocks \<open>j + 1\<close> to \<open>m\<close> with all
  their watched logs, those of a block that failed half-way from its start.
\<close>

theorem failures_are_resumed:
  assumes "ecp_store ecp = memory_persistence" and "truthful (ecp_ethClient ecp) chain"
    and "linked_from chain k" and "mem_opened (w_store w)"
    and "mem_cursor (w_store w) (cfg_ChainId (ecp_config ecp)) = Some k"
    and "mem_stored (w_store w) (cfg_ChainId (ecp_config ecp)) k = Some r" and "br_Number r = k"
    and "br_Hash r = eb_Hash (chain k)" and "restarts ecp w (s, w1)" and "s \<noteq> Crashed"
    and "mem_cursor (w_store w1) (cfg_ChainId (ecp_config ecp)) = Some j"
    and "healthy ecp J chain logs D W m" and "m < - 1" and "j \<le> m" and "J (w_env w1)"
  shows "Start ecp w1 = (Ret None, w1) \<and> (\<exists>w2 cs. processNextBlock ecp w1 = Some (Ret (), w2) \<and>
    mem_cursor (w_store w2) (cfg_ChainId (ecp_config ecp)) = Some m \<and>
    mem_stored (w_store w2) (cfg_ChainId (ecp_config ecp)) =
      fold (spec_index (cfg_BlockHistorySize (ecp_config ecp)) (cfg_ChainId (ecp_config ecp)))
        (map chain (up k m)) (mem_stored (w_store w) (cfg_ChainId (ecp_config ecp))) \<and>
    w_calls w2 = w_calls w1 @ cs \<and>
    index_calls (cfg_ChainId (ecp_config ecp)) W logs D (map chain (up j m)) cs)"
proof -
  let ?c = "cfg_ChainId (ecp_config ecp)" and ?H = "cfg_BlockHistorySize (ecp_config ecp)"
  let ?st = "mem_stored (w_store w) ?c"
  have "mem.progress_to ecp ?H ?c chain k ?st k w"
    by (rule mem.progress_to_start [OF assms(4,5)])
  then obtain i where "mem.progress_to ecp ?H ?c chain k ?st i w1"
    using mem.restarts_progress [where st = ?st and k = k and chain = chain, OF assms(1) refl refl assms(2,3,6-9)]
    by auto
  then have "mem.indexed_to ?H ?c chain k ?st i (w_store w1)" by (rule mem.progress_toD(1))
  moreover from this have "i = j" using assms(11) by (simp add: mem.indexed_to_def)
  ultimately have inv: "mem.indexed_to ?H ?c chain k ?st j (w_store w1)" by simp
  note start = mem.Start_indexed_to [where st = ?st and k = k and chain = chain, OF assms(1) refl assms(3,6-8) inv]
  show ?thesis
    by (rule mem.resume_indexed_to [where st = ?st and k = k, OF assms(1) refl refl assms(3,6-8) inv assms(12-15)])
      (auto simp: mem.indexed_to_def start)
qed

theorem failures_are_resumed_witness:
  "\<exists>w1 w2 l. processNextBlock (flaky_poller 5) flaky_world = Some (Ret (), w1) \<and>
    w_calls w1 = [CallHandleBlock (sample_block 3), CallHandleLog l] \<and>
    processNextBlock (flaky_poller 5) (w1\<lparr>w_env := True\<rparr>) = Some (Ret (), w2) \<and>
    mem_cursor (w_store w2) 1 = Some 5 \<and>
    mem_stored (w_store w2) 1 = fold (spec_index 2 1) (map sample_block (up 2 5)) (mem_stored two_done 1)"
proof -
  obtain w1 l where w1: "processNextBlock (flaky_poller 5) flaky_world = Some (Ret (), w1)"
    "w1 = flaky_world\<lparr>w_calls := [CallHandleBlock (sample_block 3), CallHandleLog l]\<rparr>"
    using flaky_tick by blast
  have "restarts (flaky_poller 5) flaky_world (Stopped, w1)"
    by (rule first_run [OF polls_step [OF polls_step [OF polls_refl tick [OF w1(1)]] cancelled]]) simp_all
  moreover have "Start (flaky_poller 5) (w1\<lparr>w_env := True\<rparr>) = (Ret None, w1\<lparr>w_env := True\<rparr>)"
    by (rule mem.Start_again [where k = 2 and r = "canon 2"]) (simp_all add: w1(2) flaky_world_def)
  ultimately have "restarts (flaky_poller 5) flaky_world (Running, w1\<lparr>w_env := True\<rparr>)"
    by (rule next_run [OF _ _ polls_refl])
  from failures_are_resumed [where chain = sample_block and k = 2 and r = "canon 2" and j = 2,
      OF _ _ sample_linked _ _ _ _ _ this _ _ flaky_healthy] w1
  show ?thesis by (auto simp: sample_truthful flaky_world_def)
qed

section \<open>Reorganisations\<close>

text \<open>
  C4. Recovery. When the store holds records of an abandoned fork that left the canonical chain
  above block \<open>a\<close>, within the configured depth, then two ticks bring it to the head \<open>m\<close>: the first
  announces the abandoned blocks \<open>k\<close> down to \<open>a + 1\<close> to the handler, from the top, and drops exactly their
  records, so that \<open>a\<close> is the block processed last; the second indexes the canonical blocks \<open>a + 1\<close> to \<open>m\<close>. Afterwards no record of the fork
  is left.
\<close>

theorem reorg_recovery:
  assumes "ecp_store ecp = memory_persistence" and "healthy ecp J chain logs D W m" and "m < - 1"
    and "J (w_env w)" and "mem_opened (w_store w)" and "records_wf mem_stored (w_store w)"
    and "mem_cursor (w_store w) (cfg_ChainId (ecp_config ecp)) = Some k" and "0 < a" and "a < k" and "k < m"
    and "mem_stored (w_store w) (cfg_ChainId (ecp_config ecp)) a = Some r" and "br_Hash r = eb_Hash (chain a)"
    and "\<And>i. a < i \<Longrightarrow> i \<le> k \<Longrightarrow>
      \<exists>r. mem_stored (w_store w) (cfg_ChainId (ecp_config ecp)) i = Some r \<and> br_Hash r \<noteq> eb_Hash (chain i)"
    and "k + 1 - a \<le> cfg_MaxReorgDepth (ecp_config ecp)"
  shows "\<exists>w1 w2 cs. processNextBlock ecp w = Some (Ret (), w1) \<and>
    processNextBlock ecp w1 = Some (Ret (), w2) \<and>
    w_calls w1 = w_calls w @ map CallHandleReorgBlock (down k a) \<and>
    mem_cursor (w_store w1) (cfg_ChainId (ecp_config ecp)) = Some a \<and>
    (\<forall>n. mem_stored (w_store w1) (cfg_ChainId (ecp_config ecp)) n =
      (if a < n \<and> n \<le> k then None else mem_stored (w_store w) (cfg_ChainId (ecp_config ecp)) n)) \<and>
    w_calls w2 = w_calls w1 @ cs \<and>
    index_calls (cfg_ChainId (ecp_config ecp)) W logs D (map chain (up a m)) cs \<and>
    mem_cursor (w_store w2) (cfg_ChainId (ecp_config ecp)) = Some m \<and>
    (\<forall>n. mem_stored (w_store w2) (cfg_ChainId (ecp_config ecp)) n =
      (if pruned (cfg_BlockHistorySize (ecp_config ecp)) a m n then None
       else if a < n \<and> n \<le> m then Some (record_of (chain n) (cfg_ChainId (ecp_config ecp)))
       else mem_stored (w_store w) (cfg_ChainId (ecp_config ecp)) n))"
proof -
  let ?c = "cfg_ChainId (ecp_config ecp)"
  have fork: "mem.forked (w_store w) ?c chain a k"
    using assms(5-9,11-13) by (auto simp: mem.forked_def mem.orphans_def)
  have tick: "processNextBlock ecp w = Some (Ret (), w1) \<Longrightarrow>
      w_calls w1 = w_calls w @ map CallHandleReorgBlock (down k a)" for w1
    by (rule mem.fork_tick [OF assms(1) refl assms(2,3,10,4) fork assms(14)]) simp
  show ?thesis
  proof (rule mem.fork_recovery [OF assms(1) refl assms(2,3,10,4) fork assms(14)], goal_cases)
    case (1 w1 w2 cs)
    have above: "a < n \<and> n \<le> k \<Longrightarrow> n \<le> m" for n using assms(10) by auto
    have "\<forall>n. mem_stored (w_store w2) ?c n =
      (if pruned (cfg_BlockHistorySize (ecp_config ecp)) a m n then None
       else if a < n \<and> n \<le> m then Some (record_of (chain n) ?c)
       else mem_stored (w_store w) ?c n)"
      using 1(6) above by simp
    moreover have "\<forall>n. mem_stored (w_store w1) ?c n = (if a < n \<and> n \<le> k then None else mem_stored (w_store w) ?c n)"
      "mem_cursor (w_store w1) ?c = Some a"
      using 1(9,10) by (simp_all add: mem.dropped_def)
    ultimately show ?case using 1 tick [OF 1(1)]
      by (intro exI [of _ w1] exI [of _ w2] exI [of _ cs]) simp
  qed
qed

theorem reorg_recovery_witness:
  "\<exists>w1 w2. processNextBlock (sample_poller 4) (sample_world fork_store) = Some (Ret (), w1) \<and>
    w_calls w1 = map CallHandleReorgBlock (down 3 1) \<and>
    mem_cursor (w_store w1) 1 = Some 1 \<and> mem_stored (w_store w1) 1 3 = None \<and>
    processNextBlock (sample_poller 4) w1 = Some (Ret (), w2) \<and>
    mem_cursor (w_store w2) 1 = Some 4 \<and> mem_stored (w_store w2) 1 3 = Some (canon 3)"
  using reorg_recovery [where ecp = "sample_poller 4" and m = 4 and k = 3 and a = 1 and r = "canon 1",
      OF sample_poller_simps(1) sample_healthy _ _ _ _ _ _ _ _ _ _ fork_store_orphans, simplified]
  by (elim exE conjE) (intro exI conjI, assumption, simp, assumption, simp, assumption, simp_all add: canon_def pruned_def)

text \<open>
  C10. A fork the search cannot climb out of. When every record the depth limit lets the search
  visit disagrees with the chain (or the fork reaches down to block 1), the deepest of them is saved
  as the block processed last and then deleted with the others: the tick returns normally, and from
  then on the store answers that there is no last processed block, and no tick, however many follow
  and whatever the environment does, hands over or stores anything.
\<close>

theorem deep_reorg_stalls:
  assumes "ecp_store ecp = memory_persistence" and "healthy ecp J chain logs D W m" and "m < - 1"
    and "J (w_env w)" and "mem_opened (w_store w)" and "records_wf mem_stored (w_store w)"
    and "mem_cursor (w_store w) (cfg_ChainId (ecp_config ecp)) = Some k" and "q < k" and "k < m"
    and "\<And>i. q < i \<Longrightarrow> i \<le> k \<Longrightarrow>
      \<exists>r. mem_stored (w_store w) (cfg_ChainId (ecp_config ecp)) i = Some r \<and> br_Hash r \<noteq> eb_Hash (chain i)"
    and "k - q \<le> cfg_MaxReorgDepth (ecp_config ecp)"
    and "q = 0 \<or> cfg_MaxReorgDepth (ecp_config ecp) < k + 1 - q"
  shows "\<exists>w'. processNextBlock ecp w = Some (Ret (), w') \<and>
    w_calls w' = w_calls w @ map CallHandleReorgBlock (down k q) \<and>
    fst (Memory_GetLastProcessedBlock (cfg_ChainId (ecp_config ecp)) (w_store w')) = Inl ErrNotFound \<and>
    (\<forall>t. polls ecp (Running, w') t \<longrightarrow>
       w_store (snd t) = w_store w' \<and> w_calls (snd t) = w_calls w')"
proof -
  let ?c = "cfg_ChainId (ecp_config ecp)"
  have orph: "mem.orphans (w_store w) ?c chain q k" using assms(10) by (simp add: mem.orphans_def)
  obtain w' where w': "processNextBlock ecp w = Some (Ret (), w')" "mem.dangling (w_store w') ?c"
    "w_calls w' = w_calls w @ map CallHandleReorgBlock (down k q)"
    by (rule mem.deep_fork_stalls [OF assms(1) refl assms(2,3,9,4-7) orph assms(8,11,12)])
  have "fst (Memory_GetLastProcessedBlock ?c (w_store w')) = Inl ErrNotFound"
    using w'(2) mem.last_law [of "w_store w'" ?c]
    by (simp add: mem.dangling_def memory_persistence_def)
  then show ?thesis using w' mem.polls_dangling [OF assms(1)] by blast
qed

theorem deep_reorg_stalls_witness:
  "\<exists>w'. processNextBlock (sample_poller 5) (sample_world deep_store) = Some (Ret (), w') \<and>
    w_calls w' = map CallHandleReorgBlock (down 4 1) \<and>
    fst (Memory_GetLastProcessedBlock 1 (w_store w')) = Inl ErrNotFound"
  using deep_reorg_stalls [where ecp = "sample_poller 5" and m = 5 and k = 4 and q = 1,
      OF sample_poller_simps(1) sample_healthy _ _ _ _ _ _ _ deep_store_orphans, simplified]
  by (elim exE conjE) (intro exI conjI, assumption, simp_all)

text \<open>
  C11. A missing record under a fork. When the ancestor that the search reaches has no record (it was
  pruned, or is older than the start block), the search saves the canonical block for it, but under
  the chain id of the block as the client returned it, which the client leaves unset. The abandoned
  records are deleted while the block processed last on the poller's chain still is the top one of
  them: the poller stalls for good as above.
\<close>

theorem missing_ancestor_stalls:
  assumes "ecp_store ecp = memory_persistence" and "healthy ecp J chain logs D W m" and "m < - 1"
    and "J (w_env w)" and "mem_opened (w_store w)" and "records_wf mem_stored (w_store w)"
    and "mem_cursor (w_store w) (cfg_ChainId (ecp_config ecp)) = Some k" and "0 < q" and "q < k" and "k < m"
    and "\<And>i. q < i \<Longrightarrow> i \<le> k \<Longrightarrow>
      \<exists>r. mem_stored (w_store w) (cfg_ChainId (ecp_config ecp)) i = Some r \<and> br_Hash r \<noteq> eb_Hash (chain i)"
    and "mem_stored (w_store w) (cfg_ChainId (ecp_config ecp)) q = None"
    and "eb_ChainId (chain q) \<noteq> cfg_ChainId (ecp_config ecp)"
    and "k + 1 - q \<le> cfg_MaxReorgDepth (ecp_config ecp)"
  shows "\<exists>w'. processNextBlock ecp w = Some (Ret (), w') \<and>
    fst (Memory_GetLastProcessedBlock (cfg_ChainId (ecp_config ecp)) (w_store w')) = Inl ErrNotFound \<and>
    (\<forall>t. polls ecp (Running, w') t \<longrightarrow>
       w_store (snd t) = w_store w' \<and> w_calls (snd t) = w_calls w')"
proof -
  let ?c = "cfg_ChainId (ecp_config ecp)"
  have orph: "mem.orphans (w_store w) ?c chain q k" using assms(11) by (simp add: mem.orphans_def)
  obtain w' where w': "processNextBlock ecp w = Some (Ret (), w')" "mem.dangling (w_store w') ?c"
    by (rule mem.missing_record_stalls
        [OF assms(1) refl assms(2,3,10,4-7) orph assms(9,8,12-14)])
  have "fst (Memory_GetLastProcessedBlock ?c (w_store w')) = Inl ErrNotFound"
    using w'(2) mem.last_law [of "w_store w'" ?c]
    by (simp add: mem.dangling_def memory_persistence_def)
  then show ?thesis using w' mem.polls_dangling [OF assms(1)] by blast
qed

theorem missing_ancestor_stalls_witness:
  "\<exists>w'. processNextBlock (sample_poller 5) (sample_world gap_store) = Some (Ret (), w') \<and>
    fst (Memory_GetLastProcessedBlock 1 (w_store w')) = Inl ErrNotFound"
  using missing_ancestor_stalls [where ecp = "sample_poller 5" and m = 5 and k = 3 and q = 1,
      OF sample_poller_simps(1) sample_healthy _ _ _ _ _ _ _ _ gap_store_orphans, simplified]
  by (elim exE conjE) (intro exI conjI, assumption, simp_all)

section \<open>Invariants of the poll loop\<close>

lemma history_from_start:
  assumes "ecp_store ecp = memory_persistence"
    and "numbered_client (ecp_ethClient ecp) (cfg_ChainId (ecp_config ecp))"
    and "mem_opened (w_store w)" and "mem_stored (w_store w) (cfg_ChainId (ecp_config ecp)) = Map.empty"
    and "Start ecp w = (Ret None, w1)" and "polls ecp (Running, w1) (st, w2)"
  shows "mem.history_inv (cfg_BlockHistorySize (ecp_config ecp)) (cfg_ChainId (ecp_config ecp)) (w_store w2)"
proof -
  let ?c = "cfg_ChainId (ecp_config ecp)" and ?H = "cfg_BlockHistorySize (ecp_config ecp)"
  obtain b where "mem.run_inv ?H ?c ecp (record_of b ?c) w1"
    by (rule mem.Start_fresh [OF assms(1) refl assms(3-5)])
  from mem.polls_run_inv [OF assms(1) refl refl assms(2,6) this]
  show ?thesis by (simp add: mem.run_invD)
qed

text \<open>
  C5. The stored history is one chain. From a start on a store without records of the poller's
  chain, in every state the poll loop reaches, whatever the handler and the parser answer, whenever
  calls on the node fail and however the chain reorganises between the ticks: every record kept is
  under its own number and the chain id of the poller, none lies above the block processed last, a record
  of the next number names it as its parent, and from block 1 on no block is missing between two
  records. (A record of block 0 is never pruned, so blocks may be missing after it.) The node is trusted to answer a request for block \<open>n\<close>
  with a block numbered \<open>n\<close> whose chain id is left unset.
\<close>

theorem history_is_linked:
  assumes "ecp_store ecp = memory_persistence"
    and "numbered_client (ecp_ethClient ecp) (cfg_ChainId (ecp_config ecp))"
    and "mem_opened (w_store w)" and "mem_stored (w_store w) (cfg_ChainId (ecp_config ecp)) = Map.empty"
    and "Start ecp w = (Ret None, w1)" and "polls ecp (Running, w1) (st, w2)"
    and "mem_stored (w_store w2) (cfg_ChainId (ecp_config ecp)) n = Some r"
  shows "br_Number r = n \<and> br_ChainId r = cfg_ChainId (ecp_config ecp) \<and>
    (\<exists>k. mem_cursor (w_store w2) (cfg_ChainId (ecp_config ecp)) = Some k \<and> n \<le> k) \<and>
    (\<forall>r'. mem_stored (w_store w2) (cfg_ChainId (ecp_config ecp)) (n + 1) = Some r' \<longrightarrow> n < n + 1 \<longrightarrow>
      br_ParentHash r' = br_Hash r) \<and>
    (\<forall>n'. 0 < n \<longrightarrow> n < n' \<longrightarrow> mem_stored (w_store w2) (cfg_ChainId (ecp_config ecp)) n' \<noteq> None \<longrightarrow>
      mem_stored (w_store w2) (cfg_ChainId (ecp_config ecp)) (n + 1) \<noteq> None)"
proof -
  let ?c = "cfg_ChainId (ecp_config ecp)"
  let ?H = "cfg_BlockHistorySize (ecp_config ecp)"
  have inv: "mem.history_inv ?H ?c (w_store w2)"
    by (rule history_from_start [OF assms(1-6)])
  have "\<exists>k. mem_cursor (w_store w2) ?c = Some k \<and> n \<le> k"
    using inv assms(7) unfolding mem.history_inv_def by blast
  then show ?thesis
    using mem.history_invD(2) [OF inv assms(7)] mem.history_invD(4) [OF inv assms(7)]
      mem.history_invD(6) [OF inv, of n] assms(7) by blast
qed

theorem history_is_linked_witness:
  "\<exists>w2. polls (sample_poller 5) (Running, sample_world one_done) (Running, w2) \<and>
    mem_stored (w_store w2) 1 4 = Some (canon 4) \<and> mem_stored (w_store w2) 1 5 = Some (canon 5) \<and>
    br_ParentHash (canon 5) = br_Hash (canon 4)"
proof -
  obtain w' where w': "processNextBlock (sample_poller 5) (sample_world one_done) = Some (Ret (), w')"
    "mem_stored (w_store w') 1 4 = Some (canon 4)" "mem_stored (w_store w') 1 5 = Some (canon 5)"
    by (rule sample_first_tick)
  have run: "polls (sample_poller 5) (Running, sample_world one_done) (Running, w')"
    by (rule polls_step [OF polls_refl tick [OF w'(1)]]) simp
  show ?thesis
    using history_is_linked [of "sample_poller 5" "sample_world NewInMemoryChainPollerPersistence"
        "sample_world one_done" Running w' 4 "canon 4"] run w'(2,3) sample_start sample_numbered
    by auto
qed

text \<open>
  C17. The stored history is bounded. With a positive history size \<open>H\<close>, in every state the poll loop
  reaches from a start on a store without records of the chain, through any failures and
  reorganisations, the records from block 1 on all lie less than \<open>H\<close> blocks below the block processed
  last; there are at most \<open>H\<close> of them.
\<close>

theorem history_is_bounded:
  assumes "ecp_store ecp = memory_persistence"
    and "numbered_client (ecp_ethClient ecp) (cfg_ChainId (ecp_config ecp))"
    and "mem_opened (w_store w)" and "mem_stored (w_store w) (cfg_ChainId (ecp_config ecp)) = Map.empty"
    and "Start ecp w = (Ret None, w1)" and "polls ecp (Running, w1) (st, w2)"
    and "0 < sint (cfg_BlockHistorySize (ecp_config ecp))"
  shows "(\<forall>n k. mem_stored (w_store w2) (cfg_ChainId (ecp_config ecp)) n \<noteq> None \<longrightarrow>
      mem_cursor (w_store w2) (cfg_ChainId (ecp_config ecp)) = Some k \<longrightarrow> 0 < n \<longrightarrow>
      unat k < unat n + unat (cfg_BlockHistorySize (ecp_config ecp))) \<and>
    card {n. 0 < n \<and> mem_stored (w_store w2) (cfg_ChainId (ecp_config ecp)) n \<noteq> None}
      \<le> unat (cfg_BlockHistorySize (ecp_config ecp))"
proof -
  let ?c = "cfg_ChainId (ecp_config ecp)" and ?H = "cfg_BlockHistorySize (ecp_config ecp)"
  have inv: "mem.history_inv ?H ?c (w_store w2)"
    by (rule history_from_start [OF assms(1-6)])
  show ?thesis
    using mem.history_invD(5) [OF inv _ _ _ assms(7)] mem.history_inv_card [OF inv assms(7)] by blast
qed

theorem history_is_bounded_witness:
  "\<exists>w2. polls (sample_poller 5) (Running, sample_world one_done) (Running, w2) \<and>
    mem_stored (w_store w2) 1 5 = Some (canon 5) \<and>
    card {n. 0 < n \<and> mem_stored (w_store w2) 1 n \<noteq> None} \<le> 2"
proof -
  obtain w' where w': "processNextBlock (sample_poller 5) (sample_world one_done) = Some (Ret (), w')"
    "mem_stored (w_store w') 1 5 = Some (canon 5)"
    by (rule sample_first_tick)
  have run: "polls (sample_poller 5) (Running, sample_world one_done) (Running, w')"
    by (rule polls_step [OF polls_refl tick [OF w'(1)]]) simp
  show ?thesis
    using history_is_bounded [of "sample_poller 5" "sample_world NewInMemoryChainPollerPersistence"
        "sample_world one_done" Running w'] run w'(2) sample_start sample_numbered
    by auto
qed

text \<open>
  C9. One chain per tick. Whatever the client, the parser, the handler and the store do, the
  blocks that a tick hands to the handler are linked: the parent hash of the first is the hash of the
  block processed last, the parent hash of each later one the hash of the one before.
\<close>

theorem tick_hands_over_linked:
  assumes "processNextBlock ecp w = Some (res, w')"
    and "GetLastProcessedBlock (ecp_store ecp) (cfg_ChainId (ecp_config ecp)) (w_store w) = (Inr (Some r), s1)"
  shows "\<exists>bs. handled_blocks (w_calls w') = handled_blocks (w_calls w) @ bs \<and> linked (br_Hash r) bs"
proof -
  obtain res2 e2 where e2: "GetLatestBlock (ecp_ethClient ecp) (w_env w) = (res2, e2)" by fastforce
  let ?w2 = "w\<lparr>w_store := s1, w_env := e2\<rparr>"
  consider "w' = ?w2" | ns where "process_blocks ecp r ns ?w2 = (res, w')"
    using assms e2
    by (auto simp: processNextBlock_def go_defs bind_eq_Some_conv
        split: sum.splits if_splits)
  then show ?thesis
  proof cases
    case 1
    then show ?thesis by (intro exI [of _ "[]"]) simp
  next
    case 2
    then show ?thesis using process_blocks_linked [OF 2] by auto
  qed
qed

theorem tick_hands_over_linked_witness:
  "\<exists>w' bs. processNextBlock (sample_poller 5) (sample_world one_done) = Some (Ret (), w') \<and>
    handled_blocks (w_calls w') = bs \<and> linked (sample_hash 1) bs"
proof -
  obtain w' where w': "processNextBlock (sample_poller 5) (sample_world one_done) = Some (Ret (), w')"
    by (rule sample_first_tick)
  have "GetLastProcessedBlock memory_persistence 1 one_done = (Inr (Some (canon 1)), one_done)"
    using mem.last_law [of one_done 1] by simp
  with tick_hands_over_linked [OF w'] w' show ?thesis by auto
qed

text \<open>
  C20. Chains do not interfere. Whatever the environment does, from an open store whose records are in their
  places, no step of the poll loop changes what the store answers about another chain, chain 0
  apart: with a client that leaves the chain id of blocks unset, a reorganisation may save a record there.
\<close>

theorem other_chains_untouched:
  assumes "ecp_store ecp = memory_persistence" and "labels_blocks (ecp_ethClient ecp) {0}"
    and "mem_opened (w_store w)" and "records_wf mem_stored (w_store w)"
    and "polls ecp (st, w) (st', w')" and "c \<noteq> cfg_ChainId (ecp_config ecp)" and "c \<noteq> 0"
  shows "fst (Memory_GetBlock c n (w_store w')) = fst (Memory_GetBlock c n (w_store w)) \<and>
    fst (Memory_GetLastProcessedBlock c (w_store w')) = fst (Memory_GetLastProcessedBlock c (w_store w))"
proof -
  let ?A = "{cfg_ChainId (ecp_config ecp), 0}"
  have "labels_blocks (ecp_ethClient ecp) ?A" using assms(2) by (auto simp: labels_blocks_def)
  then have "mem.touches ?A (w_store w) (w_store w')"
    using mem.touches_polls [OF assms(1) _ _ assms(5), of ?A] by simp
  then have "mem_opened (w_store w')" "mem_stored (w_store w') c = mem_stored (w_store w) c"
    "mem_cursor (w_store w') c = mem_cursor (w_store w) c"
    using assms(3,4,6,7) by (simp_all add: mem.touches_def)
  then show ?thesis
    using mem.get_law [OF assms(3), of c n] mem.last_law [OF assms(3), of c]
      mem.get_law [of "w_store w'" c n] mem.last_law [of "w_store w'" c]
    by (simp add: memory_persistence_def)
qed

theorem other_chains_untouched_witness:
  "\<exists>w'. processNextBlock (sample_poller 5) (sample_world shared_store) = Some (Ret (), w') \<and>
    mem_cursor (w_store w') 1 = Some 5 \<and>
    fst (Memory_GetBlock 7 9 (w_store w')) = Inr (Some ((canon 9)\<lparr>br_ChainId := 7\<rparr>))"
proof -
  obtain w' where w': "processNextBlock (sample_poller 5) (sample_world shared_store) = Some (Ret (), w')"
    "mem.indexed (sample_poller 5) sample_block sample_logs (\<lambda>_. None) {''0xaa''} 1 5 (sample_world shared_store) w'"
    using mem.processNextBlock_healthy [where k = 1 and r = "canon 1" and w = "sample_world shared_store",
        OF sample_poller_simps(1) sample_healthy [of 5]] by auto
  have "fst (Memory_GetBlock 7 9 (w_store w')) = fst (Memory_GetBlock 7 9 shared_store)"
    using other_chains_untouched [OF _ _ _ _ polls_step [OF polls_refl tick [OF w'(1)]], of 7 9] by (simp add: sample_labels)
  moreover have "fst (Memory_GetBlock 7 9 shared_store) = Inr (Some ((canon 9)\<lparr>br_ChainId := 7\<rparr>))"
    using mem.get_law [of shared_store 7 9] by (simp add: memory_persistence_def)
  ultimately show ?thesis using w' by (auto simp: mem.indexed_def Let_def)
qed

text \<open>
  C6. Handled before recorded. Whatever the client, the parser, the handler and the store do, a block
  whose processing ends with a record had all its fetched logs decoded and handed over, in the order
  fetched and with the poller's chain id in the block, before the store was asked to save the record; a
  processing that ends in an error or a panic leaves the store untouched, so that the block is met again
  on the next tick.
\<close>

theorem recorded_after_logs:
  assumes "processBlockLogs ecp b w = (res, w')"
  shows "case res of
      Ret (Inr r) \<Rightarrow>
        \<exists>logs e1 ds w2.
          fetchLogsForInterestingContractsForBlock ecp (eb_Number b) (w_env w) = (Ret (Inr logs), e1) \<and>
          length ds = length logs \<and> w_store w2 = w_store w \<and>
          w_calls w2 = w_calls w @ map2 (\<lambda>l d. CallHandleLog \<lparr>lwb_Log = d, lwb_RawLog = l,
            lwb_Block = b\<lparr>eb_ChainId := cfg_ChainId (ecp_config ecp)\<rparr>\<rparr>) logs ds \<and>
          r = record_of b (cfg_ChainId (ecp_config ecp)) \<and>
          w' = prune_old ecp r (snd (on_store (SaveBlock (ecp_store ecp) (Some r)) w2))
    | _ \<Rightarrow> w_store w' = w_store w"
proof (cases "\<exists>r. res = Ret (Inr r)")
  case True
  then obtain r where r: "res = Ret (Inr r)" ..
  show ?thesis
    unfolding r go.case sum.case
    by (rule processBlockLogs_saved [OF assms [unfolded r]], unfold log_calls_def) blast
next
  case False
  with processBlockLogs_calls(2) [OF assms] show ?thesis by (auto split: go.splits sum.splits)
qed

theorem recorded_after_logs_witness:
  "\<exists>w' ds. processBlockLogs (sample_poller 5) (sample_block 2) (sample_world one_done) =
      (Ret (Inr (canon 2)), w') \<and>
    w_calls w' = map (\<lambda>d. CallHandleLog \<lparr>lwb_Log = d, lwb_RawLog = Some (zero_log\<lparr>el_Address := ''0xaa''\<rparr>),
      lwb_Block = (sample_block 2)\<lparr>eb_ChainId := 1\<rparr>\<rparr>) ds \<and> length ds = 1"
proof -
  have "ecp_logParser (sample_poller 5) = \<lparr>ParseLog = (\<lambda>l e. (Ret (None, None), e))\<rparr>"
    "ecp_blockHandler (sample_poller 5) = \<lparr>HandleBlock = (\<lambda>b e. (None, e)),
       HandleLog = (\<lambda>l e. (None, e)), HandleReorgBlock = (\<lambda>n e. e)\<rparr>"
    and f: "fetchLogsForInterestingContractsForBlock (sample_poller 5) n e =
      (Ret (Inr [Some (zero_log\<lparr>el_Address := ''0xaa''\<rparr>)]), e)" for n e
    by (simp_all add: sample_poller_def poller_fetch) (simp_all add: poller_with_def)
  then obtain r w' where w': "processBlockLogs (sample_poller 5) (sample_block 2) (sample_world one_done) =
      (Ret (Inr r), w')"
    by (cases "SaveBlock memory_persistence (Some (record_of (sample_block 2) 1)) one_done")
      (simp add: processBlockLogs_def go_defs call_HandleLog_def Let_def)
  from recorded_after_logs [OF w'] obtain logs e1 ds w2 where l:
    "fetchLogsForInterestingContractsForBlock (sample_poller 5) 2 () = (Ret (Inr logs), e1)"
    "length ds = length logs" "w_calls w2 = map2 (\<lambda>l d. CallHandleLog \<lparr>lwb_Log = d, lwb_RawLog = l,
       lwb_Block = (sample_block 2)\<lparr>eb_ChainId := 1\<rparr>\<rparr>) logs ds"
    "r = canon 2" "w' = prune_old (sample_poller 5) r (snd (on_store (SaveBlock memory_persistence (Some r)) w2))"
    by (auto simp: canon_def)
  have logs: "logs = [Some (zero_log\<lparr>el_Address := ''0xaa''\<rparr>)]"
    using l(1) f by simp
  have "w_calls w' = w_calls w2"
    unfolding l(5) by (simp add: on_store_def split: prod.splits)
  with w' l(2,3,4) logs show ?thesis
    by (intro exI [of _ w'] exI [of _ ds]) (auto simp: length_Suc_conv)
qed

text \<open>
  C14. A tick returns. A tick always returns, normally or with a panic, unless the head the node
  reports is the greatest 64-bit number: then, from any earlier block, the loop that collects the
  block numbers never ends, because its counter wraps.
\<close>

theorem tick_returns:
  "(\<exists>res w'. processNextBlock ecp w = Some (res, w')) \<longleftrightarrow>
     \<not> (\<exists>r s1 e1. GetLastProcessedBlock (ecp_store ecp) (cfg_ChainId (ecp_config ecp)) (w_store w)
            = (Inr (Some r), s1) \<and>
          GetLatestBlock (ecp_ethClient ecp) (w_env w) = (Inr (- 1), e1) \<and> br_Number r < - 1)"
proof -
  obtain res1 s1 where s1: "GetLastProcessedBlock (ecp_store ecp) (cfg_ChainId (ecp_config ecp))
      (w_store w) = (res1, s1)" by fastforce
  obtain res2 e1 where e1: "GetLatestBlock (ecp_ethClient ecp) (w_env w) = (res2, e1)" by fastforce
  show ?thesis
  proof (cases "\<exists>r m. res1 = Inr (Some r) \<and> res2 = Inr m")
    case False
    then show ?thesis using s1 e1
      by (auto simp: processNextBlock_def go_defs split: sum.split option.split)
  next
    case True
    then obtain r m where rm: "res1 = Inr (Some r)" "res2 = Inr m" by blast
    have "collect_blocks (br_Number r + 1) m \<noteq> None \<longleftrightarrow> m \<noteq> - 1" if "br_Number r < m"
      using that collect_blocks_finite [of m "br_Number r"] collect_blocks_diverges
      by (cases "m = - 1") (auto simp: less_le)
    with rm s1 e1 show ?thesis
      by (auto simp: processNextBlock_def go_defs bind_eq_None_conv)
  qed
qed

section \<open>Starting\<close>

text \<open>
  C18. Nothing is recorded that was not delivered, the start block apart. A successful start on a store
  without records of the chain records the start block, calling the handler for nothing; from
  then on, in every state of the poll loop, whatever fails and however the chain reorganises, each other
  record is of a block that was handed to the handler and followed at once by all logs that a fetch
  for it delivered. The start block itself and its logs are never handed over by the start.
\<close>

theorem recorded_were_delivered:
  assumes "ecp_store ecp = memory_persistence"
    and "numbered_client (ecp_ethClient ecp) (cfg_ChainId (ecp_config ecp))"
    and "mem_opened (w_store w)" and "mem_stored (w_store w) (cfg_ChainId (ecp_config ecp)) = Map.empty"
    and "Start ecp w = (Ret None, w1)" and "polls ecp (Running, w1) (st, w2)"
  shows "\<exists>b. w_calls w1 = w_calls w \<and>
    mem_cursor (w_store w1) (cfg_ChainId (ecp_config ecp)) = Some (eb_Number b) \<and>
    mem_stored (w_store w1) (cfg_ChainId (ecp_config ecp)) =
      [eb_Number b \<mapsto> record_of b (cfg_ChainId (ecp_config ecp))] \<and>
    (\<forall>n r. mem_stored (w_store w2) (cfg_ChainId (ecp_config ecp)) n = Some r \<longrightarrow>
       r = record_of b (cfg_ChainId (ecp_config ecp)) \<or> delivered ecp (w_calls w2) r)"
proof -
  let ?c = "cfg_ChainId (ecp_config ecp)" and ?H = "cfg_BlockHistorySize (ecp_config ecp)"
  obtain b where b: "mem.run_inv ?H ?c ecp (record_of b ?c) w1"
    "mem_cursor (w_store w1) ?c = Some (eb_Number b)"
    "mem_stored (w_store w1) ?c = [eb_Number b \<mapsto> record_of b ?c]" "w_calls w1 = w_calls w"
    by (rule mem.Start_fresh [OF assms(1) refl assms(3-5)])
  have "mem.run_inv ?H ?c ecp (record_of b ?c) w2"
    using mem.polls_run_inv [OF assms(1) refl refl assms(2,6) b(1)] by simp
  then show ?thesis using b(2-4) unfolding mem.run_inv_def by blast
qed

theorem recorded_were_delivered_witness:
  "\<exists>w2. polls (sample_poller 5) (Running, sample_world one_done) (Running, w2) \<and>
    mem_stored (w_store w2) 1 5 = Some (canon 5) \<and> delivered (sample_poller 5) (w_calls w2) (canon 5)"
proof -
  obtain w' where w': "processNextBlock (sample_poller 5) (sample_world one_done) = Some (Ret (), w')"
    "mem_stored (w_store w') 1 5 = Some (canon 5)"
    by (rule sample_first_tick)
  have run: "polls (sample_poller 5) (Running, sample_world one_done) (Running, w')"
    by (rule polls_step [OF polls_refl tick [OF w'(1)]]) simp
  obtain b where b: "mem_cursor one_done 1 = Some (eb_Number b)"
    "\<forall>n r. mem_stored (w_store w') 1 n = Some r \<longrightarrow>
       r = record_of b 1 \<or> delivered (sample_poller 5) (w_calls w') r"
    using recorded_were_delivered [of "sample_poller 5" "sample_world NewInMemoryChainPollerPersistence"
        "sample_world one_done" Running w'] run sample_start sample_numbered
    by auto
  have "br_Number (record_of b 1) \<noteq> br_Number (canon 5)" using b(1) by (simp add: record_of_def)
  with b(2) w'(2) run show ?thesis by metis
qed

text \<open>
  C19. A start without a last processed block. On an open store that has none for the poller's chain (it is
  new, or the poller had stalled on a fork), with everything working, the start records the configured genesis
  block, or without one the head, over the records the store may still have, and hands over nothing. The first
  tick then delivers and records the blocks above it up to the head: with a genesis block all of them once
  more, without one only those that came after the start.
\<close>

theorem start_without_last_block:
  assumes "ecp_store ecp = memory_persistence" and "healthy ecp J chain logs D W m" and "m < - 1"
    and "J (w_env w)" and "mem_opened (w_store w)"
    and "fst (Memory_GetLastProcessedBlock (cfg_ChainId (ecp_config ecp)) (w_store w)) = Inl ErrNotFound"
    and "n = (if cfg_GenesisBlockNumber (ecp_config ecp) > 0
              then cfg_GenesisBlockNumber (ecp_config ecp) else m)" and "0 < n" and "n \<le> m"
  shows "\<exists>w1 w2 cs. Start ecp w = (Ret None, w1) \<and> processNextBlock ecp w1 = Some (Ret (), w2) \<and>
    (let c = cfg_ChainId (ecp_config ecp); H = cfg_BlockHistorySize (ecp_config ecp);
         seeded = (mem_stored (w_store w) c)(n \<mapsto> record_of (chain n) c) in
     mem_cursor (w_store w1) c = Some n \<and> mem_stored (w_store w1) c = seeded \<and> w_calls w1 = w_calls w \<and>
     mem_cursor (w_store w2) c = Some m \<and>
     mem_stored (w_store w2) c = fold (spec_index H c) (map chain (up n m)) seeded \<and>
     w_calls w2 = w_calls w1 @ cs \<and> index_calls c W logs D (map chain (up n m)) cs)"
proof -
  let ?c = "cfg_ChainId (ecp_config ecp)"
  have works: "works ecp J chain logs W m" using assms(2) by (simp add: healthy_def)
  have none: "Option.bind (mem_cursor (w_store w) ?c) (mem_stored (w_store w) ?c) = None"
    using assms(6) mem.last_law [OF assms(5), of ?c] by (simp add: memory_persistence_def split: option.splits)
  obtain w1 where w1: "Start ecp w = (Ret None, w1)" "w_calls w1 = w_calls w" "J (w_env w1)"
    "mem_opened (w_store w1)" "mem_cursor (w_store w1) ?c = Some n"
    "mem_stored (w_store w1) ?c = (mem_stored (w_store w) ?c)(n \<mapsto> record_of (chain n) ?c)"
    by (rule mem.Start_reseeds [OF assms(1) refl works assms(4,5) none assms(7-9)]) simp
  have "n < m \<Longrightarrow> br_Hash (record_of (chain n) ?c) = eb_ParentHash (chain (n + 1))"
    using worksD(2) [OF works assms(8)] by (simp add: record_of_def)
  moreover have "br_Number (record_of (chain n) ?c) = n"
    using worksD(1) [OF works] by (simp add: serves_blocks_def record_of_def)
  ultimately obtain w2 where w2: "processNextBlock ecp w1 = Some (Ret (), w2)"
    "mem.indexed ecp chain logs D W n m w1 w2"
    using mem.processNextBlock_healthy [OF assms(1-3,9) w1(4,3,5)] w1(6) by auto
  then show ?thesis
    using w1 by (intro exI [of _ w1] exI [of _ w2]) (auto simp: mem.indexed_def Let_def)
qed

theorem start_without_last_block_witness:
  "\<exists>w1 w2. Start (sample_poller 5) (sample_world NewInMemoryChainPollerPersistence) = (Ret None, w1) \<and>
    processNextBlock (sample_poller 5) w1 = Some (Ret (), w2) \<and>
    mem_stored (w_store w1) 1 = [1 \<mapsto> canon 1] \<and> mem_cursor (w_store w2) 1 = Some 5 \<and> w_calls w1 = []"
  using start_without_last_block [of "sample_poller 5" "\<lambda>_. True" sample_block sample_logs "\<lambda>_. None" "{''0xaa''}" 5
      "sample_world NewInMemoryChainPollerPersistence" 1, OF sample_poller_simps(1) sample_healthy]
    mem.last_law [of NewInMemoryChainPollerPersistence 1]
  by (auto simp: Let_def canon_def memory_persistence_def sample_genesis split: option.splits bind_split)

lemma apply_defaults_fields:
  "cfg_MaxReorgDepth (apply_defaults c) = (if cfg_MaxReorgDepth c = 0 then 10 else cfg_MaxReorgDepth c)"
  "cfg_BlockHistorySize (apply_defaults c) =
     (if cfg_BlockHistorySize c = 0 then 100 else cfg_BlockHistorySize c)"
  "cfg_MaxAddressesPerLogsRequest (apply_defaults c) =
     (if cfg_MaxAddressesPerLogsRequest c = 0 then 1000 else cfg_MaxAddressesPerLogsRequest c)"
  "cfg_LogsFetchTimeout (apply_defaults c) =
     (if cfg_LogsFetchTimeout c = 0 then 60000000000 else cfg_LogsFetchTimeout c)"
  "cfg_ReorgCheckEnabled (apply_defaults c) =
     (cfg_ReorgCheckEnabled c \<or> 0 < sint (cfg_MaxReorgDepth (apply_defaults c)))"
  "cfg_PollingInterval (apply_defaults c) = cfg_PollingInterval c"
  "cfg_AvsAddress (apply_defaults c) = cfg_AvsAddress c"
  "cfg_GenesisBlockNumber (apply_defaults c) = cfg_GenesisBlockNumber c"
  by (simp_all add: apply_defaults_def Let_def
      DefaultMaxAddressesPerLogsRequest_def DefaultLogsFetchTimeout_def)

lemma apply_defaults_reorg_check:
  "cfg_ReorgCheckEnabled (apply_defaults c) = (cfg_ReorgCheckEnabled c \<or> 0 \<le> sint (cfg_MaxReorgDepth c))"
proof -
  have "0 \<le> sint d \<longleftrightarrow> d = 0 \<or> 0 < sint d" for d :: go_int
    by (metis order.order_iff_strict signed_0 signed_word_eqI)
  then show ?thesis by (simp add: apply_defaults_fields)
qed

lemma apply_defaults_idem: "apply_defaults (apply_defaults c) = apply_defaults c"
  by (rule EVMChainPollerConfig.equality)
    (simp_all add: apply_defaults_fields)

lemma fold_WithContractRegistry:
  "fold (\<lambda>opt ecp. opt ecp) (map WithContractRegistry rs) ecp =
     (if rs = [] then ecp else ecp\<lparr>ecp_contractRegistry := Some (last rs)\<rparr>)"
  by (induction rs rule: rev_induct) (auto simp: WithContractRegistry_def)

text \<open>
  C33. Construction. The constructor panics exactly when no store is given. The poller it builds otherwise
  has the registry of the last option, and a complete configuration: the caller's depth, history size,
  request size and timeout where they are not zero, the defaults where they are; the reorganisation
  check is on whatever the caller chose, unless the depth is negative; filling in the
  defaults again changes nothing.
\<close>

theorem NewEVMChainPoller_config:
  "case NewEVMChainPoller C L cfg store h sched (map WithContractRegistry rs) of
     Panic p \<Rightarrow> store = None
   | Ret ecp \<Rightarrow>
       store = Some (ecp_store ecp) \<and>
       ContractRegistry ecp = (if rs = [] then None else Some (last rs)) \<and>
       cfg_ChainId (ecp_config ecp) = cfg_ChainId cfg \<and>
       cfg_MaxReorgDepth (ecp_config ecp) =
         (if cfg_MaxReorgDepth cfg = 0 then 10 else cfg_MaxReorgDepth cfg) \<and>
       cfg_BlockHistorySize (ecp_config ecp) =
         (if cfg_BlockHistorySize cfg = 0 then 100 else cfg_BlockHistorySize cfg) \<and>
       cfg_MaxAddressesPerLogsRequest (ecp_config ecp) =
         (if cfg_MaxAddressesPerLogsRequest cfg = 0 then 1000 else cfg_MaxAddressesPerLogsRequest cfg) \<and>
       cfg_LogsFetchTimeout (ecp_config ecp) =
         (if cfg_LogsFetchTimeout cfg = 0 then 60000000000 else cfg_LogsFetchTimeout cfg) \<and>
       cfg_ReorgCheckEnabled (ecp_config ecp) =
         (cfg_ReorgCheckEnabled cfg \<or> 0 \<le> sint (cfg_MaxReorgDepth cfg)) \<and>
       apply_defaults (ecp_config ecp) = ecp_config ecp"
proof (cases store)
  case None
  then show ?thesis by (simp add: NewEVMChainPoller_def)
next
  case (Some st)
  then show ?thesis
    by (simp add: NewEVMChainPoller_def fold_WithContractRegistry ContractRegistry_def
        apply_defaults_idem apply_defaults_reorg_check apply_defaults_fields(1-4))
qed

section \<open>Fetching logs\<close>

text \<open>
  C12. Concurrent fetching delivers every watched log once. Against a node that answers each request
  with the block's logs at the requested addresses, the fetch returns, in some order that depends on
  the schedule of the goroutines, exactly the logs of the block with a watched address.
\<close>

theorem fetch_delivers_watched:
  assumes "serves_logs (ecp_ethClient ecp) J n ls" and "J e" and "request_size_ok ecp e"
  shows "\<exists>logs e'. fetchLogsForInterestingContractsForBlock ecp n e = (Ret (Inr logs), e') \<and>
    mset logs = mset (filter (\<lambda>l. log_address l \<in> watched ecp e) ls)"
  using fetchLogs_serves [OF assms] by blast

theorem fetch_delivers_watched_witness:
  "\<exists>logs e'. fetchLogsForInterestingContractsForBlock (sample_poller 5) 2 () = (Ret (Inr logs), e') \<and>
    mset logs = mset (filter (\<lambda>l. log_address l \<in> {''0xaa''}) (sample_logs 2))"
  using fetch_delivers_watched [of "sample_poller 5" "\<lambda>_. True" 2 "sample_logs 2" "()"]
    sample_serves_logs [of 5 "\<lambda>_. True" 2] sample_request_size sample_watched by simp

text \<open>
  C13. All or nothing. When the fetch returns logs, the client was asked once for each batch of the watched
  addresses, in some order, each time in the environment that the request before left, and answered each with
  logs; the result has the logs of all these answers. An error on any batch never yields a partial result.
\<close>

theorem fetch_all_or_nothing:
  assumes "fetchLogsForInterestingContractsForBlock ecp n e = (Ret (Inr logs), e')"
    and "listAllInterestingContracts ecp e \<noteq> []"
  shows "\<exists>batches order es rs.
    chunkAddresses (listAllInterestingContracts ecp e)
      (cfg_MaxAddressesPerLogsRequest (ecp_config ecp)) = Ret batches \<and>
    mset order = mset [0..<length batches] \<and> length rs = length batches \<and> logs = concat rs \<and>
    length es = Suc (length batches) \<and> hd es = e \<and> last es = e' \<and>
    (\<forall>i < length batches. GetLogsForAddresses (ecp_ethClient ecp) (batches ! (order ! i)) n n (es ! i) =
       (Inr (rs ! i), es ! Suc i))"
  using fetchLogs_answers [OF assms] by metis

theorem fetch_all_or_nothing_witness:
  "\<exists>logs. fetchLogsForInterestingContractsForBlock (sample_poller 5) 2 () = (Ret (Inr logs), ()) \<and>
    GetLogsForAddresses (sample_client 5) [''0xaa''] 2 2 () = (Inr logs, ())"
proof -
  obtain logs where l: "fetchLogsForInterestingContractsForBlock (sample_poller 5) 2 () = (Ret (Inr logs), ())"
    by (simp add: sample_poller_def poller_fetch)
  have batch: "chunkAddresses [''0xaa''] 1000 = Ret [[''0xaa'']]"
    using chunkAddresses_eq [of "[''0xaa'']" 1000]
    by (simp add: effective_chunk_size_def chunks_of.simps)
  from fetch_all_or_nothing [OF l] batch obtain order :: "nat list" and rs where
    r: "mset order = {#0#}" "length rs = 1" "logs = concat rs"
    "GetLogsForAddresses (sample_client 5) ([[''0xaa'']] ! (order ! 0)) 2 2 () = (Inr (rs ! 0), ())"
    by auto
  then obtain ls where "order = [0]" "rs = [ls]" by (auto simp: length_Suc_conv)
  with r l show ?thesis by auto
qed

text \<open>
  C26. Splitting. With a request size that the address list does not overflow, the batches are
  the consecutive pieces of the list: they concatenate to it, none is empty or larger than the
  size, and there are as few as possible. A size below 1 counts as 1000.
\<close>

theorem chunkAddresses_partition:
  assumes "int (length xs) + sint (effective_chunk_size cs) \<le> 2 ^ 63"
  shows "\<exists>chunks. chunkAddresses xs cs = Ret chunks \<and> concat chunks = xs \<and>
    (\<forall>ch \<in> set chunks. 0 < length ch \<and> int (length ch) \<le> sint (effective_chunk_size cs)) \<and>
    length chunks = (length xs + unat (effective_chunk_size cs) - 1) div unat (effective_chunk_size cs)"
proof -
  let ?k = "effective_chunk_size cs"
  have k: "sint ?k = int (unat ?k)"
    using effective_chunk_size_pos [of cs] by (intro sint_nonneg_unat) simp
  then have pos: "0 < unat ?k" using effective_chunk_size_pos [of cs] by linarith
  show ?thesis
    using chunkAddresses_eq [OF assms] concat_chunks_of [OF pos] chunks_of_sizes [of _ "unat ?k" xs]
      length_chunks_of [OF pos] k by (auto simp del: of_nat_unat)
qed

theorem chunkAddresses_partition_witness:
  "\<exists>chunks. chunkAddresses [''a'', ''b'', ''c''] 2 = Ret chunks \<and>
    concat chunks = [''a'', ''b'', ''c''] \<and> length chunks = 2"
  using chunkAddresses_partition [of "[''a'', ''b'', ''c'']" 2] by (auto simp: effective_chunk_size_def)

section \<open>The in-memory store\<close>

text \<open>
  C15. The in-memory store is a map. On an open store each method acts on the abstract state, the
  records by chain and number and the last saved number by chain, as its name says; on a closed
  one each fails with \<^verbatim>\<open>ErrStoreClosed\<close> and changes nothing.
\<close>

theorem memory_store_refines_map:
  "if mem_closed s then
     Memory_GetLastProcessedBlock c s = (Inl ErrStoreClosed, s) \<and> Memory_GetBlock c n s = (Inl ErrStoreClosed, s) \<and>
     Memory_SaveBlock ob s = (Some ErrStoreClosed, s) \<and> Memory_DeleteBlock c n s = (Some ErrStoreClosed, s) \<and>
     Memory_Close s = (Some ErrStoreClosed, s)
   else
     Memory_GetBlock c n s = (case mem_stored s c n of None \<Rightarrow> Inl ErrNotFound | Some b \<Rightarrow> Inr (Some b), s) \<and>
     Memory_GetLastProcessedBlock c s =
       (case Option.bind (mem_cursor s c) (mem_stored s c) of None \<Rightarrow> Inl ErrNotFound | Some b \<Rightarrow> Inr (Some b), s) \<and>
     (\<exists>s'. Memory_SaveBlock (Some b) s = (None, s') \<and> \<not> mem_closed s' \<and>
        mem_stored s' = (mem_stored s)(br_ChainId b := (mem_stored s (br_ChainId b))(br_Number b \<mapsto> b)) \<and>
        mem_cursor s' = (mem_cursor s)(br_ChainId b \<mapsto> br_Number b)) \<and>
     (\<exists>e. Memory_SaveBlock None s = (Some e, s)) \<and>
     (\<exists>s'. Memory_DeleteBlock c n s =
          (case mem_stored s c n of None \<Rightarrow> Some ErrNotFound | Some _ \<Rightarrow> None, s') \<and> \<not> mem_closed s' \<and>
        mem_stored s' = (mem_stored s)(c := (mem_stored s c)(n := None)) \<and> mem_cursor s' = mem_cursor s) \<and>
     fst (Memory_Close s) = None \<and> mem_closed (snd (Memory_Close s))"
proof (cases "mem_closed s")
  case True
  then show ?thesis
    using mem.closed_law [of s c n ob] by (simp add: mem_opened_def memory_persistence_def)
next
  case False
  then have op: "mem_opened s" by (simp add: mem_opened_def)
  show ?thesis
    using mem.get_law [OF op, of c n] mem.last_law [OF op, of c] mem.save_law [OF op, of b] mem.save_nil_law [OF op]
      mem.delete_law [OF op, of c n] mem.close_law [OF op] False
    by (simp add: mem_opened_def memory_persistence_def) (auto simp: Memory_Close_def)
qed

text \<open>
  C16. The compliance suite passes. The constructor of the in-memory store passes \<^verbatim>\<open>Run\<close>, all three tests, each
  on a store of its own, the concurrent one under every interleaving of its ten goroutines; when they have run, the last
  processed block of each of the five chains is its block 9.
\<close>

theorem memory_store_passes_suite:
  assumes "interleaved goroutines schedule" and "i < 5"
  shows "TestSuite_Run \<lparr>NewStore = Inr (memory_persistence, NewInMemoryChainPollerPersistence)\<rparr> schedule \<and>
    fst (Memory_GetLastProcessedBlock (word_of_nat i)
      (snd (run_steps memory_persistence schedule NewInMemoryChainPollerPersistence))) =
      Inr (Some (concurrent_record (word_of_nat i) 9))"
proof -
  let ?s = NewInMemoryChainPollerPersistence
  have op: "mem_opened ?s" by simp
  have "Option.bind (mem_cursor ?s 1) (mem_stored ?s 1) = None" by (cases "mem_cursor ?s 1") simp_all
  then have "testChainPollingState memory_persistence ?s" by (rule mem.suite_state [OF op])
  moreover have "fst (GetLastProcessedBlock memory_persistence (word_of_nat i)
      (snd (run_steps memory_persistence schedule ?s))) = Inr (Some (concurrent_record (word_of_nat i) 9))"
    using mem.run_steps_last [OF op, of "word_of_nat i" schedule] goroutines_writes [OF assms] by simp
  ultimately show ?thesis
    using mem.suite_lifecycle [OF op] mem.suite_concurrent [OF op, of schedule]
    by (simp add: TestSuite_Run_def with_new_store_def) (simp add: memory_persistence_def)
qed

theorem memory_store_passes_suite_witness:
  "TestSuite_Run \<lparr>NewStore = Inr (memory_persistence, NewInMemoryChainPollerPersistence)\<rparr> (concat goroutines) \<and>
   fst (Memory_GetLastProcessedBlock (word_of_nat 3)
     (snd (run_steps memory_persistence (concat goroutines) NewInMemoryChainPollerPersistence))) =
     Inr (Some (concurrent_record (word_of_nat 3) 9))"
  using memory_store_passes_suite [OF interleaved_concat, of 3] by simp

end
